theory Spec2Isabelle
  imports Complex_Main "HOL-Library.Multiset"
begin

section \<open>SIFT3D (sift.c): a shallow embedding\<close>

text \<open>
  The definitions below follow \<^verbatim>\<open>src/sift3d/sift.c\<close>. The C types \<^verbatim>\<open>float\<close> and
  \<^verbatim>\<open>double\<close> are read as the real numbers, \<^verbatim>\<open>int\<close> as the unbounded integers. Rounding is
  modelled where a constant is absorbed by it (the bounds of \<^verbatim>\<open>refine_keypoints\<close>), and
  infinities and NaN where a division by zero can produce them (the same function and
  the matcher); elsewhere they are outside the model. Pointers into arrays become list
  indices; an out-parameter becomes a component of the returned value.
\<close>

subsection \<open>Return codes and constants\<close>

text \<open>\<^verbatim>\<open>SIFT3D_SUCCESS\<close>, \<^verbatim>\<open>SIFT3D_FAILURE\<close> and the internal return code
  \<^verbatim>\<open>REJECT\<close> (line 77).\<close>

datatype retcode = SIFT3D_SUCCESS | SIFT3D_FAILURE | REJECT

text \<open>\<^verbatim>\<open>DBL_EPSILON\<close> and \<^verbatim>\<open>FLT_EPSILON\<close> of \<^verbatim>\<open><float.h>\<close> (IEEE 754 binary64 and
  binary32).\<close>

definition DBL_EPSILON :: real where
  "DBL_EPSILON = 1 / 2 ^ 52"

definition FLT_EPSILON :: real where
  "FLT_EPSILON = 1 / 2 ^ 23"

text \<open>The macros \<^verbatim>\<open>SIFT3D_MIN\<close> and \<^verbatim>\<open>SIFT3D_MAX\<close> come from a header that is not part
  of the sources; they are taken as the usual conditional expressions
  \<^verbatim>\<open>((a) < (b) ? (a) : (b))\<close> and \<^verbatim>\<open>((a) > (b) ? (a) : (b))\<close>.\<close>

definition SIFT3D_MIN :: "'a::linorder \<Rightarrow> 'a \<Rightarrow> 'a" where
  "SIFT3D_MIN a b = (if a < b then a else b)"

definition SIFT3D_MAX :: "'a::linorder \<Rightarrow> 'a \<Rightarrow> 'a" where
  "SIFT3D_MAX a b = (if a > b then a else b)"

text \<open>A C cast from a floating value to \<^verbatim>\<open>int\<close> truncates toward zero.\<close>

definition c_trunc :: "real \<Rightarrow> int" where
  "c_trunc r = (if 0 \<le> r then \<lfloor>r\<rfloor> else \<lceil>r\<rceil>)"

subsection \<open>Vectors and matrices\<close>

text \<open>A \<^verbatim>\<open>Cvec\<close> and the vector macros \<^verbatim>\<open>SIFT3D_CVEC_DOT\<close>, \<^verbatim>\<open>SIFT3D_CVEC_L2_NORM_SQ\<close>,
  \<^verbatim>\<open>SIFT3D_CVEC_L2_NORM\<close>, \<^verbatim>\<open>SIFT3D_CVEC_OP\<close> (with \<^verbatim>\<open>+\<close>), \<^verbatim>\<open>SIFT3D_CVEC_SCALE\<close> and
  \<^verbatim>\<open>SIFT3D_CVEC_CROSS\<close>. The macros come from a header that is not part of the
  sources; they are the operations their names say.\<close>

record Cvec =
  cv_x :: real
  cv_y :: real
  cv_z :: real

definition CVEC_DOT :: "Cvec \<Rightarrow> Cvec \<Rightarrow> real" where
  "CVEC_DOT a b = cv_x a * cv_x b + cv_y a * cv_y b + cv_z a * cv_z b"

definition CVEC_L2_NORM_SQ :: "Cvec \<Rightarrow> real" where
  "CVEC_L2_NORM_SQ a = CVEC_DOT a a"

definition CVEC_L2_NORM :: "Cvec \<Rightarrow> real" where
  "CVEC_L2_NORM a = sqrt (CVEC_L2_NORM_SQ a)"

definition CVEC_PLUS :: "Cvec \<Rightarrow> Cvec \<Rightarrow> Cvec" where
  "CVEC_PLUS a b = \<lparr>cv_x = cv_x a + cv_x b, cv_y = cv_y a + cv_y b, cv_z = cv_z a + cv_z b\<rparr>"

definition CVEC_SCALE :: "Cvec \<Rightarrow> real \<Rightarrow> Cvec" where
  "CVEC_SCALE a c = \<lparr>cv_x = cv_x a * c, cv_y = cv_y a * c, cv_z = cv_z a * c\<rparr>"

definition CVEC_CROSS :: "Cvec \<Rightarrow> Cvec \<Rightarrow> Cvec" where
  "CVEC_CROSS a b =
     \<lparr>cv_x = cv_y a * cv_z b - cv_z a * cv_y b,
      cv_y = cv_z a * cv_x b - cv_x a * cv_z b,
      cv_z = cv_x a * cv_y b - cv_y a * cv_x b\<rparr>"

text \<open>A \<^verbatim>\<open>Mat_rm\<close> of fixed shape, as a function of row and column.\<close>

type_synonym Mat = "nat \<Rightarrow> nat \<Rightarrow> real"

definition mat_add :: "Mat \<Rightarrow> nat \<Rightarrow> nat \<Rightarrow> real \<Rightarrow> Mat" where
  "mat_add A i j v = A(i := (A i)(j := A i j + v))"

definition mat_set :: "Mat \<Rightarrow> nat \<Rightarrow> nat \<Rightarrow> real \<Rightarrow> Mat" where
  "mat_set A i j v = A(i := (A i)(j := v))"

text \<open>A column of a matrix as a vector, and back.\<close>

definition mat_col :: "Mat \<Rightarrow> nat \<Rightarrow> Cvec" where
  "mat_col Q j = \<lparr>cv_x = Q 0 j, cv_y = Q 1 j, cv_z = Q 2 j\<rparr>"

definition set_col :: "Mat \<Rightarrow> nat \<Rightarrow> Cvec \<Rightarrow> Mat" where
  "set_col R j v = mat_set (mat_set (mat_set R 0 j (cv_x v)) 1 j (cv_y v)) 2 j (cv_z v)"

text \<open>\<^verbatim>\<open>SIFT3D_CVEC_OP\<close> with \<^verbatim>\<open>-\<close>, and \<^verbatim>\<open>SIFT3D_MUL_MAT_RM_CVEC\<close>, the product of a 3 x 3
  matrix and a vector (both from the missing header).\<close>

definition CVEC_MINUS :: "Cvec \<Rightarrow> Cvec \<Rightarrow> Cvec" where
  "CVEC_MINUS a b = \<lparr>cv_x = cv_x a - cv_x b, cv_y = cv_y a - cv_y b, cv_z = cv_z a - cv_z b\<rparr>"

definition MUL_MAT_RM_CVEC :: "Mat \<Rightarrow> Cvec \<Rightarrow> Cvec" where
  "MUL_MAT_RM_CVEC M v =
     \<lparr>cv_x = M 0 0 * cv_x v + M 0 1 * cv_y v + M 0 2 * cv_z v,
      cv_y = M 1 0 * cv_x v + M 1 1 * cv_y v + M 1 2 * cv_z v,
      cv_z = M 2 0 * cv_x v + M 2 1 * cv_y v + M 2 2 * cv_z v\<rparr>"

subsection \<open>Images and pyramids\<close>

text \<open>An \<^verbatim>\<open>Image\<close>: its dimensions, its scale attribute \<^verbatim>\<open>s\<close> and its voxels
  (channel 0), read by \<^verbatim>\<open>SIFT3D_IM_GET_VOX\<close>.\<close>

record Image =
  im_nx :: int
  im_ny :: int
  im_nz :: int
  im_s :: real
  im_vox :: "int \<Rightarrow> int \<Rightarrow> int \<Rightarrow> real"

text \<open>A \<^verbatim>\<open>Pyramid\<close>: the index bounds and the levels, addressed by octave and level as
  \<^verbatim>\<open>SIFT3D_PYR_IM_GET\<close> does.\<close>

record Pyramid =
  first_octave :: int
  last_octave :: int
  num_octaves :: int
  first_level :: int
  last_level :: int
  num_levels :: int
  num_kp_levels :: int
  levels :: "int \<Rightarrow> int \<Rightarrow> Image"

subsection \<open>The icosahedral mesh: \<^verbatim>\<open>init_geometry\<close> (lines 190--298)\<close>

text \<open>The constant \<^verbatim>\<open>gr\<close> of line 65 and the tolerance \<^verbatim>\<open>bary_eps\<close> of line 57.\<close>

definition gr :: real where
  "gr = 16180339887 / 10 ^ 10"

definition bary_eps :: real where
  "bary_eps = FLT_EPSILON * 10"

text \<open>The tables \<^verbatim>\<open>vert\<close> and \<^verbatim>\<open>faces\<close> of lines 200--233.\<close>

definition vert :: "Cvec list" where
  "vert =
     [\<lparr>cv_x = 0, cv_y = 1, cv_z = gr\<rparr>,
      \<lparr>cv_x = 0, cv_y = -1, cv_z = gr\<rparr>,
      \<lparr>cv_x = 0, cv_y = 1, cv_z = - gr\<rparr>,
      \<lparr>cv_x = 0, cv_y = -1, cv_z = - gr\<rparr>,
      \<lparr>cv_x = 1, cv_y = gr, cv_z = 0\<rparr>,
      \<lparr>cv_x = -1, cv_y = gr, cv_z = 0\<rparr>,
      \<lparr>cv_x = 1, cv_y = - gr, cv_z = 0\<rparr>,
      \<lparr>cv_x = -1, cv_y = - gr, cv_z = 0\<rparr>,
      \<lparr>cv_x = gr, cv_y = 0, cv_z = 1\<rparr>,
      \<lparr>cv_x = - gr, cv_y = 0, cv_z = 1\<rparr>,
      \<lparr>cv_x = gr, cv_y = 0, cv_z = -1\<rparr>,
      \<lparr>cv_x = - gr, cv_y = 0, cv_z = -1\<rparr>]"

definition faces :: "(nat \<times> nat \<times> nat) list" where
  "faces =
     [(0, 1, 8), (0, 8, 4), (0, 4, 5), (0, 5, 9), (0, 9, 1),
      (1, 6, 8), (8, 6, 10), (8, 10, 4), (4, 10, 2), (4, 2, 5),
      (5, 2, 11), (5, 11, 9), (9, 11, 7), (9, 7, 1), (1, 7, 6),
      (3, 6, 7), (3, 7, 11), (3, 11, 2), (3, 2, 10), (3, 10, 6)]"

text \<open>A \<^verbatim>\<open>Tri\<close>: three vertices and their three bin indices.\<close>

record Tri =
  tri_v0 :: Cvec
  tri_v1 :: Cvec
  tri_v2 :: Cvec
  tri_idx :: "nat \<times> nat \<times> nat"

text \<open>Lines 252--268: a vertex of the table, scaled to unit length.\<close>

definition unit_vert :: "nat \<Rightarrow> Cvec" where
  "unit_vert i = (let v = vert ! i; mag = CVEC_L2_NORM v in CVEC_SCALE v (1 / mag))"

text \<open>Lines 248--286 for one face: the three vertices, the normal
  \<open>(v\<^sub>2 - v\<^sub>1) \<times> (v\<^sub>1 - v\<^sub>0)\<close> and the swap of the first two vertices when the normal points
  to the origin. The indices \<^verbatim>\<open>idx\<close> are not swapped. The assertions of lines 266 and
  287--294 are checks of a debug build and are not part of the model.\<close>

definition make_tri :: "nat \<times> nat \<times> nat \<Rightarrow> Tri" where
  "make_tri f =
     (case f of (i0, i1, i2) \<Rightarrow>
        (let v0 = unit_vert i0; v1 = unit_vert i1; v2 = unit_vert i2;
             temp1 = CVEC_MINUS v2 v1;
             temp2 = CVEC_MINUS v1 v0;
             n = CVEC_CROSS temp1 temp2
         in if CVEC_DOT n v0 < 0
            then \<lparr>tri_v0 = v1, tri_v1 = v0, tri_v2 = v2, tri_idx = (i0, i1, i2)\<rparr>
            else \<lparr>tri_v0 = v0, tri_v1 = v1, tri_v2 = v2, tri_idx = (i0, i1, i2)\<rparr>))"

definition icos_mesh :: "Tri list" where
  "icos_mesh = map make_tri faces"

subsection \<open>The SIFT3D struct\<close>

text \<open>The fields of the \<^verbatim>\<open>SIFT3D\<close> struct that the functions below read or write, and
  the lines written to \<^verbatim>\<open>stderr\<close>. A diagnostic is kept as its format string and the
  value printed by \<^verbatim>\<open>%f\<close>.\<close>

record SIFT3D =
  peak_thresh :: real
  corner_thresh :: real
  gpyr :: Pyramid
  dog :: Pyramid
  im :: "Image option"
  mesh :: "Tri list"
  stderr :: "(string \<times> real) list"

subsection \<open>\<^verbatim>\<open>set_peak_thresh_SIFT3D\<close> (lines 424--435)\<close>

definition peak_thresh_msg :: string where
  "peak_thresh_msg =
     ''SIFT3D peak_thresh must be greater than 0. Provided: %f '' @ [CHR 0x0A]"

definition set_peak_thresh_SIFT3D :: "SIFT3D \<Rightarrow> real \<Rightarrow> retcode \<times> SIFT3D" where
  "set_peak_thresh_SIFT3D sift3d pt =
     (if pt \<le> 0
      then (SIFT3D_FAILURE, sift3d\<lparr>stderr := stderr sift3d @ [(peak_thresh_msg, pt)]\<rparr>)
      else (SIFT3D_SUCCESS, sift3d\<lparr>peak_thresh := pt\<rparr>))"

subsection \<open>\<^verbatim>\<open>resize_SIFT3D\<close> (lines 869--906)\<close>

text \<open>The octave computation of lines 880--890. \<^verbatim>\<open>(int) log2((double) m)\<close> is defined
  only for a positive \<^verbatim>\<open>m\<close>: the logarithm of zero is minus infinity and that of a
  negative number is NaN, and converting either to \<^verbatim>\<open>int\<close> is undefined, which the
  model reports as \<open>None\<close>. The result is the pair \<^verbatim>\<open>(last_octave, num_octaves)\<close>.\<close>

definition resize_octaves :: "Image \<Rightarrow> int \<Rightarrow> int \<Rightarrow> (int \<times> int) option" where
  "resize_octaves img first_oct num_oct =
     (if num_oct = -1 then
        (let m = SIFT3D_MIN (SIFT3D_MIN (im_nx img) (im_ny img)) (im_nz img) in
         if m \<le> 0 then None
         else
           (let last_oct = c_trunc (log 2 (real_of_int m)) - 3 - first_oct;
                num_oct' = last_oct - first_oct + 1
            in Some (last_oct, num_oct')))
      else Some (num_oct + first_oct - 1, num_oct))"

text \<open>\<^verbatim>\<open>resize_Pyramid\<close> and \<^verbatim>\<open>make_gss\<close> belong to the image library, which is not part
  of the sources; they are parameters here. Each returns its result code and the
  pyramid it leaves behind (\<^verbatim>\<open>make_gss\<close> only reads the pyramid and writes the filter
  set, which the model does not hold). The outcome \<open>None\<close> is the undefined conversion
  described above.\<close>

definition resize_SIFT3D ::
  "(Pyramid \<Rightarrow> Image \<Rightarrow> retcode \<times> Pyramid) \<Rightarrow> (Pyramid \<Rightarrow> retcode) \<Rightarrow> SIFT3D
     \<Rightarrow> (retcode \<times> SIFT3D) option" where
  "resize_SIFT3D resize_Pyramid make_gss sift3d =
     (case im sift3d of
        None \<Rightarrow> Some (SIFT3D_SUCCESS, sift3d)
      | Some img \<Rightarrow>
          (case resize_octaves img (first_octave (gpyr sift3d)) (num_octaves (gpyr sift3d)) of
             None \<Rightarrow> None
           | Some (last_oct, num_oct) \<Rightarrow>
               (let g1 = (gpyr sift3d)\<lparr>last_octave := last_oct, num_octaves := num_oct\<rparr>;
                    d1 = (dog sift3d)\<lparr>last_octave := last_oct, num_octaves := num_oct\<rparr>;
                    (rg, g2) = resize_Pyramid g1 img
                in if rg \<noteq> SIFT3D_SUCCESS
                   then Some (SIFT3D_FAILURE, sift3d\<lparr>gpyr := g2, dog := d1\<rparr>)
                   else
                     (let (rd, d2) = resize_Pyramid d1 img
                      in if rd \<noteq> SIFT3D_SUCCESS
                         then Some (SIFT3D_FAILURE, sift3d\<lparr>gpyr := g2, dog := d2\<rparr>)
                         else if make_gss g2 \<noteq> SIFT3D_SUCCESS
                         then Some (SIFT3D_FAILURE, sift3d\<lparr>gpyr := g2, dog := d2\<rparr>)
                         else Some (SIFT3D_SUCCESS, sift3d\<lparr>gpyr := g2, dog := d2\<rparr>)))))"

subsection \<open>\<^verbatim>\<open>SIFT3D_nn_match\<close> (lines 2483--2580)\<close>

text \<open>The initial value \<^verbatim>\<open>1e30f\<close> of \<^verbatim>\<open>ssd_best\<close> and \<^verbatim>\<open>ssd_nearest\<close> (line 2525).\<close>

definition SSD_INIT :: real where
  "SSD_INIT = 10 ^ 30"

text \<open>Modelled from the spec: \<^verbatim>\<open>DESC_NUM_TOTAL_HIST\<close> and \<^verbatim>\<open>HIST_NUMEL\<close> are defined in a header
  that is not part of the sources; a descriptor is a grid of
  \<open>NHIST_PER_DIM\<^sup>3 = 4\<^sup>3 = 64\<close> histograms, and an icosahedral histogram has 12 bins.\<close>

definition DESC_NUM_TOTAL_HIST :: nat where
  "DESC_NUM_TOTAL_HIST = 64"

definition HIST_NUMEL :: nat where
  "HIST_NUMEL = 12"

text \<open>A \<^verbatim>\<open>SIFT3D_Descriptor\<close>: the histogram array \<^verbatim>\<open>hists[k].bins[a]\<close>, of fixed size, as a function of the two indices, and the location.\<close>

record SIFT3D_Descriptor =
  hists :: "nat \<Rightarrow> nat \<Rightarrow> real"
  desc_xd :: real
  desc_yd :: real
  desc_zd :: real
  desc_sd :: real

text \<open>The sum of squared bin differences, lines 2531--2543.\<close>

definition desc_ssd :: "SIFT3D_Descriptor \<Rightarrow> SIFT3D_Descriptor \<Rightarrow> real" where
  "desc_ssd desc1 desc2 =
     fold (\<lambda>k ssd.
             fold (\<lambda>a ssd. ssd + (hists desc1 k a - hists desc2 k a) * (hists desc1 k a - hists desc2 k a))
                  [0..<HIST_NUMEL] ssd)
          [0..<DESC_NUM_TOTAL_HIST] 0"

text \<open>One pass of the inner loop over \<^verbatim>\<open>d2\<close> (lines 2527--2552); the state is \<^verbatim>\<open>(ssd_best, ssd_nearest, desc_best)\<close>, the pointer \<^verbatim>\<open>desc_best\<close> being the index it points to, or \<open>None\<close> for \<^verbatim>\<open>NULL\<close>.\<close>

definition nn_step ::
  "SIFT3D_Descriptor \<Rightarrow> SIFT3D_Descriptor list \<Rightarrow> nat \<Rightarrow> real \<times> real \<times> nat option
     \<Rightarrow> real \<times> real \<times> nat option" where
  "nn_step desc1 d2 j st =
     (case st of (ssd_best, ssd_nearest, desc_best) \<Rightarrow>
        (let ssd = desc_ssd desc1 (d2 ! j) in
         if ssd < ssd_best then (ssd, ssd_best, Some j)
         else (ssd_best, SIFT3D_MIN ssd_nearest ssd, desc_best)))"

definition nn_search ::
  "SIFT3D_Descriptor \<Rightarrow> SIFT3D_Descriptor list \<Rightarrow> real \<times> real \<times> nat option" where
  "nn_search desc1 d2 = fold (nn_step desc1 d2) [0..<length d2] (SSD_INIT, SSD_INIT, None)"

text \<open>The test \<^verbatim>\<open>a / b > c\<close> on finite operands: a division by zero yields an infinity with the sign of \<open>a\<close>, or NaN when \<open>a\<close> is zero too, and NaN compares false.\<close>

definition ieee_div_gt :: "real \<Rightarrow> real \<Rightarrow> real \<Rightarrow> bool" where
  "ieee_div_gt a b c =
     (if b = 0 then 0 < a else a / b > c)"

text \<open>What can go wrong in \<^verbatim>\<open>SIFT3D_nn_match\<close>: the allocation fails (the function returns \<^verbatim>\<open>SIFT3D_FAILURE\<close>), or the ratio test passes while \<^verbatim>\<open>desc_best\<close> is still \<^verbatim>\<open>NULL\<close>, so that line 2558 subtracts pointers that do not point into one array, which is undefined.\<close>

datatype nn_error = OutOfMemory | NullBest

text \<open>Lines 2554--2574 for one descriptor of \<^verbatim>\<open>d1\<close>: \<open>-1\<close> when the ratio test rejects, the index of the best descriptor of \<^verbatim>\<open>d2\<close> otherwise.\<close>

definition nn_match_one ::
  "SIFT3D_Descriptor \<Rightarrow> SIFT3D_Descriptor list \<Rightarrow> real \<Rightarrow> nn_error + int" where
  "nn_match_one desc1 d2 nn_thresh =
     (case nn_search desc1 d2 of (ssd_best, ssd_nearest, desc_best) \<Rightarrow>
        if ieee_div_gt ssd_best ssd_nearest (nn_thresh * nn_thresh) then Inr (-1)
        else (case desc_best of None \<Rightarrow> Inl NullBest | Some j \<Rightarrow> Inr (int j)))"

text \<open>The outer loop (lines 2520--2577) writes \<^verbatim>\<open>matches[i]\<close>; the array starts as all \<open>-1\<close> (lines 2513--2517). \<^verbatim>\<open>mem_ok\<close> says whether the two allocations of line 2507 succeed.\<close>

definition nn_match_step ::
  "SIFT3D_Descriptor list \<Rightarrow> SIFT3D_Descriptor list \<Rightarrow> real \<Rightarrow> nat \<Rightarrow> nn_error + int list
     \<Rightarrow> nn_error + int list" where
  "nn_match_step d1 d2 nn_thresh i acc =
     (case acc of
        Inl e \<Rightarrow> Inl e
      | Inr matches \<Rightarrow>
          (case nn_match_one (d1 ! i) d2 nn_thresh of
             Inl e \<Rightarrow> Inl e
           | Inr m \<Rightarrow> Inr (matches[i := m])))"

definition SIFT3D_nn_match ::
  "bool \<Rightarrow> SIFT3D_Descriptor list \<Rightarrow> SIFT3D_Descriptor list \<Rightarrow> real \<Rightarrow> nn_error + int list" where
  "SIFT3D_nn_match mem_ok d1 d2 nn_thresh =
     (if \<not> mem_ok then Inl OutOfMemory
      else fold (nn_match_step d1 d2 nn_thresh) [0..<length d1]
                (Inr (replicate (length d1) (-1))))"

text \<open>For the statement of the ratio test: the squared distances from one descriptor to all of \<^verbatim>\<open>d2\<close>, in ascending order, padded with the initial value twice. Its first two entries are the best and the second-best distance. \<open>track_step\<close> and \<open>best_ok\<close> are the loop invariant's ingredients.\<close>

definition ssd_sorted :: "SIFT3D_Descriptor \<Rightarrow> SIFT3D_Descriptor list \<Rightarrow> real list" where
  "ssd_sorted desc1 d2 = sort (map (desc_ssd desc1) d2 @ [SSD_INIT, SSD_INIT])"

definition track_step :: "real \<Rightarrow> real \<times> real \<Rightarrow> real \<times> real" where
  "track_step x st = (case st of (b, n) \<Rightarrow> if x < b then (x, b) else (b, SIFT3D_MIN n x))"

definition best_ok :: "SIFT3D_Descriptor \<Rightarrow> SIFT3D_Descriptor list \<Rightarrow> real \<times> real \<times> nat option \<Rightarrow> bool" where
  "best_ok desc1 d2 st =
     (case st of (b, n, db) \<Rightarrow>
        (case db of None \<Rightarrow> b = SSD_INIT
         | Some j \<Rightarrow> j < length d2 \<and> desc_ssd desc1 (d2 ! j) = b \<and> b < SSD_INIT))"

subsection \<open>\<^verbatim>\<open>refine_keypoints\<close> (lines 1111--1296)\<close>

text \<open>A \<^verbatim>\<open>Keypoint\<close>. Detection and refinement write all fields but the orientation
  matrix \<^verbatim>\<open>R\<close>, which is assigned later.\<close>

record Keypoint =
  key_o :: int
  key_s :: int
  key_xi :: int
  key_yi :: int
  key_zi :: int
  key_xd :: real
  key_yd :: real
  key_zd :: real
  key_sd :: real
  key_sd_rel :: real
  key_R :: Mat





text \<open>Lines 1143--1145: \<^verbatim>\<open>cur->nx - 2 - DBL_EPSILON\<close> is a subtraction of doubles, of
  \<open>2\<^sup>-\<^sup>5\<^sup>2\<close> from the integer \<open>k = nx - 2\<close>, and its result is rounded to the nearest
  double, ties to even. The exact difference is a double for \<open>-1 \<le> k \<le> 2\<close> only. From
  \<open>k = 3\<close> on (and from \<open>k = -2\<close> down) the doubles next to \<open>k\<close> are at least \<open>2\<^sup>-\<^sup>5\<^sup>1\<close> away
  on the side of the difference, so that the difference rounds to \<open>k\<close> itself: by the
  tie rule at \<open>k = 3\<close>, \<open>4\<close> and \<open>-2\<close>, and as the nearer double beyond.\<close>

definition sub_DBL_EPSILON :: "int \<Rightarrow> real" where
  "sub_DBL_EPSILON k =
     (if -1 \<le> k \<and> k \<le> 2 then real_of_int k - DBL_EPSILON else real_of_int k)"







definition key_interior :: "Pyramid \<Rightarrow> Keypoint \<Rightarrow> bool" where
  "key_interior dg key =
     (let cur = levels dg (key_o key) (key_s key) in
      1 \<le> key_xi key \<and> key_xi key \<le> im_nx cur - 2 \<and>
      1 \<le> key_yi key \<and> key_yi key \<le> im_ny cur - 2 \<and>
      1 \<le> key_zi key \<and> key_zi key \<le> im_nz cur - 2)"



subsection \<open>\<^verbatim>\<open>detect_extrema\<close> (lines 984--1108)\<close>

text \<open>The macro \<^verbatim>\<open>CMP_NEIGHBORS\<close> as it is defined without \<^verbatim>\<open>CUBOID_EXTREMA\<close> (lines
  1042--1050; the option is commented out at line 29): the six face neighbours of
  the voxel and, unless \<^verbatim>\<open>IGNORESELF\<close>, the voxel itself.\<close>

definition CMP_NEIGHBORS ::
  "Image \<Rightarrow> int \<Rightarrow> int \<Rightarrow> int \<Rightarrow> (real \<Rightarrow> real \<Rightarrow> bool) \<Rightarrow> bool \<Rightarrow> real \<Rightarrow> bool" where
  "CMP_NEIGHBORS img x y z CMP IGNORESELF v =
     (CMP v (im_vox img (x + 1) y z) \<and>
      CMP v (im_vox img (x - 1) y z) \<and>
      CMP v (im_vox img x (y + 1) z) \<and>
      CMP v (im_vox img x (y - 1) z) \<and>
      CMP v (im_vox img x y (z - 1)) \<and>
      CMP v (im_vox img x y (z + 1)) \<and>
      (CMP v (im_vox img x y z) \<or> IGNORESELF))"

text \<open>Modelled from the spec: the loop macros \<^verbatim>\<open>SIFT3D_IM_LOOP_START\<close> and
  \<^verbatim>\<open>SIFT3D_IM_LOOP_LIMITED_START\<close> come from a header that is not part of the sources;
  they are a raster scan of the voxels between inclusive bounds, \<open>x\<close> running fastest.\<close>

definition IM_LOOP_LIMITED :: "int \<Rightarrow> int \<Rightarrow> int \<Rightarrow> int \<Rightarrow> int \<Rightarrow> int \<Rightarrow> (int \<times> int \<times> int) list" where
  "IM_LOOP_LIMITED x_start x_end y_start y_end z_start z_end =
     concat (map (\<lambda>z. concat (map (\<lambda>y. map (\<lambda>x. (x, y, z)) [x_start..x_end]) [y_start..y_end]))
                 [z_start..z_end])"

definition IM_LOOP :: "Image \<Rightarrow> (int \<times> int \<times> int) list" where
  "IM_LOOP img = IM_LOOP_LIMITED 0 (im_nx img - 1) 0 (im_ny img - 1) 0 (im_nz img - 1)"

text \<open>Lines 1061--1066: the largest absolute DoG value of the level.\<close>

definition level_dogmax :: "Image \<Rightarrow> real" where
  "level_dogmax cur =
     fold (\<lambda>(x, y, z) dogmax. SIFT3D_MAX dogmax \<bar>im_vox cur x y z\<bar>) (IM_LOOP cur) 0"

text \<open>The condition of lines 1081--1089, for the adjusted threshold \<open>pk\<close>.\<close>

definition extremum_test :: "real \<Rightarrow> Image \<Rightarrow> Image \<Rightarrow> Image \<Rightarrow> int \<Rightarrow> int \<Rightarrow> int \<Rightarrow> bool" where
  "extremum_test pk prev cur next x y z =
     (let pcur = im_vox cur x y z in
      (pcur > pk \<or> pcur < - pk) \<and>
      ((CMP_NEIGHBORS prev x y z (>) False pcur \<and>
        CMP_NEIGHBORS cur x y z (>) True pcur \<and>
        CMP_NEIGHBORS next x y z (>) False pcur) \<or>
       (CMP_NEIGHBORS prev x y z (<) False pcur \<and>
        CMP_NEIGHBORS cur x y z (<) True pcur \<and>
        CMP_NEIGHBORS next x y z (<) False pcur)))"

text \<open>Lines 1092--1100 append a candidate to the store: \<^verbatim>\<open>SIFT3D_RESIZE_KP_STORE\<close>
  (from the missing header; the allocation is taken to succeed) resizes the buffer to
  \<^verbatim>\<open>num\<close> entries, and the last one receives the pyramid indices and the voxel. The
  other fields of the new entry are not written here; the model sets them to zero.
  The store is its buffer, whose length is the store's count.\<close>

definition candidate :: "int \<Rightarrow> int \<Rightarrow> int \<Rightarrow> int \<Rightarrow> int \<Rightarrow> Keypoint" where
  "candidate oc s x y z =
     \<lparr>key_o = oc, key_s = s, key_xi = x, key_yi = y, key_zi = z, key_xd = 0, key_yd = 0,
      key_zd = 0, key_sd = 0, key_sd_rel = 0, key_R = (\<lambda>i j. 0)\<rparr>"

record Keypoint_store =
  kp_buf :: "Keypoint list"
  kp_nx :: int
  kp_ny :: int
  kp_nz :: int

definition add_candidate :: "Keypoint \<Rightarrow> nat \<times> Keypoint list \<Rightarrow> nat \<times> Keypoint list" where
  "add_candidate key st = (case st of (num, buf) \<Rightarrow> (num + 1, take num buf @ [key]))"

text \<open>One level of the pyramid loop (lines 1056--1103).\<close>

definition detect_level ::
  "real \<Rightarrow> Pyramid \<Rightarrow> int \<Rightarrow> int \<Rightarrow> nat \<times> Keypoint list \<Rightarrow> nat \<times> Keypoint list" where
  "detect_level pt dg oc s st =
     (let prev = levels dg oc (s - 1);
          cur = levels dg oc s;
          next = levels dg oc (s + 1);
          dogmax = level_dogmax cur;
          pk = pt * dogmax
      in fold (\<lambda>(x, y, z) st.
                 if extremum_test pk prev cur next x y z
                 then add_candidate (candidate oc s x y z) st else st)
              (IM_LOOP_LIMITED 1 (im_nx cur - 2) 1 (im_ny cur - 2) 1 (im_nz cur - 2)) st)"

text \<open>The whole function. The diagnostic of line 1000 goes to \<^verbatim>\<open>stdout\<close>, which the
  model does not hold.\<close>

definition detect_extrema :: "SIFT3D \<Rightarrow> Keypoint_store \<Rightarrow> retcode \<times> Keypoint_store" where
  "detect_extrema sift3d kp =
     (let dg = dog sift3d;
          o_start = first_octave dg;
          o_end = last_octave dg;
          s_start = first_level dg + 1;
          s_end = last_level dg - 1
      in if num_levels dg < 3 then (SIFT3D_FAILURE, kp)
         else
           (let cur = levels dg o_start s_start;
                kp1 = kp\<lparr>kp_nx := im_nx cur, kp_ny := im_ny cur, kp_nz := im_nz cur\<rparr>;
                (num, buf) =
                  fold (\<lambda>oc st. fold (\<lambda>s st. detect_level (peak_thresh sift3d) dg oc s st)
                                     [s_start..s_end] st)
                       [o_start..o_end] (0, kp_buf kp1)
            in (SIFT3D_SUCCESS, kp1\<lparr>kp_buf := buf\<rparr>)))"

text \<open>For the statements about detection. \<open>spec_extremum\<close> follows the words of the
  specification: the six face neighbours in the voxel's own level and the voxels at
  \<open>(x \<plusminus> {0,1}, y \<plusminus> {0,1}, z \<plusminus> {0,1})\<close> in the two neighbouring levels. \<open>axis_extremum\<close> is
  the comparison the code makes: in each neighbouring level only the voxel at the
  same position and its six face neighbours. \<open>grow\<close> and \<open>level_candidates\<close> describe
  what the loops add to the store.\<close>

definition face_offsets :: "(int \<times> int \<times> int) list" where
  "face_offsets = [(1, 0, 0), (-1, 0, 0), (0, 1, 0), (0, -1, 0), (0, 0, -1), (0, 0, 1)]"

definition cube_offsets :: "(int \<times> int \<times> int) list" where
  "cube_offsets = concat (map (\<lambda>dz. concat (map (\<lambda>dy. map (\<lambda>dx. (dx, dy, dz)) [-1, 0, 1]) [-1, 0, 1])) [-1, 0, 1])"

definition beats :: "(real \<Rightarrow> real \<Rightarrow> bool) \<Rightarrow> real \<Rightarrow> Image \<Rightarrow> int \<Rightarrow> int \<Rightarrow> int \<Rightarrow> (int \<times> int \<times> int) list \<Rightarrow> bool" where
  "beats CMP p img x y z offs = list_all (\<lambda>(dx, dy, dz). CMP p (im_vox img (x + dx) (y + dy) (z + dz))) offs"

definition spec_extremum :: "real \<Rightarrow> Image \<Rightarrow> Image \<Rightarrow> Image \<Rightarrow> int \<Rightarrow> int \<Rightarrow> int \<Rightarrow> bool" where
  "spec_extremum pk prev cur next x y z =
     (let p = im_vox cur x y z in
      \<bar>p\<bar> > pk \<and>
      ((beats (>) p cur x y z face_offsets \<and> beats (>) p prev x y z cube_offsets \<and>
        beats (>) p next x y z cube_offsets) \<or>
       (beats (<) p cur x y z face_offsets \<and> beats (<) p prev x y z cube_offsets \<and>
        beats (<) p next x y z cube_offsets)))"

definition axis_offsets :: "(int \<times> int \<times> int) list" where
  "axis_offsets = (0, 0, 0) # face_offsets"

definition axis_extremum :: "real \<Rightarrow> Image \<Rightarrow> Image \<Rightarrow> Image \<Rightarrow> int \<Rightarrow> int \<Rightarrow> int \<Rightarrow> bool" where
  "axis_extremum pk prev cur next x y z =
     (let p = im_vox cur x y z in
      \<bar>p\<bar> > pk \<and>
      ((beats (>) p cur x y z face_offsets \<and> beats (>) p prev x y z axis_offsets \<and>
        beats (>) p next x y z axis_offsets) \<or>
       (beats (<) p cur x y z face_offsets \<and> beats (<) p prev x y z axis_offsets \<and>
        beats (<) p next x y z axis_offsets)))"

definition grow :: "Keypoint list \<Rightarrow> nat \<times> Keypoint list \<Rightarrow> nat \<times> Keypoint list" where
  "grow cs st =
     (case st of (num, buf) \<Rightarrow> (num + length cs, if cs = [] then buf else take num buf @ cs))"

definition level_candidates :: "real \<Rightarrow> Pyramid \<Rightarrow> int \<Rightarrow> int \<Rightarrow> Keypoint list" where
  "level_candidates pt dg oc s =
     (let prev = levels dg oc (s - 1);
          cur = levels dg oc s;
          next = levels dg oc (s + 1);
          pk = pt * level_dogmax cur
      in map (\<lambda>(x, y, z). candidate oc s x y z)
             (filter (\<lambda>(x, y, z). extremum_test pk prev cur next x y z)
                (IM_LOOP_LIMITED 1 (im_nx cur - 2) 1 (im_ny cur - 2) 1 (im_nz cur - 2))))"

subsection \<open>\<^verbatim>\<open>build_dog\<close> (lines 962--981)\<close>

text \<open>Modelled from the spec: \<^verbatim>\<open>im_subtract\<close> belongs to the image library, which is not
  part of the sources. The specification's interface (section 6) lists it as
  \<^verbatim>\<open>subtract(a, b, dst)\<close>, the voxel-wise difference, and does not say which operand is
  taken from which. Section 4.3 gives the result of the one call that \<^verbatim>\<open>build_dog\<close>
  makes, \<^verbatim>\<open>im_subtract(gpyr[o][l], gpyr[o][l+1], dog[o][l])\<close>, as
  \<open>gpyr[o][l+1] - gpyr[o][l]\<close>, and names one failure, that memory cannot be allocated.
  So \<^verbatim>\<open>im_subtract(src1, src2, dst)\<close> stores \<open>src2 - src1\<close> in \<open>dst\<close> voxel by voxel, and
  fails exactly when the allocation does (\<open>mem_ok\<close> is false); a failed call leaves
  \<open>dst\<close> as it was. The order of the operands rests on the specification alone.\<close>

definition im_subtract :: "bool \<Rightarrow> Image \<Rightarrow> Image \<Rightarrow> Image \<Rightarrow> retcode \<times> Image" where
  "im_subtract mem_ok src1 src2 dst =
     (if \<not> mem_ok then (SIFT3D_FAILURE, dst)
      else (SIFT3D_SUCCESS,
            dst\<lparr>im_vox := (\<lambda>x y z. im_vox src2 x y z - im_vox src1 x y z)\<rparr>))"

text \<open>Modelled from the spec: \<^verbatim>\<open>SIFT3D_PYR_LOOP_START\<close> is a macro of the missing header;
  it visits every octave from \<^verbatim>\<open>first_octave\<close> to \<^verbatim>\<open>last_octave\<close> and, within each, every
  level from \<^verbatim>\<open>first_level\<close> to \<^verbatim>\<open>last_level\<close>.\<close>

definition PYR_LOOP :: "Pyramid \<Rightarrow> (int \<times> int) list" where
  "PYR_LOOP pyr =
     concat (map (\<lambda>oc. map (\<lambda>s. (oc, s)) [first_level pyr..last_level pyr])
                 [first_octave pyr..last_octave pyr])"

text \<open>The loop body, lines 971--977, with the early return on failure. \<open>alloc_ok oc s\<close>
  says whether the allocation made for level \<open>s\<close> of octave \<open>oc\<close> succeeds. The call
  passes \<^verbatim>\<open>gpyr_cur\<close> first and \<^verbatim>\<open>gpyr_next\<close> second.\<close>

fun build_dog_loop ::
  "(int \<Rightarrow> int \<Rightarrow> bool) \<Rightarrow> Pyramid \<Rightarrow> (int \<times> int) list \<Rightarrow> (int \<Rightarrow> int \<Rightarrow> Image)
     \<Rightarrow> retcode \<times> (int \<Rightarrow> int \<Rightarrow> Image)" where
  "build_dog_loop alloc_ok gp [] lv = (SIFT3D_SUCCESS, lv)"
| "build_dog_loop alloc_ok gp ((oc, s) # rest) lv =
     (let gpyr_cur = levels gp oc s;
          gpyr_next = levels gp oc (s + 1);
          dog_level = lv oc s;
          (rc, d) = im_subtract (alloc_ok oc s) gpyr_cur gpyr_next dog_level;
          lv' = lv(oc := (lv oc)(s := d))
      in if rc \<noteq> SIFT3D_SUCCESS then (SIFT3D_FAILURE, lv')
         else build_dog_loop alloc_ok gp rest lv')"

definition build_dog :: "(int \<Rightarrow> int \<Rightarrow> bool) \<Rightarrow> SIFT3D \<Rightarrow> retcode \<times> SIFT3D" where
  "build_dog alloc_ok sift3d =
     (let (rc, lv) = build_dog_loop alloc_ok (gpyr sift3d) (PYR_LOOP (dog sift3d))
                       (levels (dog sift3d))
      in (rc, sift3d\<lparr>dog := (dog sift3d)\<lparr>levels := lv\<rparr>\<rparr>))"

subsection \<open>\<^verbatim>\<open>assign_eig_ori\<close> (lines 1343--1473)\<close>

text \<open>Modelled from the spec: \<^verbatim>\<open>SIFT3D_IM_GET_GRAD\<close> (a macro of the missing header) is
  the gradient by central differences at an interior voxel.\<close>

definition IM_GET_GRAD :: "Image \<Rightarrow> int \<Rightarrow> int \<Rightarrow> int \<Rightarrow> Cvec" where
  "IM_GET_GRAD img x y z =
     \<lparr>cv_x = 0.5 * (im_vox img (x + 1) y z - im_vox img (x - 1) y z),
      cv_y = 0.5 * (im_vox img x (y + 1) z - im_vox img x (y - 1) z),
      cv_z = 0.5 * (im_vox img x y (z + 1) - im_vox img x y (z - 1))\<rparr>"

text \<open>\<^verbatim>\<open>IM_LOOP_SPHERE_START\<close> (lines 110--124): the voxels the loop body is run for, in
  scan order, each with its displacement from the window centre and the squared
  distance.\<close>

definition IM_LOOP_SPHERE :: "Image \<Rightarrow> Cvec \<Rightarrow> real \<Rightarrow> ((int \<times> int \<times> int) \<times> Cvec \<times> real) list" where
  "IM_LOOP_SPHERE img vcenter rad =
     (let x_start = SIFT3D_MAX (c_trunc (cv_x vcenter) - c_trunc (rad + 0.5)) 1;
          x_end = SIFT3D_MIN (c_trunc (cv_x vcenter) + c_trunc (rad + 0.5)) (im_nx img - 2);
          y_start = SIFT3D_MAX (c_trunc (cv_y vcenter) - c_trunc (rad + 0.5)) 1;
          y_end = SIFT3D_MIN (c_trunc (cv_y vcenter) + c_trunc (rad + 0.5)) (im_ny img - 2);
          z_start = SIFT3D_MAX (c_trunc (cv_z vcenter) - c_trunc (rad + 0.5)) 1;
          z_end = SIFT3D_MIN (c_trunc (cv_z vcenter) + c_trunc (rad + 0.5)) (im_nz img - 2)
      in filter (\<lambda>(v, vdisp, sq_dist). \<not> sq_dist > rad * rad)
           (map (\<lambda>(x, y, z).
                   (let vdisp = \<lparr>cv_x = (real_of_int x + 0.5) - cv_x vcenter,
                                  cv_y = (real_of_int y + 0.5) - cv_y vcenter,
                                  cv_z = (real_of_int z + 0.5) - cv_z vcenter\<rparr>
                    in ((x, y, z), vdisp, CVEC_L2_NORM_SQ vdisp)))
                (IM_LOOP_LIMITED x_start x_end y_start y_end z_start z_end)))"

text \<open>The internal parameters of lines 55--59.\<close>

definition max_eig_ratio :: real where
  "max_eig_ratio = 0.90"

definition ori_grad_thresh :: real where
  "ori_grad_thresh = 1 / 10 ^ 10"

definition ori_rad_fctr :: real where
  "ori_rad_fctr = 3.0"

text \<open>The body of the window loop, lines 1367--1382. The state is the structure tensor
  \<^verbatim>\<open>A\<close>, the window gradient \<^verbatim>\<open>vd_win\<close> and the variable \<^verbatim>\<open>vd\<close>, which holds the
  gradient of the voxel visited last.\<close>

definition tensor_step ::
  "Image \<Rightarrow> real \<Rightarrow> (int \<times> int \<times> int) \<times> Cvec \<times> real \<Rightarrow> Mat \<times> Cvec \<times> Cvec \<Rightarrow> Mat \<times> Cvec \<times> Cvec" where
  "tensor_step img sigma it st =
     (case it of ((x, y, z), vdisp, sq_dist) \<Rightarrow>
      case st of (A, vd_win, vd_old) \<Rightarrow>
        (let weight = exp (- 0.5 * sq_dist / (sigma * sigma));
             vd = IM_GET_GRAD img x y z;
             A = mat_add A 0 0 (cv_x vd * cv_x vd * weight);
             A = mat_add A 0 1 (cv_x vd * cv_y vd * weight);
             A = mat_add A 0 2 (cv_x vd * cv_z vd * weight);
             A = mat_add A 1 1 (cv_y vd * cv_y vd * weight);
             A = mat_add A 1 2 (cv_y vd * cv_z vd * weight);
             A = mat_add A 2 2 (cv_z vd * cv_z vd * weight)
         in (A, CVEC_PLUS vd_win vd, vd)))"

text \<open>The test \<^verbatim>\<open>fabs(a / b) < c\<close> on finite operands: when \<open>b\<close> is zero the quotient is
  an infinity or NaN and the comparison is false.\<close>

definition ieee_div_abs_lt :: "real \<Rightarrow> real \<Rightarrow> real \<Rightarrow> bool" where
  "ieee_div_abs_lt a b c = (b \<noteq> 0 \<and> \<bar>a / b\<bar> < c)"

text \<open>Lines 1405--1409: the ratios of consecutive eigenvalues.\<close>

fun eig_stable :: "real list \<Rightarrow> bool" where
  "eig_stable (l0 # l1 # ls) =
     (if ieee_div_gt \<bar>l0\<bar> \<bar>l1\<bar> max_eig_ratio then False else eig_stable (l1 # ls))"
| "eig_stable ls = True"

text \<open>Lines 1412--1447, for the indices \<open>i\<close> still to do: the eigenvector \<^verbatim>\<open>vr\<close>, the
  projection \<^verbatim>\<open>d = SIFT3D_CVEC_DOT(&vd, &vr)\<close> and the corner test. The vector projected
  is \<^verbatim>\<open>vd\<close>, not \<^verbatim>\<open>vd_win\<close>.\<close>

fun sign_loop :: "real \<Rightarrow> Cvec \<Rightarrow> Mat \<Rightarrow> nat \<Rightarrow> nat list \<Rightarrow> Mat \<times> Cvec list \<Rightarrow> retcode \<times> Mat \<times> Cvec list" where
  "sign_loop thresh vd Q m [] st = (SIFT3D_SUCCESS, st)"
| "sign_loop thresh vd Q m (i # is) (R, v) =
     (let eig_idx = m - i - 1;
          vr = mat_col Q eig_idx;
          d = CVEC_DOT vd vr
      in if ieee_div_abs_lt d (CVEC_L2_NORM vr * CVEC_L2_NORM vd) thresh then (REJECT, R, v)
         else
           (let sgn = (if d > 0 then 1 else -1);
                vr = CVEC_SCALE vr sgn
            in sign_loop thresh vd Q m is (set_col R i vr, v @ [vr])))"

text \<open>The whole function. \<^verbatim>\<open>eigen_Mat_rm\<close> belongs to the linear-algebra library, which
  is not part of the sources: it is a parameter, returning the eigenvectors \<^verbatim>\<open>Q\<close> and the
  eigenvalues \<^verbatim>\<open>L\<close>, or \<open>None\<close> on failure. \<open>mem_ok\<close> says whether the three matrices of
  lines 1357--1359 can be allocated, and \<open>vd0\<close> is the indeterminate initial content of
  \<^verbatim>\<open>vd\<close>.\<close>

definition assign_eig_ori ::
  "bool \<Rightarrow> (Mat \<Rightarrow> (Mat \<times> real list) option) \<Rightarrow> Cvec \<Rightarrow> SIFT3D \<Rightarrow> Image \<Rightarrow> Cvec \<Rightarrow> real \<Rightarrow> Mat
     \<Rightarrow> retcode \<times> Mat" where
  "assign_eig_ori mem_ok eigen_Mat_rm vd0 sift3d img vcenter sigma R =
     (let win_radius = sigma * ori_rad_fctr in
      if \<not> mem_ok then (SIFT3D_FAILURE, R)
      else
        (let (A, vd_win, vd) =
               fold (tensor_step img sigma) (IM_LOOP_SPHERE img vcenter win_radius)
                    ((\<lambda>i j. 0), \<lparr>cv_x = 0, cv_y = 0, cv_z = 0\<rparr>, vd0);
             A = mat_set A 1 0 (A 0 1);
             A = mat_set A 2 0 (A 0 2);
             A = mat_set A 2 1 (A 1 2)
         in if CVEC_L2_NORM_SQ vd_win < ori_grad_thresh then (REJECT, R)
            else
              (case eigen_Mat_rm A of
                 None \<Rightarrow> (SIFT3D_FAILURE, R)
               | Some (Q, L) \<Rightarrow>
                   (let m = length L in
                    if m \<noteq> 3 then (REJECT, R)
                    else if \<not> eig_stable L then (REJECT, R)
                    else
                      (case sign_loop (corner_thresh sift3d) vd Q m [0..<m - 1] (R, []) of
                         (SIFT3D_SUCCESS, R, v) \<Rightarrow>
                           (SIFT3D_SUCCESS, set_col R 2 (CVEC_CROSS (v ! 0) (v ! 1)))
                       | (rc, R, v) \<Rightarrow> (rc, R))))))"

text \<open>For the statement about the corner score: the window gradient sum the loop
  accumulates, and the rejection test as the specification words it, on the
  projection of that sum.\<close>

definition window_gradient :: "Image \<Rightarrow> Cvec \<Rightarrow> real \<Rightarrow> Cvec" where
  "window_gradient img vcenter sigma =
     fst (snd (fold (tensor_step img sigma) (IM_LOOP_SPHERE img vcenter (sigma * ori_rad_fctr))
                    ((\<lambda>i j. 0), \<lparr>cv_x = 0, cv_y = 0, cv_z = 0\<rparr>,
                     \<lparr>cv_x = 0, cv_y = 0, cv_z = 0\<rparr>)))"

definition spec_corner_reject :: "Cvec \<Rightarrow> Cvec \<Rightarrow> real \<Rightarrow> bool" where
  "spec_corner_reject g_win v thresh =
     (\<bar>CVEC_DOT g_win v\<bar> / (CVEC_L2_NORM v * CVEC_L2_NORM g_win) < thresh)"

subsection \<open>\<^verbatim>\<open>cart2bary\<close> (lines 307--366) and \<^verbatim>\<open>icos_hist_bin\<close> (lines 1570--1607)\<close>

text \<open>\<^verbatim>\<open>init_geometry\<close> (lines 190--298) fails when the mesh cannot be allocated
  (lines 239--246) and otherwise stores the twenty triangles built above.\<close>

definition init_geometry :: "bool \<Rightarrow> SIFT3D \<Rightarrow> retcode \<times> SIFT3D" where
  "init_geometry mem_ok sift3d =
     (if \<not> mem_ok then (SIFT3D_FAILURE, sift3d)
      else (SIFT3D_SUCCESS, sift3d\<lparr>mesh := icos_mesh\<rparr>))"

text \<open>\<^verbatim>\<open>cart2bary\<close>: the Moller-Trumbore intersection of the ray through \<^verbatim>\<open>cart\<close> with the
  plane of a triangle. \<open>None\<close> is the return of \<^verbatim>\<open>SIFT3D_FAILURE\<close> at line 322; otherwise
  the result is the barycentric coordinates and the ray parameter \<^verbatim>\<open>k\<close>. The residual
  check of lines 338--364 belongs to a debug build and is not part of the model.
  The \<^verbatim>\<open>float\<close> arithmetic is read over the reals.\<close>

definition cart2bary :: "Cvec \<Rightarrow> Tri \<Rightarrow> (Cvec \<times> real) option" where
  "cart2bary cart tri =
     (let e1 = CVEC_MINUS (tri_v1 tri) (tri_v0 tri);
          e2 = CVEC_MINUS (tri_v2 tri) (tri_v0 tri);
          p = CVEC_CROSS cart e2;
          det = CVEC_DOT e1 p
      in if \<bar>det\<bar> < bary_eps then None
         else
           (let det_inv = 1 / det;
                t = CVEC_SCALE (tri_v0 tri) (-1);
                q = CVEC_CROSS t e1;
                bary_y = det_inv * CVEC_DOT t p;
                bary_z = det_inv * CVEC_DOT cart q;
                bary_x = 1 - bary_y - bary_z;
                k = CVEC_DOT e2 q * det_inv
            in Some (\<lparr>cv_x = bary_x, cv_y = bary_y, cv_z = bary_z\<rparr>, k)))"

text \<open>The three ways \<^verbatim>\<open>icos_hist_bin\<close> can end: the early return of line 1582, the
  return of line 1601 with the barycentric coordinates and the bin, and the code after
  the loop (lines 1604--1606).\<close>

datatype icos_result = TooSmall | Found Cvec nat | FellThrough

text \<open>The loop of lines 1585--1602 over the remaining faces, \<open>i\<close> being the index of
  the first of them.\<close>

fun icos_scan :: "Tri list \<Rightarrow> Cvec \<Rightarrow> nat \<Rightarrow> icos_result" where
  "icos_scan [] x i = FellThrough"
| "icos_scan (tri # tris) x i =
     (case cart2bary x tri of
        None \<Rightarrow> icos_scan tris x (i + 1)
      | Some (bary, k) \<Rightarrow>
          if cv_x bary < - bary_eps \<or> cv_y bary < - bary_eps \<or> cv_z bary < - bary_eps \<or> k < 0
          then icos_scan tris x (i + 1)
          else Found bary i)"

definition icos_hist_bin :: "SIFT3D \<Rightarrow> Cvec \<Rightarrow> icos_result" where
  "icos_hist_bin sift3d x =
     (if CVEC_L2_NORM_SQ x < bary_eps then TooSmall
      else icos_scan (mesh sift3d) x 0)"

text \<open>A face accepts \<open>x\<close> when neither \<^verbatim>\<open>continue\<close> of the loop body (lines 1590 and
  1594--1596) is taken.\<close>

definition tri_accepts :: "Tri \<Rightarrow> Cvec \<Rightarrow> bool" where
  "tri_accepts tri x =
     (case cart2bary x tri of
        None \<Rightarrow> False
      | Some (bary, k) \<Rightarrow>
          \<not> (cv_x bary < - bary_eps \<or> cv_y bary < - bary_eps \<or> cv_z bary < - bary_eps \<or> k < 0))"

text \<open>The scalar triple product, and a sufficient condition for acceptance stated on
  the unscaled vertex table: \<open>x\<close> lies in the cone of the face and is long enough for
  the determinant test.\<close>

definition triple :: "Cvec \<Rightarrow> Cvec \<Rightarrow> Cvec \<Rightarrow> real" where
  "triple a b c = CVEC_DOT a (CVEC_CROSS b c)"

definition raw_accept :: "nat \<times> nat \<times> nat \<Rightarrow> Cvec \<Rightarrow> bool" where
  "raw_accept f x =
     (case f of (i0, i1, i2) \<Rightarrow>
        (let a = CVEC_DOT x (CVEC_CROSS (vert ! i1) (vert ! i2));
             b = CVEC_DOT x (CVEC_CROSS (vert ! i2) (vert ! i0));
             c = CVEC_DOT x (CVEC_CROSS (vert ! i0) (vert ! i1))
         in 0 \<le> a \<and> 0 \<le> b \<and> 0 \<le> c \<and> bary_eps * (1 + gr * gr) \<le> a + b + c))"

subsection \<open>\<^verbatim>\<open>extract_descrip\<close> (lines 1762--1845)\<close>

text \<open>Modelled from the spec: \<^verbatim>\<open>NHIST_PER_DIM\<close> is defined in a header that is not part of
  the sources; a descriptor is a grid of \<open>NHIST_PER_DIM\<^sup>3\<close> histograms, with the default
  \<open>NHIST_PER_DIM = 4\<close>.\<close>

definition NHIST_PER_DIM :: int where
  "NHIST_PER_DIM = 4"

text \<open>\<^verbatim>\<open>hist->bins[a] += v\<close> on histogram \<open>k\<close> of the descriptor.\<close>

definition hist_add :: "(nat \<Rightarrow> nat \<Rightarrow> real) \<Rightarrow> nat \<Rightarrow> nat \<Rightarrow> real \<Rightarrow> (nat \<Rightarrow> nat \<Rightarrow> real)" where
  "hist_add h k a v = h(k := (h k)(a := h k a + v))"

text \<open>The body of the triple loop of \<^verbatim>\<open>SIFT3D_desc_acc_interp\<close> (lines 1658--1693, the
  icosahedral build) for one corner \<open>(dx, dy, dz)\<close> of the spatial cell.
  \<^verbatim>\<open>MESH_HIST_GET(mesh, hist, bin, j)\<close> is bin \<^verbatim>\<open>mesh->tri[bin].idx[j]\<close> of the histogram.\<close>

definition acc_cell ::
  "SIFT3D \<Rightarrow> Cvec \<Rightarrow> Cvec \<Rightarrow> real \<Rightarrow> Cvec \<Rightarrow> nat \<Rightarrow> int \<times> int \<times> int
     \<Rightarrow> (nat \<Rightarrow> nat \<Rightarrow> real) \<Rightarrow> (nat \<Rightarrow> nat \<Rightarrow> real)" where
  "acc_cell sift3d vbins dvbins mag bary bin d h =
     (case d of (dx, dy, dz) \<Rightarrow>
        (let y_stride = NHIST_PER_DIM;
             z_stride = NHIST_PER_DIM * NHIST_PER_DIM;
             x = c_trunc (cv_x vbins) + dx;
             y = c_trunc (cv_y vbins) + dy;
             z = c_trunc (cv_z vbins) + dz
         in if x < 0 \<or> x \<ge> NHIST_PER_DIM \<or> y < 0 \<or> y \<ge> NHIST_PER_DIM \<or>
               z < 0 \<or> z \<ge> NHIST_PER_DIM
            then h
            else
              (let hist = nat (x + y * y_stride + z * z_stride);
                   weight = (if dx = 0 then 1 - cv_x dvbins else cv_x dvbins) *
                            (if dy = 0 then 1 - cv_y dvbins else cv_y dvbins) *
                            (if dz = 0 then 1 - cv_z dvbins else cv_z dvbins);
                   (i0, i1, i2) = tri_idx (mesh sift3d ! bin);
                   h = hist_add h hist i0 (mag * weight * cv_x bary);
                   h = hist_add h hist i1 (mag * weight * cv_y bary);
                   h = hist_add h hist i2 (mag * weight * cv_z bary)
               in h)))"

text \<open>\<^verbatim>\<open>SIFT3D_desc_acc_interp\<close> (lines 1610--1719, the icosahedral build): nothing is
  accumulated when \<^verbatim>\<open>icos_hist_bin\<close> fails (line 1643).\<close>

definition SIFT3D_desc_acc_interp ::
  "SIFT3D \<Rightarrow> Cvec \<Rightarrow> Cvec \<Rightarrow> (nat \<Rightarrow> nat \<Rightarrow> real) \<Rightarrow> (nat \<Rightarrow> nat \<Rightarrow> real)" where
  "SIFT3D_desc_acc_interp sift3d vbins grad h =
     (let dvbins = \<lparr>cv_x = cv_x vbins - real_of_int \<lfloor>cv_x vbins\<rfloor>,
                    cv_y = cv_y vbins - real_of_int \<lfloor>cv_y vbins\<rfloor>,
                    cv_z = cv_z vbins - real_of_int \<lfloor>cv_z vbins\<rfloor>\<rparr>
      in case icos_hist_bin sift3d grad of
           Found bary bin \<Rightarrow>
             (let mag = CVEC_L2_NORM grad
              in fold (acc_cell sift3d vbins dvbins mag bary bin)
                   [(dx, dy, dz). dx \<leftarrow> [0, 1], dy \<leftarrow> [0, 1], dz \<leftarrow> [0, 1]] h)
         | _ \<Rightarrow> h)"

text \<open>\<^verbatim>\<open>normalize_desc\<close> (lines 1722--1749): the sum of the squares of all
  \<^verbatim>\<open>DESC_NUM_TOTAL_HIST * HIST_NUMEL\<close> bins (lines 1727--1736), and the division of every
  bin by \<^verbatim>\<open>sqrt(norm) + DBL_EPSILON\<close>. The arithmetic is read over the reals.\<close>

definition desc_sumsq :: "(nat \<Rightarrow> nat \<Rightarrow> real) \<Rightarrow> real" where
  "desc_sumsq h =
     fold (\<lambda>i norm. fold (\<lambda>a norm. norm + h i a * h i a) [0..<HIST_NUMEL] norm)
          [0..<DESC_NUM_TOTAL_HIST] 0"

definition normalize_desc :: "(nat \<Rightarrow> nat \<Rightarrow> real) \<Rightarrow> (nat \<Rightarrow> nat \<Rightarrow> real)" where
  "normalize_desc h =
     (let norm = sqrt (desc_sumsq h) + DBL_EPSILON;
          norm_inv = 1 / norm
      in (\<lambda>i a. if i < DESC_NUM_TOTAL_HIST \<and> a < HIST_NUMEL then h i a * norm_inv else h i a))"

text \<open>\<^verbatim>\<open>refine_Hist\<close> (lines 1319--1340) has an empty body in the icosahedral build.\<close>

definition refine_Hist :: "(nat \<Rightarrow> real) \<Rightarrow> (nat \<Rightarrow> real)" where
  "refine_Hist hist = hist"

text \<open>Modelled from the spec: \<^verbatim>\<open>DESC_NUMEL\<close> is defined in the missing header; it is the
  number of bins of a descriptor, \<^verbatim>\<open>DESC_NUM_TOTAL_HIST * HIST_NUMEL\<close>.\<close>

definition DESC_NUMEL :: nat where
  "DESC_NUMEL = DESC_NUM_TOTAL_HIST * HIST_NUMEL"

text \<open>\<^verbatim>\<open>trunc_thresh\<close> (line 62) and the truncation loop of lines 1828--1834.\<close>

definition trunc_thresh :: real where
  "trunc_thresh = 0.2 * 128 / real DESC_NUMEL"

definition truncate_desc :: "(nat \<Rightarrow> nat \<Rightarrow> real) \<Rightarrow> (nat \<Rightarrow> nat \<Rightarrow> real)" where
  "truncate_desc h =
     (\<lambda>i a. if i < DESC_NUM_TOTAL_HIST \<and> a < HIST_NUMEL then SIFT3D_MIN (h i a) trunc_thresh
            else h i a)"

text \<open>The constants of lines 60--61.\<close>

definition desc_sig_fctr :: real where
  "desc_sig_fctr = 7071067812 / 10 ^ 9"

definition desc_rad_fctr :: real where
  "desc_rad_fctr = 2.0"

text \<open>The body of the window loop of \<^verbatim>\<open>extract_descrip\<close> (lines 1788--1815) for one voxel
  of the window.\<close>

definition descrip_step ::
  "SIFT3D \<Rightarrow> Image \<Rightarrow> Keypoint \<Rightarrow> (int \<times> int \<times> int) \<times> Cvec \<times> real
     \<Rightarrow> (nat \<Rightarrow> nat \<Rightarrow> real) \<Rightarrow> (nat \<Rightarrow> nat \<Rightarrow> real)" where
  "descrip_step sift3d img key it h =
     (case it of ((x, y, z), vim, sq_dist) \<Rightarrow>
        (let sigma = key_sd_rel key * desc_sig_fctr;
             win_radius = desc_rad_fctr * sigma;
             desc_width = win_radius / sqrt 2;
             desc_hw = desc_width / 2;
             desc_bin_fctr = real_of_int NHIST_PER_DIM / desc_width;
             vkp = MUL_MAT_RM_CVEC (key_R key) vim;
             vbins = \<lparr>cv_x = (cv_x vkp + desc_hw) * desc_bin_fctr,
                      cv_y = (cv_y vkp + desc_hw) * desc_bin_fctr,
                      cv_z = (cv_z vkp + desc_hw) * desc_bin_fctr\<rparr>
         in if cv_x vbins < 0 \<or> cv_y vbins < 0 \<or> cv_z vbins < 0 \<or>
               cv_x vbins \<ge> real_of_int NHIST_PER_DIM \<or>
               cv_y vbins \<ge> real_of_int NHIST_PER_DIM \<or>
               cv_z vbins \<ge> real_of_int NHIST_PER_DIM
            then h
            else
              (let grad = IM_GET_GRAD img x y z;
                   weight = exp (- 0.5 * sq_dist / (sigma * sigma));
                   grad = CVEC_SCALE grad weight;
                   grad_rot = MUL_MAT_RM_CVEC (key_R key) grad
               in SIFT3D_desc_acc_interp sift3d vbins grad_rot h)))"

text \<open>Lines 1778--1820: the descriptor zeroed, the accumulation over the spherical
  window, and \<^verbatim>\<open>refine_Hist\<close> on every histogram.\<close>

definition descrip_accum :: "SIFT3D \<Rightarrow> Image \<Rightarrow> Keypoint \<Rightarrow> (nat \<Rightarrow> nat \<Rightarrow> real)" where
  "descrip_accum sift3d img key =
     (let sigma = key_sd_rel key * desc_sig_fctr;
          win_radius = desc_rad_fctr * sigma;
          vcenter = \<lparr>cv_x = key_xd key, cv_y = key_yd key, cv_z = key_zd key\<rparr>;
          h = fold (descrip_step sift3d img key) (IM_LOOP_SPHERE img vcenter win_radius)
                (\<lambda>i a. 0)
      in (\<lambda>i. refine_Hist (h i)))"

text \<open>\<^verbatim>\<open>extract_descrip\<close>: accumulate, normalize, truncate, normalize again (lines
  1824--1837), and save the location (lines 1841--1844).\<close>

definition extract_descrip :: "SIFT3D \<Rightarrow> Image \<Rightarrow> Keypoint \<Rightarrow> SIFT3D_Descriptor" where
  "extract_descrip sift3d img key =
     (let coord_factor = 2 powr real_of_int (key_o key);
          h = descrip_accum sift3d img key;
          h = normalize_desc h;
          h = truncate_desc h;
          h = normalize_desc h
      in \<lparr>hists = h, desc_xd = key_xd key * coord_factor, desc_yd = key_yd key * coord_factor,
          desc_zd = key_zd key * coord_factor, desc_sd = key_sd key\<rparr>)"

text \<open>The L2 norm of a descriptor, taken over all its histograms combined.\<close>

definition desc_l2_norm :: "(nat \<Rightarrow> nat \<Rightarrow> real) \<Rightarrow> real" where
  "desc_l2_norm h = sqrt (\<Sum>i<DESC_NUM_TOTAL_HIST. \<Sum>a<HIST_NUMEL. (h i a)\<^sup>2)"

subsection \<open>Concrete inputs\<close>

text \<open>Small concrete values on which the theorems below are instantiated: an image
  of given dimensions and scale with all voxels zero, an empty pyramid with the
  default parameters (\<open>num_octaves = -1\<close>: to be computed), and a \<^verbatim>\<open>SIFT3D\<close> struct with
  the default thresholds and the mesh that \<^verbatim>\<open>init_geometry\<close> builds.\<close>

definition blank_Image :: "int \<Rightarrow> int \<Rightarrow> int \<Rightarrow> real \<Rightarrow> Image" where
  "blank_Image n1 n2 n3 sc =
     \<lparr>im_nx = n1, im_ny = n2, im_nz = n3, im_s = sc, im_vox = (\<lambda>x y z. 0)\<rparr>"

definition fresh_Pyramid :: "int \<Rightarrow> Pyramid" where
  "fresh_Pyramid nl =
     \<lparr>first_octave = 0, last_octave = 0, num_octaves = -1, first_level = -1,
      last_level = nl - 2, num_levels = nl, num_kp_levels = 3,
      levels = (\<lambda>oc lv. blank_Image 0 0 0 0)\<rparr>"

definition fresh_SIFT3D :: "Image option \<Rightarrow> SIFT3D" where
  "fresh_SIFT3D i =
     \<lparr>peak_thresh = 3 / 100, corner_thresh = 1 / 2, gpyr = fresh_Pyramid 6,
      dog = fresh_Pyramid 5, im = i, mesh = icos_mesh, stderr = []\<rparr>"

text \<open>A descriptor whose only non-zero bin is bin 0 of histogram 0.\<close>

definition bin0_desc :: "real \<Rightarrow> SIFT3D_Descriptor" where
  "bin0_desc c = \<lparr>hists = (\<lambda>k a. if k = 0 \<and> a = 0 then c else 0),
                  desc_xd = 0, desc_yd = 0, desc_zd = 0, desc_sd = 0\<rparr>"

text \<open>A DoG octave of three 5 x 5 x 5 levels with scales 1, 2 and 4, whose middle level
  has a peak at voxel (2, 2, 2), and the candidate keypoint found there.\<close>

definition peak_Pyramid :: Pyramid where
  "peak_Pyramid =
     \<lparr>first_octave = 0, last_octave = 0, num_octaves = 1, first_level = -1,
      last_level = 1, num_levels = 3, num_kp_levels = 1,
      levels = (\<lambda>oc lv. (blank_Image 5 5 5 (if lv < 0 then 1 else if lv = 0 then 2 else 4))
                  \<lparr>im_vox := (\<lambda>x y z. if lv = 0 \<and> y = 2 \<and> z = 2
                                        then (if x = 2 then 1 else if x = 3 then 1 / 2 else 0)
                                        else 0)\<rparr>)\<rparr>"

definition peak_Keypoint :: Keypoint where
  "peak_Keypoint =
     \<lparr>key_o = 0, key_s = 0, key_xi = 2, key_yi = 2, key_zi = 2, key_xd = 0, key_yd = 0,
      key_zd = 0, key_sd = 0, key_sd_rel = 0, key_R = (\<lambda>i j. 0)\<rparr>"


text \<open>A DoG octave of three 3 x 3 x 3 levels. The middle level is 1 at the centre and
  0 elsewhere; the two outer levels are 0 at the centre and its six face neighbours
  and 5 at the twenty other voxels.\<close>

definition ridge_Pyramid :: Pyramid where
  "ridge_Pyramid =
     \<lparr>first_octave = 0, last_octave = 0, num_octaves = 1, first_level = -1,
      last_level = 1, num_levels = 3, num_kp_levels = 1,
      levels = (\<lambda>oc lv. (blank_Image 3 3 3 1)
                  \<lparr>im_vox := (\<lambda>x y z.
                      if lv = 0 then (if x = 1 \<and> y = 1 \<and> z = 1 then 1 else 0)
                      else (if \<bar>x - 1\<bar> + \<bar>y - 1\<bar> + \<bar>z - 1\<bar> \<le> 1 then 0 else 5))\<rparr>)\<rparr>"

definition empty_store :: Keypoint_store where
  "empty_store = \<lparr>kp_buf = [], kp_nx = 0, kp_ny = 0, kp_nz = 0\<rparr>"

definition ridge_SIFT3D :: SIFT3D where
  "ridge_SIFT3D = (fresh_SIFT3D None)\<lparr>dog := ridge_Pyramid\<rparr>"

text \<open>A Gaussian octave of three 2 x 2 x 2 levels whose voxels are all 1, 2 and 3, and an
  empty DoG octave of two levels.\<close>

definition ramp_SIFT3D :: SIFT3D where
  "ramp_SIFT3D =
     (fresh_SIFT3D None)
       \<lparr>gpyr := (fresh_Pyramid 3)
                  \<lparr>last_octave := 0, num_octaves := 1,
                   levels := (\<lambda>oc lv. (blank_Image 2 2 2 1)\<lparr>im_vox := (\<lambda>x y z. real_of_int (lv + 2))\<rparr>)\<rparr>,
        dog := (fresh_Pyramid 2)\<lparr>last_octave := 0, num_octaves := 1\<rparr>\<rparr>"

text \<open>A 4 x 4 x 3 image whose four interior voxels have the gradients \<open>(1, 0, 0)\<close>,
  \<open>(0, 2, 0)\<close>, \<open>(0, 0, 0)\<close> and \<open>(1, 0, 0)\<close> in scan order, a window centre at equal distance
  from the four, and the eigendecomposition of the diagonal structure tensor that
  results (eigenvalues in ascending order, as the indexing of lines 1405--1419
  expects).\<close>

definition corner_Image :: Image where
  "corner_Image =
     \<lparr>im_nx = 4, im_ny = 4, im_nz = 3, im_s = 1,
      im_vox = (\<lambda>x y z.
         if z \<noteq> 1 then 0
         else if x = 2 \<and> y = 1 then 2
         else if x = 2 \<and> y = 2 then 4
         else if x = 2 \<and> y = 3 then 2
         else if x = 0 \<and> y = 2 then 4
         else if x = 3 \<and> y = 2 then 2
         else 0)\<rparr>"

definition corner_center :: Cvec where
  "corner_center = \<lparr>cv_x = 2, cv_y = 2, cv_z = 3 / 2\<rparr>"

definition corner_eigen :: "Mat \<Rightarrow> (Mat \<times> real list) option" where
  "corner_eigen A =
     Some ((\<lambda>i j. if (i = 2 \<and> j = 0) \<or> (i = 0 \<and> j = 1) \<or> (i = 1 \<and> j = 2) then 1 else 0),
           [A 2 2, A 0 0, A 1 1])"

text \<open>A 3 x 3 x 3 image whose intensity is the \<open>z\<close> index, so that its only interior voxel
  has the gradient \<open>(0, 0, 1)\<close>, and a keypoint at the centre of that voxel with the
  identity orientation.\<close>

definition slope_Image :: Image where
  "slope_Image = (blank_Image 3 3 3 1)\<lparr>im_vox := (\<lambda>x y z. real_of_int z)\<rparr>"

definition center_Keypoint :: Keypoint where
  "center_Keypoint =
     \<lparr>key_o = 0, key_s = 0, key_xi = 1, key_yi = 1, key_zi = 1, key_xd = 3 / 2, key_yd = 3 / 2,
      key_zd = 3 / 2, key_sd = 1, key_sd_rel = 1,
      key_R = (\<lambda>i j. if i = j then 1 else 0)\<rparr>"

section \<open>Theorems\<close>

subsection \<open>Claim C6: the peak threshold setter\<close>

lemma peak_thresh_msg_one_line:
  "count_list peak_thresh_msg (CHR 0x0A) = 1 \<and> last peak_thresh_msg = CHR 0x0A"
  by (simp add: peak_thresh_msg_def)

text \<open>
  Claim C6. \<^verbatim>\<open>set_peak_thresh_SIFT3D\<close> rejects every \<open>peak_thresh \<le> 0\<close>: it returns
  \<^verbatim>\<open>SIFT3D_FAILURE\<close>, leaves the stored threshold as it was and writes exactly one
  diagnostic, a single line, to \<^verbatim>\<open>stderr\<close>. It accepts every \<open>peak_thresh > 0\<close>: it
  returns \<^verbatim>\<open>SIFT3D_SUCCESS\<close>, stores the value and writes nothing.
\<close>

theorem set_peak_thresh_SIFT3D_spec:
  "(pt \<le> 0 \<longrightarrow>
      fst (set_peak_thresh_SIFT3D sift3d pt) = SIFT3D_FAILURE \<and>
      peak_thresh (snd (set_peak_thresh_SIFT3D sift3d pt)) = peak_thresh sift3d \<and>
      stderr (snd (set_peak_thresh_SIFT3D sift3d pt)) = stderr sift3d @ [(peak_thresh_msg, pt)] \<and>
      count_list peak_thresh_msg (CHR 0x0A) = 1 \<and> last peak_thresh_msg = CHR 0x0A) \<and>
   (0 < pt \<longrightarrow>
      fst (set_peak_thresh_SIFT3D sift3d pt) = SIFT3D_SUCCESS \<and>
      peak_thresh (snd (set_peak_thresh_SIFT3D sift3d pt)) = pt \<and>
      stderr (snd (set_peak_thresh_SIFT3D sift3d pt)) = stderr sift3d)"
  using peak_thresh_msg_one_line by (auto simp: set_peak_thresh_SIFT3D_def)

text \<open>The scenario of the specification: \<open>0.0\<close> is rejected and \<open>0.01\<close> is accepted.\<close>

theorem set_peak_thresh_SIFT3D_spec_witness:
  "fst (set_peak_thresh_SIFT3D (fresh_SIFT3D None) 0) = SIFT3D_FAILURE \<and>
   peak_thresh (snd (set_peak_thresh_SIFT3D (fresh_SIFT3D None) 0)) = 3 / 100 \<and>
   length (stderr (snd (set_peak_thresh_SIFT3D (fresh_SIFT3D None) 0))) = 1 \<and>
   fst (set_peak_thresh_SIFT3D (fresh_SIFT3D None) (1 / 100)) = SIFT3D_SUCCESS \<and>
   peak_thresh (snd (set_peak_thresh_SIFT3D (fresh_SIFT3D None) (1 / 100))) = 1 / 100 \<and>
   stderr (snd (set_peak_thresh_SIFT3D (fresh_SIFT3D None) (1 / 100))) = []"
  using set_peak_thresh_SIFT3D_spec [of 0 "fresh_SIFT3D None"]
        set_peak_thresh_SIFT3D_spec [of "1 / 100" "fresh_SIFT3D None"]
  by (simp add: fresh_SIFT3D_def)

subsection \<open>Claim C3: the number of octaves\<close>

lemma c_trunc_log2: "1 \<le> m \<Longrightarrow> c_trunc (log 2 (real_of_int m)) = \<lfloor>log 2 (real_of_int m)\<rfloor>"
  by (simp add: c_trunc_def)

lemma log2_128: "log 2 128 = 7"
proof -
  have "log 2 (2 ^ 7) = real 7" by (rule log_pow_cancel) simp_all
  then show ?thesis by simp
qed

lemma resize_octaves_auto:
  assumes "0 < SIFT3D_MIN (SIFT3D_MIN (im_nx img) (im_ny img)) (im_nz img)"
  shows "resize_octaves img fo (-1) =
           Some (\<lfloor>log 2 (real_of_int (SIFT3D_MIN (SIFT3D_MIN (im_nx img) (im_ny img)) (im_nz img)))\<rfloor>
                   - 3 - fo,
                 \<lfloor>log 2 (real_of_int (SIFT3D_MIN (SIFT3D_MIN (im_nx img) (im_ny img)) (im_nz img)))\<rfloor>
                   - 3 - 2 * fo + 1)"
  using assms by (simp add: resize_octaves_def Let_def c_trunc_log2)

text \<open>
  What the code computes. When \<open>num_octaves\<close> is \<open>-1\<close> and the smallest dimension \<open>m\<close> of
  the image is positive, \<^verbatim>\<open>resize_SIFT3D\<close> sets, in both pyramids,
  \<open>last_octave = floor (log2 m) - 3 - first_octave\<close> and
  \<open>num_octaves = last_octave - first_octave + 1 = floor (log2 m) - 3 - 2 * first_octave + 1\<close>,
  whatever the image library's \<^verbatim>\<open>resize_Pyramid\<close> and \<^verbatim>\<open>make_gss\<close> return, as long as
  \<^verbatim>\<open>resize_Pyramid\<close> leaves these two fields alone.
\<close>

lemma resize_SIFT3D_octaves:
  assumes img: "im sift3d = Some img"
    and auto: "num_octaves (gpyr sift3d) = -1"
    and pos: "0 < SIFT3D_MIN (SIFT3D_MIN (im_nx img) (im_ny img)) (im_nz img)"
    and keep: "\<And>p i. last_octave (snd (rp p i)) = last_octave p \<and>
                      num_octaves (snd (rp p i)) = num_octaves p"
  shows "\<exists>r s'. resize_SIFT3D rp mg sift3d = Some (r, s') \<and>
           last_octave (gpyr s') =
             \<lfloor>log 2 (real_of_int (SIFT3D_MIN (SIFT3D_MIN (im_nx img) (im_ny img)) (im_nz img)))\<rfloor>
               - 3 - first_octave (gpyr sift3d) \<and>
           num_octaves (gpyr s') =
             \<lfloor>log 2 (real_of_int (SIFT3D_MIN (SIFT3D_MIN (im_nx img) (im_ny img)) (im_nz img)))\<rfloor>
               - 3 - 2 * first_octave (gpyr sift3d) + 1 \<and>
           last_octave (dog s') = last_octave (gpyr s') \<and>
           num_octaves (dog s') = num_octaves (gpyr s')"
proof -
  let ?L = "\<lfloor>log 2 (real_of_int (SIFT3D_MIN (SIFT3D_MIN (im_nx img) (im_ny img)) (im_nz img)))\<rfloor>"
  let ?fo = "first_octave (gpyr sift3d)"
  let ?g1 = "(gpyr sift3d)\<lparr>last_octave := ?L - 3 - ?fo, num_octaves := ?L - 3 - 2 * ?fo + 1\<rparr>"
  let ?d1 = "(dog sift3d)\<lparr>last_octave := ?L - 3 - ?fo, num_octaves := ?L - 3 - 2 * ?fo + 1\<rparr>"
  have oct: "resize_octaves img ?fo (num_octaves (gpyr sift3d)) =
               Some (?L - 3 - ?fo, ?L - 3 - 2 * ?fo + 1)"
    using resize_octaves_auto [OF pos] auto by simp
  have kg: "last_octave (snd (rp ?g1 img)) = ?L - 3 - ?fo"
           "num_octaves (snd (rp ?g1 img)) = ?L - 3 - 2 * ?fo + 1"
    using keep [of ?g1 img] by simp_all
  have kd: "last_octave (snd (rp ?d1 img)) = ?L - 3 - ?fo"
           "num_octaves (snd (rp ?d1 img)) = ?L - 3 - 2 * ?fo + 1"
    using keep [of ?d1 img] by simp_all
  show ?thesis
    using kg kd
    by (cases "rp ?g1 img"; cases "rp ?d1 img")
       (simp add: resize_SIFT3D_def img oct Let_def)
qed

text \<open>With \<open>first_octave = 0\<close> the two formulas agree: a 128 x 128 x 128 image yields
  \<open>last_octave = 4\<close> and \<open>num_octaves = 5\<close>.\<close>

lemma resize_SIFT3D_octaves_128:
  "\<exists>r s'. resize_SIFT3D (\<lambda>p i. (SIFT3D_SUCCESS, p)) (\<lambda>p. SIFT3D_SUCCESS)
              (fresh_SIFT3D (Some (blank_Image 128 128 128 0))) = Some (r, s') \<and>
     last_octave (gpyr s') = 4 \<and> num_octaves (gpyr s') = 5 \<and>
     last_octave (dog s') = 4 \<and> num_octaves (dog s') = 5"
proof -
  let ?img = "blank_Image 128 128 128 0"
  let ?s = "fresh_SIFT3D (Some ?img)"
  have 1: "im ?s = Some ?img"
    by (simp add: fresh_SIFT3D_def)
  have 2: "num_octaves (gpyr ?s) = -1"
    by (simp add: fresh_SIFT3D_def fresh_Pyramid_def)
  have 3: "0 < SIFT3D_MIN (SIFT3D_MIN (im_nx ?img) (im_ny ?img)) (im_nz ?img)"
    by (simp add: blank_Image_def SIFT3D_MIN_def)
  have 4: "\<And>p i. last_octave (snd ((\<lambda>p i. (SIFT3D_SUCCESS, p)) p i)) = last_octave p \<and>
                  num_octaves (snd ((\<lambda>p i. (SIFT3D_SUCCESS, p)) p i)) = num_octaves p"
    by simp
  have 5: "first_octave (gpyr ?s) = 0"
    by (simp add: fresh_SIFT3D_def fresh_Pyramid_def)
  have 6: "\<lfloor>log 2 (real_of_int (SIFT3D_MIN (SIFT3D_MIN (im_nx ?img) (im_ny ?img)) (im_nz ?img)))\<rfloor> = 7"
    by (simp add: blank_Image_def SIFT3D_MIN_def log2_128)
  show ?thesis
    using resize_SIFT3D_octaves [of ?s ?img "\<lambda>p i. (SIFT3D_SUCCESS, p)" "\<lambda>p. SIFT3D_SUCCESS", OF 1 2 3 4]
    unfolding 5 6 by auto
qed

text \<open>
  Claim C3 at a 128 x 128 x 128 image with \<open>first_octave = 1\<close> and \<open>num_octaves = -1\<close>.
  Octave \<open>o\<close> halves the image \<open>o\<close> times, so the octaves of at least 8 voxels per
  dimension (the limit named at lines 675--677 and 883) are those up to
  \<open>floor (log2 128) - 3 = 4\<close>, and the claim's \<open>num_octaves\<close> is
  \<open>floor (log2 128) - 3 - first_octave + 1 = 4\<close>: the octaves 1 to 4. The code subtracts
  \<open>first_octave\<close> in \<open>last_octave\<close> as well and stops at octave 3, with
  \<open>num_octaves = 3\<close>. With \<open>first_octave = -1\<close> the same subtraction yields
  \<open>last_octave = 5\<close>, an octave of \<open>128 / 2\<^sup>5 = 4\<close> voxels, and \<open>num_octaves = 7\<close> where the
  claim has 6.
\<close>

theorem resize_num_octaves:
  "resize_octaves (blank_Image 128 128 128 0) 1 (-1) = Some (3, 3) \<and>
   \<lfloor>log 2 (real_of_int (SIFT3D_MIN (SIFT3D_MIN 128 128) 128))\<rfloor> - 3 - 1 + 1 = (4 :: int) \<and>
   resize_octaves (blank_Image 128 128 128 0) (-1) (-1) = Some (5, 7) \<and>
   \<lfloor>log 2 (real_of_int (SIFT3D_MIN (SIFT3D_MIN 128 128) 128))\<rfloor> - 3 - (-1) + 1 = (6 :: int)"
  by (simp add: resize_octaves_def blank_Image_def SIFT3D_MIN_def c_trunc_def log2_128)

subsection \<open>Claims C5 and C10: nearest-neighbour matching\<close>

lemma fold_add_sum_list:
  "fold (\<lambda>a (s::real). s + f a) xs s0 = s0 + sum_list (map f xs)"
  by (induction xs arbitrary: s0) simp_all

lemma fold_fold_add:
  "fold (\<lambda>k (s::real). fold (\<lambda>a s. s + f k a) ys s) xs s0 =
     s0 + sum_list (map (\<lambda>k. sum_list (map (f k) ys)) xs)"
  by (induction xs arbitrary: s0) (simp_all add: fold_add_sum_list)

lemma desc_ssd_sum:
  "desc_ssd desc1 desc2 =
     (\<Sum>k<DESC_NUM_TOTAL_HIST. \<Sum>a<HIST_NUMEL. (hists desc1 k a - hists desc2 k a)\<^sup>2)"
  unfolding desc_ssd_def fold_fold_add
  by (simp add: interv_sum_list_conv_sum_set_nat power2_eq_square lessThan_atLeast0)

lemma desc_ssd_nonneg: "0 \<le> desc_ssd desc1 desc2"
  unfolding desc_ssd_sum by (intro sum_nonneg) simp

lemma desc_ssd_bin0: "desc_ssd (bin0_desc c1) (bin0_desc c2) = (c1 - c2)\<^sup>2"
proof -
  have "desc_ssd (bin0_desc c1) (bin0_desc c2) =
          (\<Sum>k<DESC_NUM_TOTAL_HIST. \<Sum>a<HIST_NUMEL. if k = 0 \<and> a = 0 then (c1 - c2)\<^sup>2 else 0)"
    unfolding desc_ssd_sum bin0_desc_def
    by (intro sum.cong refl) simp
  also have "\<dots> = (\<Sum>k<DESC_NUM_TOTAL_HIST. if k = 0 then (c1 - c2)\<^sup>2 else 0)"
    by (intro sum.cong refl) (simp add: HIST_NUMEL_def)
  also have "\<dots> = (c1 - c2)\<^sup>2"
    by (simp add: DESC_NUM_TOTAL_HIST_def)
  finally show ?thesis .
qed

lemma insort_two:
  fixes x :: real
  assumes "sorted ys" "2 \<le> length ys"
  shows "(insort x ys ! 0, insort x ys ! 1) = track_step x (ys ! 0, ys ! 1)"
proof -
  obtain b n rest where ys: "ys = b # n # rest"
    using assms(2) by (cases ys; cases "tl ys") auto
  with assms(1) have "b \<le> n" by simp
  then show ?thesis
    by (auto simp: ys track_step_def SIFT3D_MIN_def)
qed

lemma fold_track_insort:
  fixes xs :: "real list"
  assumes "sorted ys" "2 \<le> length ys"
  shows "fold track_step xs (ys ! 0, ys ! 1) =
           (fold insort xs ys ! 0, fold insort xs ys ! 1)"
  using assms
proof (induction xs arbitrary: ys)
  case Nil
  then show ?case by simp
next
  case (Cons x xs)
  have s: "sorted (insort x ys)" using Cons.prems(1) by (simp add: sorted_insort)
  have l: "2 \<le> length (insort x ys)" using Cons.prems(2) by simp
  show ?case
    using Cons.IH [OF s l] insort_two [OF Cons.prems, of x] by simp
qed

lemma fold_track_sort:
  fixes xs :: "real list"
  shows "fold track_step xs (S, S) = (sort (xs @ [S, S]) ! 0, sort (xs @ [S, S]) ! 1)"
proof -
  have "sort (xs @ [S, S]) = sort (S # S # xs)"
    by (rule properties_for_sort) (simp_all del: sort_key_simps)
  also have "\<dots> = fold insort xs [S, S]"
    by (simp add: sort_conv_fold)
  finally have eq: "sort (xs @ [S, S]) = fold insort xs [S, S]" .
  show ?thesis
    unfolding eq using fold_track_insort [of "[S, S]" xs] by simp
qed

lemma nn_step_track:
  "(case fold (nn_step desc1 d2) js st of (b, n, db) \<Rightarrow> (b, n)) =
     fold track_step (map (\<lambda>j. desc_ssd desc1 (d2 ! j)) js) (case st of (b, n, db) \<Rightarrow> (b, n))"
proof (induction js arbitrary: st)
  case Nil
  then show ?case by simp
next
  case (Cons j js)
  obtain b n db where st: "st = (b, n, db)" by (cases st)
  have "(case nn_step desc1 d2 j st of (b, n, db) \<Rightarrow> (b, n)) =
          track_step (desc_ssd desc1 (d2 ! j)) (b, n)"
    by (simp add: st nn_step_def track_step_def Let_def)
  then show ?case
    by (simp add: Cons.IH st)
qed

lemma nn_search_sorted:
  "(case nn_search desc1 d2 of (b, n, db) \<Rightarrow> (b, n)) =
     (ssd_sorted desc1 d2 ! 0, ssd_sorted desc1 d2 ! 1)"
proof -
  have m: "map (\<lambda>j. desc_ssd desc1 (d2 ! j)) [0..<length d2] = map (desc_ssd desc1) d2"
    by (rule nth_equalityI) simp_all
  have "(case nn_search desc1 d2 of (b, n, db) \<Rightarrow> (b, n)) =
          fold track_step (map (desc_ssd desc1) d2) (SSD_INIT, SSD_INIT)"
    using nn_step_track [of desc1 d2 "[0..<length d2]" "(SSD_INIT, SSD_INIT, None)"]
    by (simp only: nn_search_def m prod.case)
  then show ?thesis
    by (simp only: fold_track_sort ssd_sorted_def)
qed

lemma nn_step_best_ok:
  "best_ok desc1 d2 st \<Longrightarrow> j < length d2 \<Longrightarrow> best_ok desc1 d2 (nn_step desc1 d2 j st)"
  by (auto simp: best_ok_def nn_step_def Let_def split: prod.splits option.splits)

lemma fold_nn_step_best_ok:
  "best_ok desc1 d2 st \<Longrightarrow> set js \<subseteq> {..<length d2} \<Longrightarrow>
     best_ok desc1 d2 (fold (nn_step desc1 d2) js st)"
  by (induction js arbitrary: st) (simp_all add: nn_step_best_ok)

lemma nn_search_best_ok: "best_ok desc1 d2 (nn_search desc1 d2)"
  unfolding nn_search_def
  by (rule fold_nn_step_best_ok) (auto simp: best_ok_def)

lemma ssd_sorted_props:
  "sorted (ssd_sorted desc1 d2)" "length (ssd_sorted desc1 d2) = length d2 + 2"
  "set (ssd_sorted desc1 d2) = desc_ssd desc1 ` set d2 \<union> {SSD_INIT}"
  by (auto simp: ssd_sorted_def)

lemma ssd_sorted_0_le:
  "x \<in> set (ssd_sorted desc1 d2) \<Longrightarrow> ssd_sorted desc1 d2 ! 0 \<le> x"
  using ssd_sorted_props(1,2) [of desc1 d2]
  by (metis in_set_conv_nth sorted_nth_mono zero_le)

lemma ssd_sorted_nonneg:
  "i < length d2 + 2 \<Longrightarrow> 0 \<le> ssd_sorted desc1 d2 ! i"
proof -
  assume "i < length d2 + 2"
  then have "ssd_sorted desc1 d2 ! i \<in> set (ssd_sorted desc1 d2)"
    by (intro nth_mem) (simp add: ssd_sorted_props(2))
  then show ?thesis
    unfolding ssd_sorted_props(3) using desc_ssd_nonneg by (auto simp: SSD_INIT_def)
qed

lemma ieee_div_gt_real:
  "0 \<le> a \<Longrightarrow> a \<le> b \<Longrightarrow> 0 \<le> c \<Longrightarrow> ieee_div_gt a b c \<longleftrightarrow> a / b > c"
  by (auto simp: ieee_div_gt_def)

lemma nn_match_one_Inr:
  assumes ex: "\<exists>b\<in>set d2. desc_ssd desc1 b < SSD_INIT"
  shows "\<exists>m. nn_match_one desc1 d2 t = Inr m \<and>
           (m \<noteq> -1 \<longleftrightarrow> ssd_sorted desc1 d2 ! 0 / ssd_sorted desc1 d2 ! 1 \<le> t\<^sup>2) \<and>
           (m = -1 \<or> 0 \<le> m \<and> nat m < length d2 \<and>
              desc_ssd desc1 (d2 ! nat m) = ssd_sorted desc1 d2 ! 0)"
proof -
  obtain b n db where st: "nn_search desc1 d2 = (b, n, db)"
    by (cases "nn_search desc1 d2")
  have b: "b = ssd_sorted desc1 d2 ! 0" and n: "n = ssd_sorted desc1 d2 ! 1"
    using nn_search_sorted [of desc1 d2] by (simp_all add: st)
  have b0: "0 \<le> b" unfolding b by (rule ssd_sorted_nonneg) simp
  have bn: "b \<le> n" unfolding b n
    using ssd_sorted_props(1,2) [of desc1 d2] by (intro sorted_nth_mono) simp_all
  from ex obtain x where x: "x \<in> set d2" "desc_ssd desc1 x < SSD_INIT" by blast
  then have "desc_ssd desc1 x \<in> set (ssd_sorted desc1 d2)"
    by (simp add: ssd_sorted_props(3))
  then have "b \<le> desc_ssd desc1 x" unfolding b by (rule ssd_sorted_0_le)
  with x(2) have bS: "b < SSD_INIT" by simp
  have "best_ok desc1 d2 (b, n, db)" using nn_search_best_ok [of desc1 d2] by (simp add: st)
  with bS obtain j where j: "db = Some j" "j < length d2" "desc_ssd desc1 (d2 ! j) = b"
    by (auto simp: best_ok_def split: option.splits)
  have gt: "ieee_div_gt b n (t * t) \<longleftrightarrow> b / n > t\<^sup>2"
    using ieee_div_gt_real [OF b0 bn, of "t * t"] by (simp add: power2_eq_square)
  have "\<exists>m. nn_match_one desc1 d2 t = Inr m \<and> (m \<noteq> -1 \<longleftrightarrow> b / n \<le> t\<^sup>2) \<and>
           (m = -1 \<or> 0 \<le> m \<and> nat m < length d2 \<and> desc_ssd desc1 (d2 ! nat m) = b)"
    using j gt by (auto simp: nn_match_one_def st)
  then show ?thesis
    unfolding b n .
qed

lemma fold_nn_match_step:
  assumes "n \<le> length d1" "length init = length d1"
    and "\<forall>i<n. \<exists>m. nn_match_one (d1 ! i) d2 t = Inr m"
  shows "\<exists>ms. fold (nn_match_step d1 d2 t) [0..<n] (Inr init) = Inr ms \<and>
           length ms = length d1 \<and>
           (\<forall>i<n. nn_match_one (d1 ! i) d2 t = Inr (ms ! i)) \<and>
           (\<forall>i. n \<le> i \<longrightarrow> ms ! i = init ! i)"
  using assms
proof (induction n)
  case 0
  then show ?case by simp
next
  case (Suc n)
  from Suc.prems have "n \<le> length d1" "\<forall>i<n. \<exists>m. nn_match_one (d1 ! i) d2 t = Inr m"
    by simp_all
  from Suc.IH [OF this(1) Suc.prems(2) this(2)]
  obtain ms where ms: "fold (nn_match_step d1 d2 t) [0..<n] (Inr init) = Inr ms"
    "length ms = length d1" "\<forall>i<n. nn_match_one (d1 ! i) d2 t = Inr (ms ! i)"
    "\<forall>i. n \<le> i \<longrightarrow> ms ! i = init ! i"
    by blast
  from Suc.prems(3) obtain m where m: "nn_match_one (d1 ! n) d2 t = Inr m" by blast
  have n: "n < length ms" using Suc.prems(1) ms(2) by simp
  have "fold (nn_match_step d1 d2 t) [0..<Suc n] (Inr init) = Inr (ms[n := m])"
    by (simp add: ms(1) nn_match_step_def m)
  moreover have "\<forall>i<Suc n. nn_match_one (d1 ! i) d2 t = Inr (ms[n := m] ! i)"
    using ms(3) m n by (auto simp: less_Suc_eq nth_list_update)
  moreover have "\<forall>i. Suc n \<le> i \<longrightarrow> ms[n := m] ! i = init ! i"
    using ms(4) by (auto simp: nth_list_update)
  ultimately show ?case using ms(2) by simp
qed

lemma nn_match_entries:
  assumes "mem_ok" and "\<forall>i<length d1. \<exists>m. nn_match_one (d1 ! i) d2 t = Inr m"
  shows "\<exists>ms. SIFT3D_nn_match mem_ok d1 d2 t = Inr ms \<and> length ms = length d1 \<and>
           (\<forall>i<length d1. nn_match_one (d1 ! i) d2 t = Inr (ms ! i))"
  using fold_nn_match_step [of "length d1" d1 "replicate (length d1) (-1)" d2 t] assms
  by (auto simp: SIFT3D_nn_match_def)

text \<open>
  Claim C5, amended. Let the allocation succeed and let every descriptor of \<open>A\<close> have
  some descriptor of \<open>B\<close> at a squared distance below the initial value \<open>1e30\<close>. Then
  \<^verbatim>\<open>SIFT3D_nn_match\<close> succeeds with an integer array of length \<open>|A|\<close>, and for every \<open>a\<close>
  in \<open>A\<close> a match is recorded if and only if \<open>ssd_best / ssd_second \<le> nn_thresh\<^sup>2\<close>
  (the boundary is accepted: the code rejects on \<open>>\<close>), where \<open>ssd_best\<close> and
  \<open>ssd_second\<close> are the two smallest sums of squared bin differences over all of \<open>B\<close>,
  capped by \<open>1e30\<close>. An entry is either \<open>-1\<close> (no match) or the index of a descriptor
  of \<open>B\<close> at the best distance.
\<close>

theorem nn_match_ratio_test:
  assumes mem: "mem_ok"
    and fin: "\<forall>a\<in>set d1. \<exists>b\<in>set d2. desc_ssd a b < SSD_INIT"
  shows "\<exists>matches. SIFT3D_nn_match mem_ok d1 d2 nn_thresh = Inr matches \<and>
           length matches = length d1 \<and>
           (\<forall>i<length d1.
              (matches ! i \<noteq> -1 \<longleftrightarrow>
                 ssd_sorted (d1 ! i) d2 ! 0 / ssd_sorted (d1 ! i) d2 ! 1 \<le> nn_thresh\<^sup>2) \<and>
              (matches ! i = -1 \<or>
                 0 \<le> matches ! i \<and> nat (matches ! i) < length d2 \<and>
                 desc_ssd (d1 ! i) (d2 ! nat (matches ! i)) = ssd_sorted (d1 ! i) d2 ! 0))"
proof -
  have one: "\<forall>i<length d1. \<exists>m. nn_match_one (d1 ! i) d2 nn_thresh = Inr m \<and>
           (m \<noteq> -1 \<longleftrightarrow> ssd_sorted (d1 ! i) d2 ! 0 / ssd_sorted (d1 ! i) d2 ! 1 \<le> nn_thresh\<^sup>2) \<and>
           (m = -1 \<or> 0 \<le> m \<and> nat m < length d2 \<and>
              desc_ssd (d1 ! i) (d2 ! nat m) = ssd_sorted (d1 ! i) d2 ! 0)"
    using fin nn_match_one_Inr by simp
  then have "\<forall>i<length d1. \<exists>m. nn_match_one (d1 ! i) d2 nn_thresh = Inr m" by blast
  from nn_match_entries [OF mem this]
  obtain ms where ms: "SIFT3D_nn_match mem_ok d1 d2 nn_thresh = Inr ms" "length ms = length d1"
    "\<forall>i<length d1. nn_match_one (d1 ! i) d2 nn_thresh = Inr (ms ! i)"
    by blast
  show ?thesis
  proof (intro exI conjI allI impI)
    show "SIFT3D_nn_match mem_ok d1 d2 nn_thresh = Inr ms" by (rule ms(1))
    show "length ms = length d1" by (rule ms(2))
  next
    fix i assume i: "i < length d1"
    from one i obtain m where m: "nn_match_one (d1 ! i) d2 nn_thresh = Inr m"
      "m \<noteq> -1 \<longleftrightarrow> ssd_sorted (d1 ! i) d2 ! 0 / ssd_sorted (d1 ! i) d2 ! 1 \<le> nn_thresh\<^sup>2"
      "m = -1 \<or> 0 \<le> m \<and> nat m < length d2 \<and>
              desc_ssd (d1 ! i) (d2 ! nat m) = ssd_sorted (d1 ! i) d2 ! 0"
      by blast
    from ms(3) i m(1) have eq: "ms ! i = m" by simp
    show "ms ! i \<noteq> -1 \<longleftrightarrow> ssd_sorted (d1 ! i) d2 ! 0 / ssd_sorted (d1 ! i) d2 ! 1 \<le> nn_thresh\<^sup>2"
      unfolding eq by (rule m(2))
    show "ms ! i = -1 \<or> 0 \<le> ms ! i \<and> nat (ms ! i) < length d2 \<and>
                 desc_ssd (d1 ! i) (d2 ! nat (ms ! i)) = ssd_sorted (d1 ! i) d2 ! 0"
      unfolding eq by (rule m(3))
  qed
qed

text \<open>The hypotheses hold for one descriptor matched against two.\<close>

lemma nn_search_two:
  "nn_search (bin0_desc 0) [bin0_desc 1, bin0_desc 2] = (1, 4, Some 0)"
  by (simp add: nn_search_def nn_step_def desc_ssd_bin0 SSD_INIT_def SIFT3D_MIN_def
        upt_rec [of 0] upt_rec [of 1] upt_rec [of 2])

theorem nn_match_ratio_test_witness:
  "\<exists>matches. SIFT3D_nn_match True [bin0_desc 0] [bin0_desc 1, bin0_desc 2] (1 / 2) = Inr matches \<and>
     length matches = length [bin0_desc 0] \<and>
     (\<forall>i<length [bin0_desc 0].
        (matches ! i \<noteq> -1 \<longleftrightarrow>
           ssd_sorted ([bin0_desc 0] ! i) [bin0_desc 1, bin0_desc 2] ! 0 /
           ssd_sorted ([bin0_desc 0] ! i) [bin0_desc 1, bin0_desc 2] ! 1 \<le> (1 / 2)\<^sup>2) \<and>
        (matches ! i = -1 \<or>
           0 \<le> matches ! i \<and> nat (matches ! i) < length [bin0_desc 1, bin0_desc 2] \<and>
           desc_ssd ([bin0_desc 0] ! i) ([bin0_desc 1, bin0_desc 2] ! nat (matches ! i)) =
             ssd_sorted ([bin0_desc 0] ! i) [bin0_desc 1, bin0_desc 2] ! 0))"
proof -
  have fin: "\<forall>a\<in>set [bin0_desc 0]. \<exists>b\<in>set [bin0_desc 1, bin0_desc 2]. desc_ssd a b < SSD_INIT"
    by (simp add: desc_ssd_bin0 SSD_INIT_def)
  show ?thesis
    by (rule nn_match_ratio_test [OF TrueI fin])
qed

text \<open>
  Claim C5, as the specification states it, at \<open>A = [a]\<close>, \<open>B = [b\<^sub>1, b\<^sub>2]\<close> with squared
  distances 1 and 4 and \<open>nn_thresh = 1/2\<close>: the ratio \<open>1/4\<close> is not below
  \<open>nn_thresh\<^sup>2 = 1/4\<close>, and yet the match to \<open>b\<^sub>1\<close> (index 0) is recorded.
\<close>

theorem nn_match_ratio_test_counterexample:
  "SIFT3D_nn_match True [bin0_desc 0] [bin0_desc 1, bin0_desc 2] (1 / 2) = Inr [0] \<and>
   ssd_sorted (bin0_desc 0) [bin0_desc 1, bin0_desc 2] = [1, 4, SSD_INIT, SSD_INIT] \<and>
   \<not> ((1::real) / 4 < (1 / 2)\<^sup>2)"
proof -
  have "ssd_sorted (bin0_desc 0) [bin0_desc 1, bin0_desc 2] = [1, 4, SSD_INIT, SSD_INIT]"
    by (simp add: ssd_sorted_def desc_ssd_bin0 SSD_INIT_def)
  moreover have "SIFT3D_nn_match True [bin0_desc 0] [bin0_desc 1, bin0_desc 2] (1 / 2) = Inr [0]"
    by (simp add: SIFT3D_nn_match_def nn_match_step_def nn_match_one_def nn_search_two
          ieee_div_gt_def)
  ultimately show ?thesis by (simp add: power2_eq_square)
qed

lemma nn_search_single:
  "nn_search desc1 [b] =
     (if desc_ssd desc1 b < SSD_INIT then (desc_ssd desc1 b, SSD_INIT, Some 0)
      else (SSD_INIT, SSD_INIT, None))"
  by (auto simp: nn_search_def nn_step_def SIFT3D_MIN_def Let_def)

lemma nn_match_one_single:
  assumes "desc_ssd desc1 b < SSD_INIT"
  shows "nn_match_one desc1 [b] t =
           Inr (if desc_ssd desc1 b \<le> t\<^sup>2 * SSD_INIT then 0 else -1)"
proof -
  have S: "0 < SSD_INIT" by (simp add: SSD_INIT_def)
  have "ieee_div_gt (desc_ssd desc1 b) SSD_INIT (t * t) \<longleftrightarrow>
          \<not> desc_ssd desc1 b \<le> t\<^sup>2 * SSD_INIT"
    using S by (auto simp: ieee_div_gt_def power2_eq_square field_simps)
  then show ?thesis
    using assms by (simp add: nn_match_one_def nn_search_single)
qed

text \<open>
  Claim C10, amended. Let \<^verbatim>\<open>d2\<close> hold exactly one descriptor \<open>b\<close>, let the allocation
  succeed and let every descriptor of \<^verbatim>\<open>d1\<close> be at a squared distance below \<open>1e30\<close> from
  \<open>b\<close>. Then \<^verbatim>\<open>SIFT3D_nn_match\<close> succeeds, the second-best distance keeps its initial
  value \<open>1e30\<close>, and every descriptor of \<^verbatim>\<open>d1\<close> whose squared distance to \<open>b\<close> is below
  \<open>nn_thresh\<^sup>2 * 1e30\<close> is matched to index 0.
\<close>

theorem nn_match_single_candidate:
  assumes mem: "mem_ok"
    and fin: "\<forall>a\<in>set d1. desc_ssd a b < SSD_INIT"
  shows "\<exists>matches. SIFT3D_nn_match mem_ok d1 [b] nn_thresh = Inr matches \<and>
           length matches = length d1 \<and>
           (\<forall>i<length d1.
              fst (snd (nn_search (d1 ! i) [b])) = SSD_INIT \<and>
              (desc_ssd (d1 ! i) b < nn_thresh\<^sup>2 * SSD_INIT \<longrightarrow> matches ! i = 0))"
proof -
  have one: "\<forall>i<length d1. nn_match_one (d1 ! i) [b] nn_thresh =
               Inr (if desc_ssd (d1 ! i) b \<le> nn_thresh\<^sup>2 * SSD_INIT then 0 else -1)"
    using fin nn_match_one_single by simp
  then have "\<forall>i<length d1. \<exists>m. nn_match_one (d1 ! i) [b] nn_thresh = Inr m" by simp
  from nn_match_entries [OF mem this]
  obtain ms where ms: "SIFT3D_nn_match mem_ok d1 [b] nn_thresh = Inr ms" "length ms = length d1"
    "\<forall>i<length d1. nn_match_one (d1 ! i) [b] nn_thresh = Inr (ms ! i)"
    by blast
  have "\<forall>i<length d1. fst (snd (nn_search (d1 ! i) [b])) = SSD_INIT \<and>
              (desc_ssd (d1 ! i) b < nn_thresh\<^sup>2 * SSD_INIT \<longrightarrow> ms ! i = 0)"
    using one ms(3) by (auto simp: nn_search_single)
  with ms(1,2) show ?thesis by blast
qed

theorem nn_match_single_candidate_witness:
  "\<exists>matches. SIFT3D_nn_match True [bin0_desc 0, bin0_desc 3] [bin0_desc 1] 2 = Inr matches \<and>
     length matches = 2 \<and> matches ! 0 = 0 \<and> matches ! 1 = 0"
proof -
  have fin: "\<forall>a\<in>set [bin0_desc 0, bin0_desc 3]. desc_ssd a (bin0_desc 1) < SSD_INIT"
    by (simp add: desc_ssd_bin0 SSD_INIT_def)
  show ?thesis
    using nn_match_single_candidate [OF TrueI fin, of 2]
    by (auto simp: desc_ssd_bin0 SSD_INIT_def less_Suc_eq)
qed

text \<open>
  Claim C10, as stated, at a descriptor whose squared distance to the only candidate
  is \<open>4e30\<close>, with \<open>nn_thresh = 3\<close>: the distance is below \<open>nn_thresh\<^sup>2 * 1e30\<close>, but it
  is not below the initial \<^verbatim>\<open>ssd_best\<close>, so \<^verbatim>\<open>desc_best\<close> stays \<^verbatim>\<open>NULL\<close>, the ratio
  \<open>1e30 / 1e30\<close> passes the test and no match to index 0 is recorded: the index is
  computed from the null pointer.
\<close>

theorem nn_match_single_candidate_counterexample:
  "desc_ssd (bin0_desc (2 * 10 ^ 15)) (bin0_desc 0) < 3\<^sup>2 * SSD_INIT \<and>
   SIFT3D_nn_match True [bin0_desc (2 * 10 ^ 15)] [bin0_desc 0] 3 = Inl NullBest"
  by (simp add: SIFT3D_nn_match_def nn_match_step_def nn_match_one_def nn_search_single
        desc_ssd_bin0 SSD_INIT_def ieee_div_gt_def)


subsection \<open>Claim C9: refined keypoints stay inside the level\<close>





lemma sub_DBL_EPSILON_exact: "3 \<le> k \<Longrightarrow> sub_DBL_EPSILON k = real_of_int k"
  by (simp add: sub_DBL_EPSILON_def)







text \<open>A concrete run: the peak at (2, 2, 2) moves to \<open>xd = 2.4\<close>.\<close>

lemma peak_Keypoint_ok:
  "\<forall>key\<in>set [peak_Keypoint]. key_interior peak_Pyramid key \<and>
             im_s (levels peak_Pyramid (key_o key) (key_s key - 1)) \<le>
             im_s (levels peak_Pyramid (key_o key) (key_s key + 1))"
  by (simp add: key_interior_def peak_Keypoint_def peak_Pyramid_def blank_Image_def)






subsection \<open>Claim C4: which voxels are accepted as extrema\<close>

lemma set_IM_LOOP_LIMITED:
  "(x, y, z) \<in> set (IM_LOOP_LIMITED xs xe ys ye zs ze) \<longleftrightarrow>
     xs \<le> x \<and> x \<le> xe \<and> ys \<le> y \<and> y \<le> ye \<and> zs \<le> z \<and> z \<le> ze"
  by (auto simp: IM_LOOP_LIMITED_def image_iff)

lemma fold_SIFT3D_MAX:
  fixes f :: "'a \<Rightarrow> real"
  shows "fold (\<lambda>v m. SIFT3D_MAX m (f v)) vs m0 = Max (insert m0 (f ` set vs))"
proof (induction vs arbitrary: m0)
  case Nil
  then show ?case by simp
next
  case (Cons v vs)
  have "Max (insert (SIFT3D_MAX m0 (f v)) (f ` set vs)) = Max (insert m0 (insert (f v) (f ` set vs)))"
  proof -
    have "SIFT3D_MAX m0 (f v) = max m0 (f v)" by (simp add: SIFT3D_MAX_def max_def)
    moreover have "Max (insert (max m0 (f v)) (f ` set vs)) = Max (insert m0 (insert (f v) (f ` set vs)))"
      by (cases "set vs = {}") (simp_all add: max.assoc)
    ultimately show ?thesis by simp
  qed
  then show ?case by (simp add: Cons.IH)
qed

lemma level_dogmax_Max:
  "level_dogmax cur =
     Max (insert 0 {\<bar>im_vox cur x y z\<bar> | x y z.
            0 \<le> x \<and> x < im_nx cur \<and> 0 \<le> y \<and> y < im_ny cur \<and> 0 \<le> z \<and> z < im_nz cur})"
proof -
  have "level_dogmax cur = fold (\<lambda>v m. SIFT3D_MAX m (case v of (x, y, z) \<Rightarrow> \<bar>im_vox cur x y z\<bar>)) (IM_LOOP cur) 0"
    unfolding level_dogmax_def by (rule arg_cong [where f = "\<lambda>g. fold g (IM_LOOP cur) 0"]) auto
  also have "\<dots> = Max (insert 0 ((\<lambda>v. case v of (x, y, z) \<Rightarrow> \<bar>im_vox cur x y z\<bar>) ` set (IM_LOOP cur)))"
    by (rule fold_SIFT3D_MAX)
  also have "(\<lambda>v. case v of (x, y, z) \<Rightarrow> \<bar>im_vox cur x y z\<bar>) ` set (IM_LOOP cur) =
       {\<bar>im_vox cur x y z\<bar> | x y z.
            0 \<le> x \<and> x < im_nx cur \<and> 0 \<le> y \<and> y < im_ny cur \<and> 0 \<le> z \<and> z < im_nz cur}"
  proof (intro set_eqI iffI)
    fix r assume "r \<in> (\<lambda>v. case v of (x, y, z) \<Rightarrow> \<bar>im_vox cur x y z\<bar>) ` set (IM_LOOP cur)"
    then obtain x y z where "(x, y, z) \<in> set (IM_LOOP cur)" "r = \<bar>im_vox cur x y z\<bar>"
      by auto
    then show "r \<in> {\<bar>im_vox cur x y z\<bar> | x y z.
            0 \<le> x \<and> x < im_nx cur \<and> 0 \<le> y \<and> y < im_ny cur \<and> 0 \<le> z \<and> z < im_nz cur}"
      by (auto simp: IM_LOOP_def set_IM_LOOP_LIMITED)
  next
    fix r assume "r \<in> {\<bar>im_vox cur x y z\<bar> | x y z.
            0 \<le> x \<and> x < im_nx cur \<and> 0 \<le> y \<and> y < im_ny cur \<and> 0 \<le> z \<and> z < im_nz cur}"
    then obtain x y z where "r = \<bar>im_vox cur x y z\<bar>" "(x, y, z) \<in> set (IM_LOOP cur)"
      by (auto simp: IM_LOOP_def set_IM_LOOP_LIMITED)
    then show "r \<in> (\<lambda>v. case v of (x, y, z) \<Rightarrow> \<bar>im_vox cur x y z\<bar>) ` set (IM_LOOP cur)"
      by force
  qed
  finally show ?thesis .
qed

lemma extremum_test_axis:
  "extremum_test pk prev cur next x y z \<longleftrightarrow> axis_extremum pk prev cur next x y z"
  unfolding extremum_test_def axis_extremum_def Let_def CMP_NEIGHBORS_def beats_def
    axis_offsets_def face_offsets_def
  by (simp add: abs_if) argo

lemma grow_wf: "fst st \<le> length (snd st) \<Longrightarrow> fst (grow cs st) \<le> length (snd (grow cs st))"
  by (cases st) (simp add: grow_def)

lemma grow_grow:
  "fst st \<le> length (snd st) \<Longrightarrow> grow cs2 (grow cs1 st) = grow (cs1 @ cs2) st"
  by (cases st) (simp add: grow_def)

lemma grow_Nil: "grow [] st = st"
  by (cases st) (simp add: grow_def)

lemma fold_add_candidate:
  assumes "fst st \<le> length (snd st)"
  shows "fold (\<lambda>v st. if P v then add_candidate (f v) st else st) vs st =
           grow (map f (filter P vs)) st"
  using assms
proof (induction vs arbitrary: st)
  case Nil
  then show ?case by (simp add: grow_Nil)
next
  case (Cons v vs)
  show ?case
  proof (cases "P v")
    case True
    have a: "add_candidate (f v) st = grow [f v] st"
      by (cases st) (simp add: add_candidate_def grow_def)
    have w: "fst (grow [f v] st) \<le> length (snd (grow [f v] st))"
      by (rule grow_wf [OF Cons.prems])
    show ?thesis
      using True Cons.IH [OF w] by (simp add: a grow_grow [OF Cons.prems])
  next
    case False
    then show ?thesis using Cons.IH [OF Cons.prems] by simp
  qed
qed

lemma detect_level_grow:
  assumes "fst st \<le> length (snd st)"
  shows "detect_level pt dg oc s st = grow (level_candidates pt dg oc s) st"
proof -
  let ?cur = "levels dg oc s"
  let ?P = "\<lambda>v. case v of (x, y, z) \<Rightarrow>
      extremum_test (pt * level_dogmax ?cur) (levels dg oc (s - 1)) ?cur (levels dg oc (s + 1)) x y z"
  let ?f = "\<lambda>v. case v of (x, y, z) \<Rightarrow> candidate oc s x y z"
  have "(\<lambda>(x, y, z) st. if extremum_test (pt * level_dogmax ?cur) (levels dg oc (s - 1)) ?cur
              (levels dg oc (s + 1)) x y z
            then add_candidate (candidate oc s x y z) st else st) =
        (\<lambda>v st. if ?P v then add_candidate (?f v) st else st)"
    by (auto simp: fun_eq_iff)
  then show ?thesis
    unfolding detect_level_def level_candidates_def Let_def
    using fold_add_candidate [OF assms, of ?P ?f] by simp
qed

lemma fold_grow:
  assumes "fst st \<le> length (snd st)" "\<And>v st. fst st \<le> length (snd st) \<Longrightarrow> h v st = grow (g v) st"
  shows "fold h vs st = grow (concat (map g vs)) st"
  using assms(1)
proof (induction vs arbitrary: st)
  case Nil
  then show ?case by (simp add: grow_Nil)
next
  case (Cons v vs)
  have w: "fst (grow (g v) st) \<le> length (snd (grow (g v) st))"
    by (rule grow_wf [OF Cons.prems])
  show ?case
    using Cons.IH [OF w] by (simp add: assms(2) [OF Cons.prems] grow_grow [OF Cons.prems])
qed

lemma detect_extrema_buf:
  assumes "3 \<le> num_levels (dog sift3d)" "kp_buf kp = []"
  shows "fst (detect_extrema sift3d kp) = SIFT3D_SUCCESS"
    and "kp_buf (snd (detect_extrema sift3d kp)) =
           concat (map (\<lambda>oc. concat (map (\<lambda>s. level_candidates (peak_thresh sift3d) (dog sift3d) oc s)
                                      [first_level (dog sift3d) + 1..last_level (dog sift3d) - 1]))
                       [first_octave (dog sift3d)..last_octave (dog sift3d)])"
proof -
  let ?dg = "dog sift3d"
  let ?g = "\<lambda>oc. concat (map (\<lambda>s. level_candidates (peak_thresh sift3d) ?dg oc s)
                                      [first_level ?dg + 1..last_level ?dg - 1])"
  have inner: "\<And>oc st. fst st \<le> length (snd st) \<Longrightarrow>
      fold (\<lambda>s st. detect_level (peak_thresh sift3d) ?dg oc s st)
           [first_level ?dg + 1..last_level ?dg - 1] st = grow (?g oc) st"
    by (rule fold_grow) (simp_all add: detect_level_grow)
  have outer: "fold (\<lambda>oc st. fold (\<lambda>s st. detect_level (peak_thresh sift3d) ?dg oc s st)
                                     [first_level ?dg + 1..last_level ?dg - 1] st)
                       [first_octave ?dg..last_octave ?dg] (0, []) =
               grow (concat (map ?g [first_octave ?dg..last_octave ?dg])) (0, [])"
    by (rule fold_grow) (simp_all add: inner)
  show "fst (detect_extrema sift3d kp) = SIFT3D_SUCCESS"
    using assms(1) by (simp add: detect_extrema_def Let_def split: prod.splits)
  show "kp_buf (snd (detect_extrema sift3d kp)) = concat (map ?g [first_octave ?dg..last_octave ?dg])"
    using assms by (simp add: detect_extrema_def Let_def outer grow_def split: prod.splits)
qed

lemma candidate_inj:
  "candidate oc s x y z = candidate oc' s' x' y' z' \<longleftrightarrow>
     oc = oc' \<and> s = s' \<and> x = x' \<and> y = y' \<and> z = z'"
  by (auto simp: candidate_def)

lemma level_candidates_iff:
  "candidate oc s x y z \<in> set (level_candidates pt dg oc' s') \<longleftrightarrow>
     oc = oc' \<and> s = s' \<and>
     (x, y, z) \<in> set (IM_LOOP_LIMITED 1 (im_nx (levels dg oc' s') - 2) 1
                      (im_ny (levels dg oc' s') - 2) 1 (im_nz (levels dg oc' s') - 2)) \<and>
     extremum_test (pt * level_dogmax (levels dg oc' s')) (levels dg oc' (s' - 1))
       (levels dg oc' s') (levels dg oc' (s' + 1)) x y z"
  unfolding level_candidates_def Let_def set_map set_filter image_iff
  by (auto simp: candidate_inj)

lemma upto_0_2: "[0..2] = [0, 1, 2::int]"
  by (simp add: upto.simps)

lemma ridge_dogmax: "level_dogmax (levels ridge_Pyramid 0 0) = 1"
  by (simp add: level_dogmax_def IM_LOOP_def IM_LOOP_LIMITED_def ridge_Pyramid_def
        blank_Image_def upto_0_2 SIFT3D_MAX_def)

lemma ridge_test:
  "extremum_test (3 / 100 * 1) (levels ridge_Pyramid 0 (0 - 1)) (levels ridge_Pyramid 0 0)
     (levels ridge_Pyramid 0 (0 + 1)) 1 1 1"
  by (simp add: extremum_test_def CMP_NEIGHBORS_def ridge_Pyramid_def blank_Image_def)

lemma ridge_not_spec:
  "\<not> spec_extremum (3 / 100 * 1) (levels ridge_Pyramid 0 (-1)) (levels ridge_Pyramid 0 0)
     (levels ridge_Pyramid 0 1) 1 1 1"
  by (simp add: spec_extremum_def beats_def cube_offsets_def face_offsets_def ridge_Pyramid_def
        blank_Image_def)

text \<open>
  Claim C4, amended. With at least three DoG levels and an empty store,
  \<^verbatim>\<open>detect_extrema\<close> succeeds, and the voxel \<open>(x, y, z)\<close> of level \<open>s\<close> in octave \<open>oc\<close> is
  stored as a candidate if and only if the level is not the first or last of its
  octave, the voxel is interior, \<open>|p| > peak_thresh * max |DoG[oc][s]|\<close>, and \<open>p\<close> is
  strictly greater than (or strictly less than) its 6 face neighbours in its own
  level and, in each of the two neighbouring levels, the voxel at the same position
  and its 6 face neighbours: 20 comparisons, not the full neighbourhood.
\<close>

theorem detect_extrema_accepts:
  assumes "3 \<le> num_levels (dog sift3d)" and "kp_buf kp = []"
  shows "fst (detect_extrema sift3d kp) = SIFT3D_SUCCESS \<and>
    (candidate oc s x y z \<in> set (kp_buf (snd (detect_extrema sift3d kp))) \<longleftrightarrow>
       first_octave (dog sift3d) \<le> oc \<and> oc \<le> last_octave (dog sift3d) \<and>
       first_level (dog sift3d) + 1 \<le> s \<and> s \<le> last_level (dog sift3d) - 1 \<and>
       1 \<le> x \<and> x \<le> im_nx (levels (dog sift3d) oc s) - 2 \<and>
       1 \<le> y \<and> y \<le> im_ny (levels (dog sift3d) oc s) - 2 \<and>
       1 \<le> z \<and> z \<le> im_nz (levels (dog sift3d) oc s) - 2 \<and>
       axis_extremum
         (peak_thresh sift3d *
            Max (insert 0 {\<bar>im_vox (levels (dog sift3d) oc s) i j k\<bar> | i j k.
                   0 \<le> i \<and> i < im_nx (levels (dog sift3d) oc s) \<and>
                   0 \<le> j \<and> j < im_ny (levels (dog sift3d) oc s) \<and>
                   0 \<le> k \<and> k < im_nz (levels (dog sift3d) oc s)}))
         (levels (dog sift3d) oc (s - 1)) (levels (dog sift3d) oc s)
         (levels (dog sift3d) oc (s + 1)) x y z)"
proof -
  have "candidate oc s x y z \<in> set (kp_buf (snd (detect_extrema sift3d kp))) \<longleftrightarrow>
          first_octave (dog sift3d) \<le> oc \<and> oc \<le> last_octave (dog sift3d) \<and>
          first_level (dog sift3d) + 1 \<le> s \<and> s \<le> last_level (dog sift3d) - 1 \<and>
          (x, y, z) \<in> set (IM_LOOP_LIMITED 1 (im_nx (levels (dog sift3d) oc s) - 2) 1
                      (im_ny (levels (dog sift3d) oc s) - 2) 1
                      (im_nz (levels (dog sift3d) oc s) - 2)) \<and>
          extremum_test (peak_thresh sift3d * level_dogmax (levels (dog sift3d) oc s))
            (levels (dog sift3d) oc (s - 1)) (levels (dog sift3d) oc s)
            (levels (dog sift3d) oc (s + 1)) x y z"
    unfolding detect_extrema_buf(2) [OF assms]
    by (auto simp: level_candidates_iff)
  then show ?thesis
    unfolding set_IM_LOOP_LIMITED extremum_test_axis level_dogmax_Max
    using detect_extrema_buf(1) [OF assms] by simp
qed

lemma ridge_ok: "3 \<le> num_levels (dog ridge_SIFT3D)" "kp_buf empty_store = []"
  by (simp_all add: ridge_SIFT3D_def ridge_Pyramid_def empty_store_def)

theorem detect_extrema_accepts_witness:
  "fst (detect_extrema ridge_SIFT3D empty_store) = SIFT3D_SUCCESS \<and>
   candidate 0 0 1 1 1 \<in> set (kp_buf (snd (detect_extrema ridge_SIFT3D empty_store))) \<and>
   axis_extremum (peak_thresh ridge_SIFT3D * level_dogmax (levels ridge_Pyramid 0 0))
     (levels ridge_Pyramid 0 (-1)) (levels ridge_Pyramid 0 0) (levels ridge_Pyramid 0 1) 1 1 1"
proof -
  have a: "axis_extremum (peak_thresh ridge_SIFT3D * level_dogmax (levels ridge_Pyramid 0 0))
     (levels ridge_Pyramid 0 (-1)) (levels ridge_Pyramid 0 0) (levels ridge_Pyramid 0 1) 1 1 1"
    using ridge_test
    by (simp add: extremum_test_axis ridge_dogmax ridge_SIFT3D_def fresh_SIFT3D_def)
  have d: "dog ridge_SIFT3D = ridge_Pyramid" by (simp add: ridge_SIFT3D_def)
  have r: "first_octave ridge_Pyramid = 0" "last_octave ridge_Pyramid = 0"
    "first_level ridge_Pyramid = -1" "last_level ridge_Pyramid = 1"
    "im_nx (levels ridge_Pyramid 0 0) = 3" "im_ny (levels ridge_Pyramid 0 0) = 3"
    "im_nz (levels ridge_Pyramid 0 0) = 3"
    by (simp_all add: ridge_Pyramid_def blank_Image_def)
  show ?thesis
    using detect_extrema_accepts [OF ridge_ok, of 0 0 1 1 1] a
    unfolding level_dogmax_Max d by (simp add: r)
qed

text \<open>
  Claim C4, as the specification states it, on the three levels above: the centre
  voxel of the middle level exceeds the threshold and its 20 compared neighbours, so
  the code stores it; but the diagonal neighbours in the outer levels, which are
  among the voxels at \<open>(x \<plusminus> {0,1}, y \<plusminus> {0,1}, z \<plusminus> {0,1})\<close>, are larger, so it is neither
  strictly greater nor strictly less than all the voxels the specification names.
\<close>

theorem detect_extrema_accepts_counterexample:
  "candidate 0 0 1 1 1 \<in> set (kp_buf (snd (detect_extrema ridge_SIFT3D empty_store))) \<and>
   \<not> spec_extremum (peak_thresh ridge_SIFT3D * level_dogmax (levels ridge_Pyramid 0 0))
       (levels ridge_Pyramid 0 (-1)) (levels ridge_Pyramid 0 0) (levels ridge_Pyramid 0 1) 1 1 1"
proof -
  have "candidate 0 0 1 1 1 \<in> set (level_candidates (peak_thresh ridge_SIFT3D) ridge_Pyramid 0 0)"
    unfolding level_candidates_iff
    using ridge_test
    by (simp add: set_IM_LOOP_LIMITED ridge_dogmax ridge_SIFT3D_def fresh_SIFT3D_def)
       (simp add: ridge_Pyramid_def blank_Image_def)
  then have "candidate 0 0 1 1 1 \<in> set (kp_buf (snd (detect_extrema ridge_SIFT3D empty_store)))"
    unfolding detect_extrema_buf(2) [OF ridge_ok]
    by (simp add: ridge_SIFT3D_def ridge_Pyramid_def upto.simps)
  moreover have "\<not> spec_extremum (peak_thresh ridge_SIFT3D * level_dogmax (levels ridge_Pyramid 0 0))
       (levels ridge_Pyramid 0 (-1)) (levels ridge_Pyramid 0 0) (levels ridge_Pyramid 0 1) 1 1 1"
    using ridge_not_spec by (simp add: ridge_dogmax ridge_SIFT3D_def fresh_SIFT3D_def)
  ultimately show ?thesis by simp
qed


subsection \<open>Claim C2: the DoG pyramid\<close>

lemma set_PYR_LOOP:
  "(oc, s) \<in> set (PYR_LOOP pyr) \<longleftrightarrow>
     first_octave pyr \<le> oc \<and> oc \<le> last_octave pyr \<and> first_level pyr \<le> s \<and> s \<le> last_level pyr"
  by (auto simp: PYR_LOOP_def image_iff)

lemma build_dog_loop_ok:
  assumes "\<forall>(oc, s)\<in>set ps. alloc_ok oc s"
  shows "fst (build_dog_loop alloc_ok gp ps lv) = SIFT3D_SUCCESS \<and>
         (\<forall>oc s. snd (build_dog_loop alloc_ok gp ps lv) oc s =
            (if (oc, s) \<in> set ps
             then (lv oc s)\<lparr>im_vox := (\<lambda>x y z. im_vox (levels gp oc (s + 1)) x y z -
                                               im_vox (levels gp oc s) x y z)\<rparr>
             else lv oc s))"
  using assms
proof (induction ps arbitrary: lv)
  case Nil
  then show ?case by simp
next
  case (Cons p ps)
  obtain oc s where p: "p = (oc, s)" by (cases p)
  let ?d = "(lv oc s)\<lparr>im_vox := (\<lambda>x y z. im_vox (levels gp oc (s + 1)) x y z -
                                               im_vox (levels gp oc s) x y z)\<rparr>"
  let ?lv = "lv(oc := (lv oc)(s := ?d))"
  have ok: "alloc_ok oc s" using Cons.prems by (simp add: p)
  have step: "build_dog_loop alloc_ok gp (p # ps) lv = build_dog_loop alloc_ok gp ps ?lv"
    by (simp add: p im_subtract_def ok Let_def)
  have rest: "\<forall>(oc, s)\<in>set ps. alloc_ok oc s" using Cons.prems by simp
  from Cons.IH [OF rest, of ?lv]
  have f: "fst (build_dog_loop alloc_ok gp ps ?lv) = SIFT3D_SUCCESS"
    and g: "\<And>a b. snd (build_dog_loop alloc_ok gp ps ?lv) a b =
            (if (a, b) \<in> set ps
             then (?lv a b)\<lparr>im_vox := (\<lambda>x y z. im_vox (levels gp a (b + 1)) x y z -
                                               im_vox (levels gp a b) x y z)\<rparr>
             else ?lv a b)"
    by blast+
  have "snd (build_dog_loop alloc_ok gp ps ?lv) a b =
            (if (a, b) \<in> set (p # ps)
             then (lv a b)\<lparr>im_vox := (\<lambda>x y z. im_vox (levels gp a (b + 1)) x y z -
                                               im_vox (levels gp a b) x y z)\<rparr>
             else lv a b)" for a b
    unfolding g by (cases "a = oc"; cases "b = s") (simp_all add: p)
  with f show ?case
    unfolding step by blast
qed

lemma build_dog_loop_fail:
  assumes "(oc, s) \<in> set ps" "\<not> alloc_ok oc s"
  shows "fst (build_dog_loop alloc_ok gp ps lv) = SIFT3D_FAILURE"
  using assms
proof (induction ps arbitrary: lv)
  case Nil
  then show ?case by simp
next
  case (Cons p ps)
  obtain oc' s' where p: "p = (oc', s')" by (cases p)
  show ?case
  proof (cases "alloc_ok oc' s'")
    case True
    with Cons.prems have "(oc, s) \<in> set ps" by (auto simp: p)
    from Cons.IH [OF this Cons.prems(2)] show ?thesis
      by (simp add: p im_subtract_def True Let_def)
  next
    case False
    then show ?thesis by (simp add: p im_subtract_def Let_def)
  qed
qed

text \<open>
  Claim C2. \<^verbatim>\<open>build_dog\<close> fails if and only if the allocation fails for some level of
  the DoG pyramid. When it succeeds, for every octave \<open>oc\<close> and every level \<open>s\<close> in
  \<open>[first_level, last_level]\<close> the DoG level is, voxel by voxel,
  \<open>dog[oc][s] = gpyr[oc][s+1] - gpyr[oc][s]\<close>: the higher-blur Gaussian level minus the
  lower-blur one. What the code contributes is the pairing of the levels, the range
  of the loop and the early return; the order of the operands and the failure mode
  of the subtraction are those of the model of \<^verbatim>\<open>im_subtract\<close>.
\<close>

theorem build_dog_levels:
  "(fst (build_dog alloc_ok sift3d) = SIFT3D_FAILURE \<longleftrightarrow>
      (\<exists>oc s. first_octave (dog sift3d) \<le> oc \<and> oc \<le> last_octave (dog sift3d) \<and>
              first_level (dog sift3d) \<le> s \<and> s \<le> last_level (dog sift3d) \<and>
              \<not> alloc_ok oc s)) \<and>
   ((\<forall>oc s. first_octave (dog sift3d) \<le> oc \<and> oc \<le> last_octave (dog sift3d) \<and>
            first_level (dog sift3d) \<le> s \<and> s \<le> last_level (dog sift3d) \<longrightarrow> alloc_ok oc s) \<longrightarrow>
    fst (build_dog alloc_ok sift3d) = SIFT3D_SUCCESS \<and>
    (\<forall>oc s x y z.
       first_octave (dog sift3d) \<le> oc \<and> oc \<le> last_octave (dog sift3d) \<and>
       first_level (dog sift3d) \<le> s \<and> s \<le> last_level (dog sift3d) \<longrightarrow>
       im_vox (levels (dog (snd (build_dog alloc_ok sift3d))) oc s) x y z =
         im_vox (levels (gpyr sift3d) oc (s + 1)) x y z - im_vox (levels (gpyr sift3d) oc s) x y z))"
proof -
  let ?ps = "PYR_LOOP (dog sift3d)"
  let ?r = "build_dog_loop alloc_ok (gpyr sift3d) ?ps (levels (dog sift3d))"
  have fst_eq: "fst (build_dog alloc_ok sift3d) = fst ?r"
    by (simp add: build_dog_def split: prod.splits)
  have lv_eq: "levels (dog (snd (build_dog alloc_ok sift3d))) = snd ?r"
    by (simp add: build_dog_def split: prod.splits)
  have all_ok: "fst ?r = SIFT3D_SUCCESS \<and>
      (\<forall>oc s x y z. (oc, s) \<in> set ?ps \<longrightarrow>
         im_vox (snd ?r oc s) x y z =
           im_vox (levels (gpyr sift3d) oc (s + 1)) x y z - im_vox (levels (gpyr sift3d) oc s) x y z)"
    if "\<forall>oc s. (oc, s) \<in> set ?ps \<longrightarrow> alloc_ok oc s"
  proof -
    from that have "\<forall>(oc, s)\<in>set ?ps. alloc_ok oc s" by auto
    from build_dog_loop_ok [OF this, of "gpyr sift3d" "levels (dog sift3d)"]
    show ?thesis by simp
  qed
  have fail: "fst ?r = SIFT3D_FAILURE" if "(oc, s) \<in> set ?ps" "\<not> alloc_ok oc s" for oc s
    using that by (rule build_dog_loop_fail)
  have "fst ?r = SIFT3D_FAILURE \<longleftrightarrow> (\<exists>oc s. (oc, s) \<in> set ?ps \<and> \<not> alloc_ok oc s)"
  proof
    assume f: "fst ?r = SIFT3D_FAILURE"
    show "\<exists>oc s. (oc, s) \<in> set ?ps \<and> \<not> alloc_ok oc s"
    proof (rule ccontr)
      assume "\<not> (\<exists>oc s. (oc, s) \<in> set ?ps \<and> \<not> alloc_ok oc s)"
      then have "\<forall>oc s. (oc, s) \<in> set ?ps \<longrightarrow> alloc_ok oc s" by auto
      from all_ok [OF this] f show False by simp
    qed
  next
    assume "\<exists>oc s. (oc, s) \<in> set ?ps \<and> \<not> alloc_ok oc s"
    then show "fst ?r = SIFT3D_FAILURE" using fail by blast
  qed
  moreover have "(\<forall>oc s. (oc, s) \<in> set ?ps \<longrightarrow> alloc_ok oc s) \<longrightarrow>
      fst ?r = SIFT3D_SUCCESS \<and>
      (\<forall>oc s x y z. (oc, s) \<in> set ?ps \<longrightarrow>
         im_vox (snd ?r oc s) x y z =
           im_vox (levels (gpyr sift3d) oc (s + 1)) x y z - im_vox (levels (gpyr sift3d) oc s) x y z)"
    using all_ok by (intro impI)
  ultimately show ?thesis
    unfolding fst_eq lv_eq set_PYR_LOOP by blast
qed

lemma ramp_range:
  "first_octave (dog ramp_SIFT3D) = 0" "last_octave (dog ramp_SIFT3D) = 0"
  "first_level (dog ramp_SIFT3D) = -1" "last_level (dog ramp_SIFT3D) = 0"
  by (simp_all add: ramp_SIFT3D_def fresh_Pyramid_def)

lemma ramp_gpyr: "im_vox (levels (gpyr ramp_SIFT3D) oc s) x y z = real_of_int (s + 2)"
  by (simp add: ramp_SIFT3D_def)

theorem build_dog_levels_witness:
  "fst (build_dog (\<lambda>oc s. True) ramp_SIFT3D) = SIFT3D_SUCCESS \<and>
   im_vox (levels (dog (snd (build_dog (\<lambda>oc s. True) ramp_SIFT3D))) 0 (-1)) 0 0 0 = 1 \<and>
   im_vox (levels (dog (snd (build_dog (\<lambda>oc s. True) ramp_SIFT3D))) 0 0) 1 1 1 = 1 \<and>
   fst (build_dog (\<lambda>oc s. s < 0) ramp_SIFT3D) = SIFT3D_FAILURE"
proof -
  have a: "fst (build_dog (\<lambda>oc s. True) ramp_SIFT3D) = SIFT3D_SUCCESS \<and>
    (\<forall>oc s x y z. 0 \<le> oc \<and> oc \<le> 0 \<and> -1 \<le> s \<and> s \<le> 0 \<longrightarrow>
       im_vox (levels (dog (snd (build_dog (\<lambda>oc s. True) ramp_SIFT3D))) oc s) x y z = 1)"
    using build_dog_levels [of "\<lambda>oc s. True" ramp_SIFT3D]
    by (simp add: ramp_range ramp_gpyr)
  have "\<exists>oc s. first_octave (dog ramp_SIFT3D) \<le> oc \<and> oc \<le> last_octave (dog ramp_SIFT3D) \<and>
              first_level (dog ramp_SIFT3D) \<le> s \<and> s \<le> last_level (dog ramp_SIFT3D) \<and>
              \<not> s < 0"
    by (rule exI [of _ 0], rule exI [of _ 0]) (simp add: ramp_range)
  then have b: "fst (build_dog (\<lambda>oc s. s < 0) ramp_SIFT3D) = SIFT3D_FAILURE"
    using build_dog_levels [of "\<lambda>oc s. s < 0" ramp_SIFT3D] by blast
  from a b show ?thesis by simp
qed


subsection \<open>Claim C1: the corner score\<close>

lemma corner_sphere:
  "IM_LOOP_SPHERE corner_Image corner_center (1 * ori_rad_fctr) =
     [((1, 1, 1), \<lparr>cv_x = - 1 / 2, cv_y = - 1 / 2, cv_z = 0\<rparr>, 1 / 2),
      ((2, 1, 1), \<lparr>cv_x = 1 / 2, cv_y = - 1 / 2, cv_z = 0\<rparr>, 1 / 2),
      ((1, 2, 1), \<lparr>cv_x = - 1 / 2, cv_y = 1 / 2, cv_z = 0\<rparr>, 1 / 2),
      ((2, 2, 1), \<lparr>cv_x = 1 / 2, cv_y = 1 / 2, cv_z = 0\<rparr>, 1 / 2)]"
proof -
  have u: "[1..2] = [1, 2::int]" "[1..1] = [1::int]" by (simp_all add: upto.simps)
  show ?thesis
    by (simp add: IM_LOOP_SPHERE_def corner_Image_def corner_center_def ori_rad_fctr_def
          c_trunc_def SIFT3D_MAX_def SIFT3D_MIN_def IM_LOOP_LIMITED_def u CVEC_L2_NORM_SQ_def
          CVEC_DOT_def Let_def)
qed

lemma corner_grads:
  "IM_GET_GRAD corner_Image 1 1 1 = \<lparr>cv_x = 1, cv_y = 0, cv_z = 0\<rparr>"
  "IM_GET_GRAD corner_Image 2 1 1 = \<lparr>cv_x = 0, cv_y = 2, cv_z = 0\<rparr>"
  "IM_GET_GRAD corner_Image 1 2 1 = \<lparr>cv_x = 0, cv_y = 0, cv_z = 0\<rparr>"
  "IM_GET_GRAD corner_Image 2 2 1 = \<lparr>cv_x = 1, cv_y = 0, cv_z = 0\<rparr>"
  by (simp_all add: IM_GET_GRAD_def corner_Image_def)

lemma corner_tensor:
  "fold (tensor_step corner_Image 1) (IM_LOOP_SPHERE corner_Image corner_center (1 * ori_rad_fctr))
        ((\<lambda>i j. 0), \<lparr>cv_x = 0, cv_y = 0, cv_z = 0\<rparr>, vd0) = (A, vd_win, vd) \<Longrightarrow>
   vd_win = \<lparr>cv_x = 2, cv_y = 2, cv_z = 0\<rparr> \<and> vd = \<lparr>cv_x = 1, cv_y = 0, cv_z = 0\<rparr> \<and>
   A 0 0 = 2 * exp (- 1 / 4) \<and> A 1 1 = 4 * exp (- 1 / 4) \<and> A 2 2 = 0 \<and>
   A 0 1 = 0 \<and> A 0 2 = 0 \<and> A 1 2 = 0"
  unfolding corner_sphere
  by (auto simp: tensor_step_def corner_grads mat_add_def CVEC_PLUS_def Let_def)

lemma corner_spec_accepts:
  "\<not> spec_corner_reject \<lparr>cv_x = 2, cv_y = 2, cv_z = 0\<rparr> \<lparr>cv_x = 0, cv_y = 1, cv_z = 0\<rparr> (1 / 2)"
  "\<not> spec_corner_reject \<lparr>cv_x = 2, cv_y = 2, cv_z = 0\<rparr> \<lparr>cv_x = 1, cv_y = 0, cv_z = 0\<rparr> (1 / 2)"
proof -
  have "sqrt 8 \<le> 4" by (rule real_le_lsqrt) simp_all
  moreover have "0 < sqrt 8" by simp
  ultimately have "1 / 2 \<le> 2 / sqrt 8" by (simp add: field_simps)
  then show
    "\<not> spec_corner_reject \<lparr>cv_x = 2, cv_y = 2, cv_z = 0\<rparr> \<lparr>cv_x = 0, cv_y = 1, cv_z = 0\<rparr> (1 / 2)"
    "\<not> spec_corner_reject \<lparr>cv_x = 2, cv_y = 2, cv_z = 0\<rparr> \<lparr>cv_x = 1, cv_y = 0, cv_z = 0\<rparr> (1 / 2)"
    by (simp_all add: spec_corner_reject_def CVEC_DOT_def CVEC_L2_NORM_def CVEC_L2_NORM_SQ_def)
qed

lemma corner_window_gradient:
  "window_gradient corner_Image corner_center 1 = \<lparr>cv_x = 2, cv_y = 2, cv_z = 0\<rparr>"
proof -
  obtain A vd_win vd where f:
    "fold (tensor_step corner_Image 1) (IM_LOOP_SPHERE corner_Image corner_center (1 * ori_rad_fctr))
        ((\<lambda>i j. 0), \<lparr>cv_x = 0, cv_y = 0, cv_z = 0\<rparr>, \<lparr>cv_x = 0, cv_y = 0, cv_z = 0\<rparr>) =
       (A, vd_win, vd)"
    by (metis prod_cases3)
  show ?thesis
    unfolding window_gradient_def f using corner_tensor [OF f] by simp
qed

lemma corner_rejected:
  "assign_eig_ori True corner_eigen vd0 (fresh_SIFT3D None) corner_Image corner_center 1 R =
     (REJECT, R)"
proof -
  obtain A vd_win vd where f:
    "fold (tensor_step corner_Image 1) (IM_LOOP_SPHERE corner_Image corner_center (1 * ori_rad_fctr))
        ((\<lambda>i j. 0), \<lparr>cv_x = 0, cv_y = 0, cv_z = 0\<rparr>, vd0) = (A, vd_win, vd)"
    by (metis prod_cases3)
  note t = corner_tensor [OF f]
  have w: "CVEC_L2_NORM_SQ vd_win = 8"
    by (simp add: t CVEC_L2_NORM_SQ_def CVEC_DOT_def)
  have l: "[A 2 2, A 0 0, A 1 1] = [0, 2 * exp (- 1 / 4), 4 * exp (- 1 / 4)]"
    using t by simp
  have st: "eig_stable [A 2 2, A 0 0, A 1 1]"
    unfolding l by (simp add: ieee_div_gt_def max_eig_ratio_def)
  have rej: "sign_loop (1 / 2) vd
      (\<lambda>i j. if (i = 2 \<and> j = 0) \<or> (i = 0 \<and> j = 1) \<or> (i = 1 \<and> j = 2) then 1 else 0)
      (Suc (Suc (Suc 0))) [0..<2] (R, []) = (REJECT, R, [])"
    by (simp add: t upt_rec [of 0] mat_col_def CVEC_DOT_def CVEC_L2_NORM_def
          CVEC_L2_NORM_SQ_def ieee_div_abs_lt_def)
  show ?thesis
    unfolding assign_eig_ori_def Let_def f
    by (simp add: w st rej ori_grad_thresh_def corner_eigen_def mat_set_def fresh_SIFT3D_def
          del: One_nat_def)
qed

text \<open>
  Claim C1 at a concrete keypoint. The window holds four voxels, the gradient sum is
  \<open>g_win = (2, 2, 0)\<close>, the structure tensor is diagonal with eigenvalues \<open>0 < 2w < 4w\<close>,
  and both eigenvectors \<open>(0, 1, 0)\<close> and \<open>(1, 0, 0)\<close> make an angle of 45 degrees with
  \<open>g_win\<close>, so that \<open>|g_win \<cdot> v\<^sub>i| / (\<parallel>v\<^sub>i\<parallel> \<parallel>g_win\<parallel>)\<close> is about \<open>0.707\<close>, above
  \<open>corner_thresh = 0.5\<close>: by the claim the keypoint is kept. The code rejects it,
  because it projects the gradient of the last voxel of the window, \<open>(1, 0, 0)\<close>, which
  is orthogonal to the first eigenvector.
\<close>

theorem assign_eig_ori_last_gradient:
  "assign_eig_ori True corner_eigen \<lparr>cv_x = 0, cv_y = 0, cv_z = 0\<rparr> (fresh_SIFT3D None)
     corner_Image corner_center 1 (\<lambda>i j. 0) = (REJECT, (\<lambda>i j. 0)) \<and>
   window_gradient corner_Image corner_center 1 = \<lparr>cv_x = 2, cv_y = 2, cv_z = 0\<rparr> \<and>
   \<not> spec_corner_reject (window_gradient corner_Image corner_center 1)
       \<lparr>cv_x = 0, cv_y = 1, cv_z = 0\<rparr> (corner_thresh (fresh_SIFT3D None)) \<and>
   \<not> spec_corner_reject (window_gradient corner_Image corner_center 1)
       \<lparr>cv_x = 1, cv_y = 0, cv_z = 0\<rparr> (corner_thresh (fresh_SIFT3D None))"
  using corner_rejected corner_spec_accepts
  by (simp add: corner_window_gradient fresh_SIFT3D_def)

subsection \<open>Claim C8: the icosahedral histogram bin\<close>

lemma vert_nth:
  "vert ! 0 = \<lparr>cv_x = 0, cv_y = 1, cv_z = gr\<rparr>"
  "vert ! 1 = \<lparr>cv_x = 0, cv_y = -1, cv_z = gr\<rparr>"
  "vert ! Suc 0 = \<lparr>cv_x = 0, cv_y = -1, cv_z = gr\<rparr>"
  "vert ! 2 = \<lparr>cv_x = 0, cv_y = 1, cv_z = - gr\<rparr>"
  "vert ! 3 = \<lparr>cv_x = 0, cv_y = -1, cv_z = - gr\<rparr>"
  "vert ! 4 = \<lparr>cv_x = 1, cv_y = gr, cv_z = 0\<rparr>"
  "vert ! 5 = \<lparr>cv_x = -1, cv_y = gr, cv_z = 0\<rparr>"
  "vert ! 6 = \<lparr>cv_x = 1, cv_y = - gr, cv_z = 0\<rparr>"
  "vert ! 7 = \<lparr>cv_x = -1, cv_y = - gr, cv_z = 0\<rparr>"
  "vert ! 8 = \<lparr>cv_x = gr, cv_y = 0, cv_z = 1\<rparr>"
  "vert ! 9 = \<lparr>cv_x = - gr, cv_y = 0, cv_z = 1\<rparr>"
  "vert ! 10 = \<lparr>cv_x = gr, cv_y = 0, cv_z = -1\<rparr>"
  "vert ! 11 = \<lparr>cv_x = - gr, cv_y = 0, cv_z = -1\<rparr>"
  by (simp_all add: vert_def)

lemmas raw_simps = raw_accept_def Let_def vert_nth CVEC_DOT_def CVEC_CROSS_def gr_def
  bary_eps_def FLT_EPSILON_def

lemma triple_scale3:
  "triple (CVEC_SCALE a s) (CVEC_SCALE b s) (CVEC_SCALE c s) = s * s * s * triple a b c"
  by (simp add: triple_def CVEC_DOT_def CVEC_CROSS_def CVEC_SCALE_def algebra_simps)

lemma cart2bary_scaled:
  assumes s: "0 < s"
    and S: "S = triple x v1 v2 + triple x v2 v0 + triple x v0 v1"
  shows "cart2bary x \<lparr>tri_v0 = CVEC_SCALE v0 s, tri_v1 = CVEC_SCALE v1 s,
                       tri_v2 = CVEC_SCALE v2 s, tri_idx = f\<rparr> =
           (if \<bar>S\<bar> * (s * s) < bary_eps then None
            else Some (\<lparr>cv_x = 1 - triple x v2 v0 / S - triple x v0 v1 / S,
                         cv_y = triple x v2 v0 / S, cv_z = triple x v0 v1 / S\<rparr>,
                       triple v0 v1 v2 * s / S))"
proof -
  let ?w0 = "CVEC_SCALE v0 s" and ?w1 = "CVEC_SCALE v1 s" and ?w2 = "CVEC_SCALE v2 s"
  have det: "CVEC_DOT (CVEC_MINUS ?w1 ?w0) (CVEC_CROSS x (CVEC_MINUS ?w2 ?w0)) = - (S * (s * s))"
    unfolding S
    by (simp add: triple_def CVEC_DOT_def CVEC_CROSS_def CVEC_MINUS_def CVEC_SCALE_def
          algebra_simps)
  have y: "CVEC_DOT (CVEC_SCALE ?w0 (-1)) (CVEC_CROSS x (CVEC_MINUS ?w2 ?w0)) =
             - (triple x v2 v0 * (s * s))"
    by (simp add: triple_def CVEC_DOT_def CVEC_CROSS_def CVEC_MINUS_def CVEC_SCALE_def
          algebra_simps)
  have z: "CVEC_DOT x (CVEC_CROSS (CVEC_SCALE ?w0 (-1)) (CVEC_MINUS ?w1 ?w0)) =
             - (triple x v0 v1 * (s * s))"
    by (simp add: triple_def CVEC_DOT_def CVEC_CROSS_def CVEC_MINUS_def CVEC_SCALE_def
          algebra_simps)
  have k: "CVEC_DOT (CVEC_MINUS ?w2 ?w0) (CVEC_CROSS (CVEC_SCALE ?w0 (-1)) (CVEC_MINUS ?w1 ?w0)) =
             - (triple v0 v1 v2 * (s * s * s))"
    by (simp add: triple_def CVEC_DOT_def CVEC_CROSS_def CVEC_MINUS_def CVEC_SCALE_def
          algebra_simps)
  have ss: "s * s \<noteq> 0" using s by simp
  show ?thesis
  proof (cases "\<bar>S\<bar> * (s * s) < bary_eps")
    case True
    then show ?thesis
      unfolding cart2bary_def Let_def by (simp add: det abs_mult)
  next
    case False
    have "0 < bary_eps" by (simp add: bary_eps_def FLT_EPSILON_def)
    with False have S0: "S \<noteq> 0" by auto
    show ?thesis
      unfolding cart2bary_def Let_def
      using False S0 s by (simp add: det y z k abs_mult field_simps)
  qed
qed

lemma cover_ppp:
  assumes o: "0 \<le> x" "0 \<le> y" "0 \<le> z"
    and d: "6 / 10 ^ 4 \<le> x \<or> 6 / 10 ^ 4 \<le> y \<or> 6 / 10 ^ 4 \<le> z"
  shows "\<exists>f\<in>set faces. raw_accept f \<lparr>cv_x = x, cv_y = y, cv_z = z\<rparr>"
proof -
  consider (inside) "0 \<le> CVEC_DOT \<lparr>cv_x = x, cv_y = y, cv_z = z\<rparr> (CVEC_CROSS (vert ! 8) (vert ! 4)) \<and>
      0 \<le> CVEC_DOT \<lparr>cv_x = x, cv_y = y, cv_z = z\<rparr> (CVEC_CROSS (vert ! 4) (vert ! 0)) \<and>
      0 \<le> CVEC_DOT \<lparr>cv_x = x, cv_y = y, cv_z = z\<rparr> (CVEC_CROSS (vert ! 0) (vert ! 8))"
    | (a) "CVEC_DOT \<lparr>cv_x = x, cv_y = y, cv_z = z\<rparr> (CVEC_CROSS (vert ! 8) (vert ! 4)) < 0"
    | (b) "CVEC_DOT \<lparr>cv_x = x, cv_y = y, cv_z = z\<rparr> (CVEC_CROSS (vert ! 4) (vert ! 0)) < 0"
    | (c) "CVEC_DOT \<lparr>cv_x = x, cv_y = y, cv_z = z\<rparr> (CVEC_CROSS (vert ! 0) (vert ! 8)) < 0"
    by linarith
  then show ?thesis
  proof cases
    case inside
    have "raw_accept (0, 8, 4) \<lparr>cv_x = x, cv_y = y, cv_z = z\<rparr>"
      using d
      proof (elim disjE)
        assume "6 / 10 ^ 4 \<le> x"
        with o inside show ?thesis
          by (simp add: raw_simps; linarith)
      next
        assume "6 / 10 ^ 4 \<le> y"
        with o inside show ?thesis
          by (simp add: raw_simps; linarith)
      next
        assume "6 / 10 ^ 4 \<le> z"
        with o inside show ?thesis
          by (simp add: raw_simps; linarith)
      qed
    moreover have "(0, 8, 4) \<in> set faces" by (simp add: faces_def)
    ultimately show ?thesis by blast
  next
    case a
    have "raw_accept (8, 10, 4) \<lparr>cv_x = x, cv_y = y, cv_z = z\<rparr>"
      using d
      proof (elim disjE)
        assume "6 / 10 ^ 4 \<le> x"
        with o a show ?thesis
          by (simp add: raw_simps; linarith)
      next
        assume "6 / 10 ^ 4 \<le> y"
        with o a show ?thesis
          by (simp add: raw_simps; linarith)
      next
        assume "6 / 10 ^ 4 \<le> z"
        with o a show ?thesis
          by (simp add: raw_simps; linarith)
      qed
    moreover have "(8, 10, 4) \<in> set faces" by (simp add: faces_def)
    ultimately show ?thesis by blast
  next
    case b
    have "raw_accept (0, 4, 5) \<lparr>cv_x = x, cv_y = y, cv_z = z\<rparr>"
      using d
      proof (elim disjE)
        assume "6 / 10 ^ 4 \<le> x"
        with o b show ?thesis
          by (simp add: raw_simps; linarith)
      next
        assume "6 / 10 ^ 4 \<le> y"
        with o b show ?thesis
          by (simp add: raw_simps; linarith)
      next
        assume "6 / 10 ^ 4 \<le> z"
        with o b show ?thesis
          by (simp add: raw_simps; linarith)
      qed
    moreover have "(0, 4, 5) \<in> set faces" by (simp add: faces_def)
    ultimately show ?thesis by blast
  next
    case c
    have "raw_accept (0, 1, 8) \<lparr>cv_x = x, cv_y = y, cv_z = z\<rparr>"
      using d
      proof (elim disjE)
        assume "6 / 10 ^ 4 \<le> x"
        with o c show ?thesis
          by (simp add: raw_simps; linarith)
      next
        assume "6 / 10 ^ 4 \<le> y"
        with o c show ?thesis
          by (simp add: raw_simps; linarith)
      next
        assume "6 / 10 ^ 4 \<le> z"
        with o c show ?thesis
          by (simp add: raw_simps; linarith)
      qed
    moreover have "(0, 1, 8) \<in> set faces" by (simp add: faces_def)
    ultimately show ?thesis by blast
  qed
qed

lemma cover_ppm:
  assumes o: "0 \<le> x" "0 \<le> y" "z \<le> 0"
    and d: "6 / 10 ^ 4 \<le> x \<or> 6 / 10 ^ 4 \<le> y \<or> z \<le> - (6 / 10 ^ 4)"
  shows "\<exists>f\<in>set faces. raw_accept f \<lparr>cv_x = x, cv_y = y, cv_z = z\<rparr>"
proof -
  consider (inside) "0 \<le> CVEC_DOT \<lparr>cv_x = x, cv_y = y, cv_z = z\<rparr> (CVEC_CROSS (vert ! 10) (vert ! 2)) \<and>
      0 \<le> CVEC_DOT \<lparr>cv_x = x, cv_y = y, cv_z = z\<rparr> (CVEC_CROSS (vert ! 2) (vert ! 4)) \<and>
      0 \<le> CVEC_DOT \<lparr>cv_x = x, cv_y = y, cv_z = z\<rparr> (CVEC_CROSS (vert ! 4) (vert ! 10))"
    | (a) "CVEC_DOT \<lparr>cv_x = x, cv_y = y, cv_z = z\<rparr> (CVEC_CROSS (vert ! 10) (vert ! 2)) < 0"
    | (b) "CVEC_DOT \<lparr>cv_x = x, cv_y = y, cv_z = z\<rparr> (CVEC_CROSS (vert ! 2) (vert ! 4)) < 0"
    | (c) "CVEC_DOT \<lparr>cv_x = x, cv_y = y, cv_z = z\<rparr> (CVEC_CROSS (vert ! 4) (vert ! 10)) < 0"
    by linarith
  then show ?thesis
  proof cases
    case inside
    have "raw_accept (4, 10, 2) \<lparr>cv_x = x, cv_y = y, cv_z = z\<rparr>"
      using d
      proof (elim disjE)
        assume "6 / 10 ^ 4 \<le> x"
        with o inside show ?thesis
          by (simp add: raw_simps; linarith)
      next
        assume "6 / 10 ^ 4 \<le> y"
        with o inside show ?thesis
          by (simp add: raw_simps; linarith)
      next
        assume "z \<le> - (6 / 10 ^ 4)"
        with o inside show ?thesis
          by (simp add: raw_simps; linarith)
      qed
    moreover have "(4, 10, 2) \<in> set faces" by (simp add: faces_def)
    ultimately show ?thesis by blast
  next
    case a
    have "raw_accept (3, 2, 10) \<lparr>cv_x = x, cv_y = y, cv_z = z\<rparr>"
      using d
      proof (elim disjE)
        assume "6 / 10 ^ 4 \<le> x"
        with o a show ?thesis
          by (simp add: raw_simps; linarith)
      next
        assume "6 / 10 ^ 4 \<le> y"
        with o a show ?thesis
          by (simp add: raw_simps; linarith)
      next
        assume "z \<le> - (6 / 10 ^ 4)"
        with o a show ?thesis
          by (simp add: raw_simps; linarith)
      qed
    moreover have "(3, 2, 10) \<in> set faces" by (simp add: faces_def)
    ultimately show ?thesis by blast
  next
    case b
    have "raw_accept (4, 2, 5) \<lparr>cv_x = x, cv_y = y, cv_z = z\<rparr>"
      using d
      proof (elim disjE)
        assume "6 / 10 ^ 4 \<le> x"
        with o b show ?thesis
          by (simp add: raw_simps; linarith)
      next
        assume "6 / 10 ^ 4 \<le> y"
        with o b show ?thesis
          by (simp add: raw_simps; linarith)
      next
        assume "z \<le> - (6 / 10 ^ 4)"
        with o b show ?thesis
          by (simp add: raw_simps; linarith)
      qed
    moreover have "(4, 2, 5) \<in> set faces" by (simp add: faces_def)
    ultimately show ?thesis by blast
  next
    case c
    have "raw_accept (8, 10, 4) \<lparr>cv_x = x, cv_y = y, cv_z = z\<rparr>"
      using d
      proof (elim disjE)
        assume "6 / 10 ^ 4 \<le> x"
        with o c show ?thesis
          by (simp add: raw_simps; linarith)
      next
        assume "6 / 10 ^ 4 \<le> y"
        with o c show ?thesis
          by (simp add: raw_simps; linarith)
      next
        assume "z \<le> - (6 / 10 ^ 4)"
        with o c show ?thesis
          by (simp add: raw_simps; linarith)
      qed
    moreover have "(8, 10, 4) \<in> set faces" by (simp add: faces_def)
    ultimately show ?thesis by blast
  qed
qed

lemma cover_pmp:
  assumes o: "0 \<le> x" "y \<le> 0" "0 \<le> z"
    and d: "6 / 10 ^ 4 \<le> x \<or> y \<le> - (6 / 10 ^ 4) \<or> 6 / 10 ^ 4 \<le> z"
  shows "\<exists>f\<in>set faces. raw_accept f \<lparr>cv_x = x, cv_y = y, cv_z = z\<rparr>"
proof -
  consider (inside) "0 \<le> CVEC_DOT \<lparr>cv_x = x, cv_y = y, cv_z = z\<rparr> (CVEC_CROSS (vert ! 6) (vert ! 8)) \<and>
      0 \<le> CVEC_DOT \<lparr>cv_x = x, cv_y = y, cv_z = z\<rparr> (CVEC_CROSS (vert ! 8) (vert ! 1)) \<and>
      0 \<le> CVEC_DOT \<lparr>cv_x = x, cv_y = y, cv_z = z\<rparr> (CVEC_CROSS (vert ! 1) (vert ! 6))"
    | (a) "CVEC_DOT \<lparr>cv_x = x, cv_y = y, cv_z = z\<rparr> (CVEC_CROSS (vert ! 6) (vert ! 8)) < 0"
    | (b) "CVEC_DOT \<lparr>cv_x = x, cv_y = y, cv_z = z\<rparr> (CVEC_CROSS (vert ! 8) (vert ! 1)) < 0"
    | (c) "CVEC_DOT \<lparr>cv_x = x, cv_y = y, cv_z = z\<rparr> (CVEC_CROSS (vert ! 1) (vert ! 6)) < 0"
    by linarith
  then show ?thesis
  proof cases
    case inside
    have "raw_accept (1, 6, 8) \<lparr>cv_x = x, cv_y = y, cv_z = z\<rparr>"
      using d
      proof (elim disjE)
        assume "6 / 10 ^ 4 \<le> x"
        with o inside show ?thesis
          by (simp add: raw_simps; linarith)
      next
        assume "y \<le> - (6 / 10 ^ 4)"
        with o inside show ?thesis
          by (simp add: raw_simps; linarith)
      next
        assume "6 / 10 ^ 4 \<le> z"
        with o inside show ?thesis
          by (simp add: raw_simps; linarith)
      qed
    moreover have "(1, 6, 8) \<in> set faces" by (simp add: faces_def)
    ultimately show ?thesis by blast
  next
    case a
    have "raw_accept (8, 6, 10) \<lparr>cv_x = x, cv_y = y, cv_z = z\<rparr>"
      using d
      proof (elim disjE)
        assume "6 / 10 ^ 4 \<le> x"
        with o a show ?thesis
          by (simp add: raw_simps; linarith)
      next
        assume "y \<le> - (6 / 10 ^ 4)"
        with o a show ?thesis
          by (simp add: raw_simps; linarith)
      next
        assume "6 / 10 ^ 4 \<le> z"
        with o a show ?thesis
          by (simp add: raw_simps; linarith)
      qed
    moreover have "(8, 6, 10) \<in> set faces" by (simp add: faces_def)
    ultimately show ?thesis by blast
  next
    case b
    have "raw_accept (0, 1, 8) \<lparr>cv_x = x, cv_y = y, cv_z = z\<rparr>"
      using d
      proof (elim disjE)
        assume "6 / 10 ^ 4 \<le> x"
        with o b show ?thesis
          by (simp add: raw_simps; linarith)
      next
        assume "y \<le> - (6 / 10 ^ 4)"
        with o b show ?thesis
          by (simp add: raw_simps; linarith)
      next
        assume "6 / 10 ^ 4 \<le> z"
        with o b show ?thesis
          by (simp add: raw_simps; linarith)
      qed
    moreover have "(0, 1, 8) \<in> set faces" by (simp add: faces_def)
    ultimately show ?thesis by blast
  next
    case c
    have "raw_accept (1, 7, 6) \<lparr>cv_x = x, cv_y = y, cv_z = z\<rparr>"
      using d
      proof (elim disjE)
        assume "6 / 10 ^ 4 \<le> x"
        with o c show ?thesis
          by (simp add: raw_simps; linarith)
      next
        assume "y \<le> - (6 / 10 ^ 4)"
        with o c show ?thesis
          by (simp add: raw_simps; linarith)
      next
        assume "6 / 10 ^ 4 \<le> z"
        with o c show ?thesis
          by (simp add: raw_simps; linarith)
      qed
    moreover have "(1, 7, 6) \<in> set faces" by (simp add: faces_def)
    ultimately show ?thesis by blast
  qed
qed

lemma cover_pmm:
  assumes o: "0 \<le> x" "y \<le> 0" "z \<le> 0"
    and d: "6 / 10 ^ 4 \<le> x \<or> y \<le> - (6 / 10 ^ 4) \<or> z \<le> - (6 / 10 ^ 4)"
  shows "\<exists>f\<in>set faces. raw_accept f \<lparr>cv_x = x, cv_y = y, cv_z = z\<rparr>"
proof -
  consider (inside) "0 \<le> CVEC_DOT \<lparr>cv_x = x, cv_y = y, cv_z = z\<rparr> (CVEC_CROSS (vert ! 10) (vert ! 6)) \<and>
      0 \<le> CVEC_DOT \<lparr>cv_x = x, cv_y = y, cv_z = z\<rparr> (CVEC_CROSS (vert ! 6) (vert ! 3)) \<and>
      0 \<le> CVEC_DOT \<lparr>cv_x = x, cv_y = y, cv_z = z\<rparr> (CVEC_CROSS (vert ! 3) (vert ! 10))"
    | (a) "CVEC_DOT \<lparr>cv_x = x, cv_y = y, cv_z = z\<rparr> (CVEC_CROSS (vert ! 10) (vert ! 6)) < 0"
    | (b) "CVEC_DOT \<lparr>cv_x = x, cv_y = y, cv_z = z\<rparr> (CVEC_CROSS (vert ! 6) (vert ! 3)) < 0"
    | (c) "CVEC_DOT \<lparr>cv_x = x, cv_y = y, cv_z = z\<rparr> (CVEC_CROSS (vert ! 3) (vert ! 10)) < 0"
    by linarith
  then show ?thesis
  proof cases
    case inside
    have "raw_accept (3, 10, 6) \<lparr>cv_x = x, cv_y = y, cv_z = z\<rparr>"
      using d
      proof (elim disjE)
        assume "6 / 10 ^ 4 \<le> x"
        with o inside show ?thesis
          by (simp add: raw_simps; linarith)
      next
        assume "y \<le> - (6 / 10 ^ 4)"
        with o inside show ?thesis
          by (simp add: raw_simps; linarith)
      next
        assume "z \<le> - (6 / 10 ^ 4)"
        with o inside show ?thesis
          by (simp add: raw_simps; linarith)
      qed
    moreover have "(3, 10, 6) \<in> set faces" by (simp add: faces_def)
    ultimately show ?thesis by blast
  next
    case a
    have "raw_accept (8, 6, 10) \<lparr>cv_x = x, cv_y = y, cv_z = z\<rparr>"
      using d
      proof (elim disjE)
        assume "6 / 10 ^ 4 \<le> x"
        with o a show ?thesis
          by (simp add: raw_simps; linarith)
      next
        assume "y \<le> - (6 / 10 ^ 4)"
        with o a show ?thesis
          by (simp add: raw_simps; linarith)
      next
        assume "z \<le> - (6 / 10 ^ 4)"
        with o a show ?thesis
          by (simp add: raw_simps; linarith)
      qed
    moreover have "(8, 6, 10) \<in> set faces" by (simp add: faces_def)
    ultimately show ?thesis by blast
  next
    case b
    have "raw_accept (3, 6, 7) \<lparr>cv_x = x, cv_y = y, cv_z = z\<rparr>"
      using d
      proof (elim disjE)
        assume "6 / 10 ^ 4 \<le> x"
        with o b show ?thesis
          by (simp add: raw_simps; linarith)
      next
        assume "y \<le> - (6 / 10 ^ 4)"
        with o b show ?thesis
          by (simp add: raw_simps; linarith)
      next
        assume "z \<le> - (6 / 10 ^ 4)"
        with o b show ?thesis
          by (simp add: raw_simps; linarith)
      qed
    moreover have "(3, 6, 7) \<in> set faces" by (simp add: faces_def)
    ultimately show ?thesis by blast
  next
    case c
    have "raw_accept (3, 2, 10) \<lparr>cv_x = x, cv_y = y, cv_z = z\<rparr>"
      using d
      proof (elim disjE)
        assume "6 / 10 ^ 4 \<le> x"
        with o c show ?thesis
          by (simp add: raw_simps; linarith)
      next
        assume "y \<le> - (6 / 10 ^ 4)"
        with o c show ?thesis
          by (simp add: raw_simps; linarith)
      next
        assume "z \<le> - (6 / 10 ^ 4)"
        with o c show ?thesis
          by (simp add: raw_simps; linarith)
      qed
    moreover have "(3, 2, 10) \<in> set faces" by (simp add: faces_def)
    ultimately show ?thesis by blast
  qed
qed

lemma cover_mpp:
  assumes o: "x \<le> 0" "0 \<le> y" "0 \<le> z"
    and d: "x \<le> - (6 / 10 ^ 4) \<or> 6 / 10 ^ 4 \<le> y \<or> 6 / 10 ^ 4 \<le> z"
  shows "\<exists>f\<in>set faces. raw_accept f \<lparr>cv_x = x, cv_y = y, cv_z = z\<rparr>"
proof -
  consider (inside) "0 \<le> CVEC_DOT \<lparr>cv_x = x, cv_y = y, cv_z = z\<rparr> (CVEC_CROSS (vert ! 5) (vert ! 9)) \<and>
      0 \<le> CVEC_DOT \<lparr>cv_x = x, cv_y = y, cv_z = z\<rparr> (CVEC_CROSS (vert ! 9) (vert ! 0)) \<and>
      0 \<le> CVEC_DOT \<lparr>cv_x = x, cv_y = y, cv_z = z\<rparr> (CVEC_CROSS (vert ! 0) (vert ! 5))"
    | (a) "CVEC_DOT \<lparr>cv_x = x, cv_y = y, cv_z = z\<rparr> (CVEC_CROSS (vert ! 5) (vert ! 9)) < 0"
    | (b) "CVEC_DOT \<lparr>cv_x = x, cv_y = y, cv_z = z\<rparr> (CVEC_CROSS (vert ! 9) (vert ! 0)) < 0"
    | (c) "CVEC_DOT \<lparr>cv_x = x, cv_y = y, cv_z = z\<rparr> (CVEC_CROSS (vert ! 0) (vert ! 5)) < 0"
    by linarith
  then show ?thesis
  proof cases
    case inside
    have "raw_accept (0, 5, 9) \<lparr>cv_x = x, cv_y = y, cv_z = z\<rparr>"
      using d
      proof (elim disjE)
        assume "x \<le> - (6 / 10 ^ 4)"
        with o inside show ?thesis
          by (simp add: raw_simps; linarith)
      next
        assume "6 / 10 ^ 4 \<le> y"
        with o inside show ?thesis
          by (simp add: raw_simps; linarith)
      next
        assume "6 / 10 ^ 4 \<le> z"
        with o inside show ?thesis
          by (simp add: raw_simps; linarith)
      qed
    moreover have "(0, 5, 9) \<in> set faces" by (simp add: faces_def)
    ultimately show ?thesis by blast
  next
    case a
    have "raw_accept (5, 11, 9) \<lparr>cv_x = x, cv_y = y, cv_z = z\<rparr>"
      using d
      proof (elim disjE)
        assume "x \<le> - (6 / 10 ^ 4)"
        with o a show ?thesis
          by (simp add: raw_simps; linarith)
      next
        assume "6 / 10 ^ 4 \<le> y"
        with o a show ?thesis
          by (simp add: raw_simps; linarith)
      next
        assume "6 / 10 ^ 4 \<le> z"
        with o a show ?thesis
          by (simp add: raw_simps; linarith)
      qed
    moreover have "(5, 11, 9) \<in> set faces" by (simp add: faces_def)
    ultimately show ?thesis by blast
  next
    case b
    have "raw_accept (0, 9, 1) \<lparr>cv_x = x, cv_y = y, cv_z = z\<rparr>"
      using d
      proof (elim disjE)
        assume "x \<le> - (6 / 10 ^ 4)"
        with o b show ?thesis
          by (simp add: raw_simps; linarith)
      next
        assume "6 / 10 ^ 4 \<le> y"
        with o b show ?thesis
          by (simp add: raw_simps; linarith)
      next
        assume "6 / 10 ^ 4 \<le> z"
        with o b show ?thesis
          by (simp add: raw_simps; linarith)
      qed
    moreover have "(0, 9, 1) \<in> set faces" by (simp add: faces_def)
    ultimately show ?thesis by blast
  next
    case c
    have "raw_accept (0, 4, 5) \<lparr>cv_x = x, cv_y = y, cv_z = z\<rparr>"
      using d
      proof (elim disjE)
        assume "x \<le> - (6 / 10 ^ 4)"
        with o c show ?thesis
          by (simp add: raw_simps; linarith)
      next
        assume "6 / 10 ^ 4 \<le> y"
        with o c show ?thesis
          by (simp add: raw_simps; linarith)
      next
        assume "6 / 10 ^ 4 \<le> z"
        with o c show ?thesis
          by (simp add: raw_simps; linarith)
      qed
    moreover have "(0, 4, 5) \<in> set faces" by (simp add: faces_def)
    ultimately show ?thesis by blast
  qed
qed

lemma cover_mpm:
  assumes o: "x \<le> 0" "0 \<le> y" "z \<le> 0"
    and d: "x \<le> - (6 / 10 ^ 4) \<or> 6 / 10 ^ 4 \<le> y \<or> z \<le> - (6 / 10 ^ 4)"
  shows "\<exists>f\<in>set faces. raw_accept f \<lparr>cv_x = x, cv_y = y, cv_z = z\<rparr>"
proof -
  consider (inside) "0 \<le> CVEC_DOT \<lparr>cv_x = x, cv_y = y, cv_z = z\<rparr> (CVEC_CROSS (vert ! 2) (vert ! 11)) \<and>
      0 \<le> CVEC_DOT \<lparr>cv_x = x, cv_y = y, cv_z = z\<rparr> (CVEC_CROSS (vert ! 11) (vert ! 5)) \<and>
      0 \<le> CVEC_DOT \<lparr>cv_x = x, cv_y = y, cv_z = z\<rparr> (CVEC_CROSS (vert ! 5) (vert ! 2))"
    | (a) "CVEC_DOT \<lparr>cv_x = x, cv_y = y, cv_z = z\<rparr> (CVEC_CROSS (vert ! 2) (vert ! 11)) < 0"
    | (b) "CVEC_DOT \<lparr>cv_x = x, cv_y = y, cv_z = z\<rparr> (CVEC_CROSS (vert ! 11) (vert ! 5)) < 0"
    | (c) "CVEC_DOT \<lparr>cv_x = x, cv_y = y, cv_z = z\<rparr> (CVEC_CROSS (vert ! 5) (vert ! 2)) < 0"
    by linarith
  then show ?thesis
  proof cases
    case inside
    have "raw_accept (5, 2, 11) \<lparr>cv_x = x, cv_y = y, cv_z = z\<rparr>"
      using d
      proof (elim disjE)
        assume "x \<le> - (6 / 10 ^ 4)"
        with o inside show ?thesis
          by (simp add: raw_simps; linarith)
      next
        assume "6 / 10 ^ 4 \<le> y"
        with o inside show ?thesis
          by (simp add: raw_simps; linarith)
      next
        assume "z \<le> - (6 / 10 ^ 4)"
        with o inside show ?thesis
          by (simp add: raw_simps; linarith)
      qed
    moreover have "(5, 2, 11) \<in> set faces" by (simp add: faces_def)
    ultimately show ?thesis by blast
  next
    case a
    have "raw_accept (3, 11, 2) \<lparr>cv_x = x, cv_y = y, cv_z = z\<rparr>"
      using d
      proof (elim disjE)
        assume "x \<le> - (6 / 10 ^ 4)"
        with o a show ?thesis
          by (simp add: raw_simps; linarith)
      next
        assume "6 / 10 ^ 4 \<le> y"
        with o a show ?thesis
          by (simp add: raw_simps; linarith)
      next
        assume "z \<le> - (6 / 10 ^ 4)"
        with o a show ?thesis
          by (simp add: raw_simps; linarith)
      qed
    moreover have "(3, 11, 2) \<in> set faces" by (simp add: faces_def)
    ultimately show ?thesis by blast
  next
    case b
    have "raw_accept (5, 11, 9) \<lparr>cv_x = x, cv_y = y, cv_z = z\<rparr>"
      using d
      proof (elim disjE)
        assume "x \<le> - (6 / 10 ^ 4)"
        with o b show ?thesis
          by (simp add: raw_simps; linarith)
      next
        assume "6 / 10 ^ 4 \<le> y"
        with o b show ?thesis
          by (simp add: raw_simps; linarith)
      next
        assume "z \<le> - (6 / 10 ^ 4)"
        with o b show ?thesis
          by (simp add: raw_simps; linarith)
      qed
    moreover have "(5, 11, 9) \<in> set faces" by (simp add: faces_def)
    ultimately show ?thesis by blast
  next
    case c
    have "raw_accept (4, 2, 5) \<lparr>cv_x = x, cv_y = y, cv_z = z\<rparr>"
      using d
      proof (elim disjE)
        assume "x \<le> - (6 / 10 ^ 4)"
        with o c show ?thesis
          by (simp add: raw_simps; linarith)
      next
        assume "6 / 10 ^ 4 \<le> y"
        with o c show ?thesis
          by (simp add: raw_simps; linarith)
      next
        assume "z \<le> - (6 / 10 ^ 4)"
        with o c show ?thesis
          by (simp add: raw_simps; linarith)
      qed
    moreover have "(4, 2, 5) \<in> set faces" by (simp add: faces_def)
    ultimately show ?thesis by blast
  qed
qed

lemma cover_mmp:
  assumes o: "x \<le> 0" "y \<le> 0" "0 \<le> z"
    and d: "x \<le> - (6 / 10 ^ 4) \<or> y \<le> - (6 / 10 ^ 4) \<or> 6 / 10 ^ 4 \<le> z"
  shows "\<exists>f\<in>set faces. raw_accept f \<lparr>cv_x = x, cv_y = y, cv_z = z\<rparr>"
proof -
  consider (inside) "0 \<le> CVEC_DOT \<lparr>cv_x = x, cv_y = y, cv_z = z\<rparr> (CVEC_CROSS (vert ! 7) (vert ! 1)) \<and>
      0 \<le> CVEC_DOT \<lparr>cv_x = x, cv_y = y, cv_z = z\<rparr> (CVEC_CROSS (vert ! 1) (vert ! 9)) \<and>
      0 \<le> CVEC_DOT \<lparr>cv_x = x, cv_y = y, cv_z = z\<rparr> (CVEC_CROSS (vert ! 9) (vert ! 7))"
    | (a) "CVEC_DOT \<lparr>cv_x = x, cv_y = y, cv_z = z\<rparr> (CVEC_CROSS (vert ! 7) (vert ! 1)) < 0"
    | (b) "CVEC_DOT \<lparr>cv_x = x, cv_y = y, cv_z = z\<rparr> (CVEC_CROSS (vert ! 1) (vert ! 9)) < 0"
    | (c) "CVEC_DOT \<lparr>cv_x = x, cv_y = y, cv_z = z\<rparr> (CVEC_CROSS (vert ! 9) (vert ! 7)) < 0"
    by linarith
  then show ?thesis
  proof cases
    case inside
    have "raw_accept (9, 7, 1) \<lparr>cv_x = x, cv_y = y, cv_z = z\<rparr>"
      using d
      proof (elim disjE)
        assume "x \<le> - (6 / 10 ^ 4)"
        with o inside show ?thesis
          by (simp add: raw_simps; linarith)
      next
        assume "y \<le> - (6 / 10 ^ 4)"
        with o inside show ?thesis
          by (simp add: raw_simps; linarith)
      next
        assume "6 / 10 ^ 4 \<le> z"
        with o inside show ?thesis
          by (simp add: raw_simps; linarith)
      qed
    moreover have "(9, 7, 1) \<in> set faces" by (simp add: faces_def)
    ultimately show ?thesis by blast
  next
    case a
    have "raw_accept (1, 7, 6) \<lparr>cv_x = x, cv_y = y, cv_z = z\<rparr>"
      using d
      proof (elim disjE)
        assume "x \<le> - (6 / 10 ^ 4)"
        with o a show ?thesis
          by (simp add: raw_simps; linarith)
      next
        assume "y \<le> - (6 / 10 ^ 4)"
        with o a show ?thesis
          by (simp add: raw_simps; linarith)
      next
        assume "6 / 10 ^ 4 \<le> z"
        with o a show ?thesis
          by (simp add: raw_simps; linarith)
      qed
    moreover have "(1, 7, 6) \<in> set faces" by (simp add: faces_def)
    ultimately show ?thesis by blast
  next
    case b
    have "raw_accept (0, 9, 1) \<lparr>cv_x = x, cv_y = y, cv_z = z\<rparr>"
      using d
      proof (elim disjE)
        assume "x \<le> - (6 / 10 ^ 4)"
        with o b show ?thesis
          by (simp add: raw_simps; linarith)
      next
        assume "y \<le> - (6 / 10 ^ 4)"
        with o b show ?thesis
          by (simp add: raw_simps; linarith)
      next
        assume "6 / 10 ^ 4 \<le> z"
        with o b show ?thesis
          by (simp add: raw_simps; linarith)
      qed
    moreover have "(0, 9, 1) \<in> set faces" by (simp add: faces_def)
    ultimately show ?thesis by blast
  next
    case c
    have "raw_accept (9, 11, 7) \<lparr>cv_x = x, cv_y = y, cv_z = z\<rparr>"
      using d
      proof (elim disjE)
        assume "x \<le> - (6 / 10 ^ 4)"
        with o c show ?thesis
          by (simp add: raw_simps; linarith)
      next
        assume "y \<le> - (6 / 10 ^ 4)"
        with o c show ?thesis
          by (simp add: raw_simps; linarith)
      next
        assume "6 / 10 ^ 4 \<le> z"
        with o c show ?thesis
          by (simp add: raw_simps; linarith)
      qed
    moreover have "(9, 11, 7) \<in> set faces" by (simp add: faces_def)
    ultimately show ?thesis by blast
  qed
qed

lemma cover_mmm:
  assumes o: "x \<le> 0" "y \<le> 0" "z \<le> 0"
    and d: "x \<le> - (6 / 10 ^ 4) \<or> y \<le> - (6 / 10 ^ 4) \<or> z \<le> - (6 / 10 ^ 4)"
  shows "\<exists>f\<in>set faces. raw_accept f \<lparr>cv_x = x, cv_y = y, cv_z = z\<rparr>"
proof -
  consider (inside) "0 \<le> CVEC_DOT \<lparr>cv_x = x, cv_y = y, cv_z = z\<rparr> (CVEC_CROSS (vert ! 7) (vert ! 11)) \<and>
      0 \<le> CVEC_DOT \<lparr>cv_x = x, cv_y = y, cv_z = z\<rparr> (CVEC_CROSS (vert ! 11) (vert ! 3)) \<and>
      0 \<le> CVEC_DOT \<lparr>cv_x = x, cv_y = y, cv_z = z\<rparr> (CVEC_CROSS (vert ! 3) (vert ! 7))"
    | (a) "CVEC_DOT \<lparr>cv_x = x, cv_y = y, cv_z = z\<rparr> (CVEC_CROSS (vert ! 7) (vert ! 11)) < 0"
    | (b) "CVEC_DOT \<lparr>cv_x = x, cv_y = y, cv_z = z\<rparr> (CVEC_CROSS (vert ! 11) (vert ! 3)) < 0"
    | (c) "CVEC_DOT \<lparr>cv_x = x, cv_y = y, cv_z = z\<rparr> (CVEC_CROSS (vert ! 3) (vert ! 7)) < 0"
    by linarith
  then show ?thesis
  proof cases
    case inside
    have "raw_accept (3, 7, 11) \<lparr>cv_x = x, cv_y = y, cv_z = z\<rparr>"
      using d
      proof (elim disjE)
        assume "x \<le> - (6 / 10 ^ 4)"
        with o inside show ?thesis
          by (simp add: raw_simps; linarith)
      next
        assume "y \<le> - (6 / 10 ^ 4)"
        with o inside show ?thesis
          by (simp add: raw_simps; linarith)
      next
        assume "z \<le> - (6 / 10 ^ 4)"
        with o inside show ?thesis
          by (simp add: raw_simps; linarith)
      qed
    moreover have "(3, 7, 11) \<in> set faces" by (simp add: faces_def)
    ultimately show ?thesis by blast
  next
    case a
    have "raw_accept (9, 11, 7) \<lparr>cv_x = x, cv_y = y, cv_z = z\<rparr>"
      using d
      proof (elim disjE)
        assume "x \<le> - (6 / 10 ^ 4)"
        with o a show ?thesis
          by (simp add: raw_simps; linarith)
      next
        assume "y \<le> - (6 / 10 ^ 4)"
        with o a show ?thesis
          by (simp add: raw_simps; linarith)
      next
        assume "z \<le> - (6 / 10 ^ 4)"
        with o a show ?thesis
          by (simp add: raw_simps; linarith)
      qed
    moreover have "(9, 11, 7) \<in> set faces" by (simp add: faces_def)
    ultimately show ?thesis by blast
  next
    case b
    have "raw_accept (3, 11, 2) \<lparr>cv_x = x, cv_y = y, cv_z = z\<rparr>"
      using d
      proof (elim disjE)
        assume "x \<le> - (6 / 10 ^ 4)"
        with o b show ?thesis
          by (simp add: raw_simps; linarith)
      next
        assume "y \<le> - (6 / 10 ^ 4)"
        with o b show ?thesis
          by (simp add: raw_simps; linarith)
      next
        assume "z \<le> - (6 / 10 ^ 4)"
        with o b show ?thesis
          by (simp add: raw_simps; linarith)
      qed
    moreover have "(3, 11, 2) \<in> set faces" by (simp add: faces_def)
    ultimately show ?thesis by blast
  next
    case c
    have "raw_accept (3, 6, 7) \<lparr>cv_x = x, cv_y = y, cv_z = z\<rparr>"
      using d
      proof (elim disjE)
        assume "x \<le> - (6 / 10 ^ 4)"
        with o c show ?thesis
          by (simp add: raw_simps; linarith)
      next
        assume "y \<le> - (6 / 10 ^ 4)"
        with o c show ?thesis
          by (simp add: raw_simps; linarith)
      next
        assume "z \<le> - (6 / 10 ^ 4)"
        with o c show ?thesis
          by (simp add: raw_simps; linarith)
      qed
    moreover have "(3, 6, 7) \<in> set faces" by (simp add: faces_def)
    ultimately show ?thesis by blast
  qed
qed

lemma large_coordinate:
  assumes "bary_eps \<le> x * x + y * y + z * z"
  shows "6 / 10 ^ 4 \<le> \<bar>x\<bar> \<or> 6 / 10 ^ 4 \<le> \<bar>y\<bar> \<or> 6 / 10 ^ 4 \<le> \<bar>z\<bar>"
proof (rule ccontr)
  assume "\<not> ?thesis"
  then have b: "\<bar>x\<bar> < 6 / 10000" "\<bar>y\<bar> < 6 / 10000" "\<bar>z\<bar> < 6 / 10000" by simp_all
  have sq: "v * v \<le> 36 / 100000000" if "\<bar>v\<bar> < 6 / 10000" for v :: real
  proof -
    have "\<bar>v\<bar> * \<bar>v\<bar> \<le> (6 / 10000) * (6 / 10000)"
      using that by (intro mult_mono) simp_all
    then show ?thesis by simp
  qed
  have "x * x + y * y + z * z \<le> 108 / 100000000"
    using sq [OF b(1)] sq [OF b(2)] sq [OF b(3)] by linarith
  also have "\<dots> < bary_eps" by (simp add: bary_eps_def FLT_EPSILON_def)
  finally show False using assms by simp
qed

lemma faces_cover:
  assumes "bary_eps \<le> CVEC_L2_NORM_SQ v"
  shows "\<exists>f\<in>set faces. raw_accept f v"
proof -
  obtain x y z where v: "v = \<lparr>cv_x = x, cv_y = y, cv_z = z\<rparr>"
    by (cases v) auto
  from assms have "bary_eps \<le> x * x + y * y + z * z"
    by (simp add: v CVEC_L2_NORM_SQ_def CVEC_DOT_def)
  from large_coordinate [OF this]
  have d: "6 / 10 ^ 4 \<le> \<bar>x\<bar> \<or> 6 / 10 ^ 4 \<le> \<bar>y\<bar> \<or> 6 / 10 ^ 4 \<le> \<bar>z\<bar>" .
  show ?thesis
  proof (cases "0 \<le> x"; cases "0 \<le> y"; cases "0 \<le> z")
    assume "0 \<le> x" "0 \<le> y" "0 \<le> z"
    with d show ?thesis unfolding v by (intro cover_ppp) auto
  next
    assume "0 \<le> x" "0 \<le> y" "\<not> 0 \<le> z"
    with d show ?thesis unfolding v by (intro cover_ppm) auto
  next
    assume "0 \<le> x" "\<not> 0 \<le> y" "0 \<le> z"
    with d show ?thesis unfolding v by (intro cover_pmp) auto
  next
    assume "0 \<le> x" "\<not> 0 \<le> y" "\<not> 0 \<le> z"
    with d show ?thesis unfolding v by (intro cover_pmm) auto
  next
    assume "\<not> 0 \<le> x" "0 \<le> y" "0 \<le> z"
    with d show ?thesis unfolding v by (intro cover_mpp) auto
  next
    assume "\<not> 0 \<le> x" "0 \<le> y" "\<not> 0 \<le> z"
    with d show ?thesis unfolding v by (intro cover_mpm) auto
  next
    assume "\<not> 0 \<le> x" "\<not> 0 \<le> y" "0 \<le> z"
    with d show ?thesis unfolding v by (intro cover_mmp) auto
  next
    assume "\<not> 0 \<le> x" "\<not> 0 \<le> y" "\<not> 0 \<le> z"
    with d show ?thesis unfolding v by (intro cover_mmm) auto
  qed
qed

lemma vert_norm:
  assumes "i < 12"
  shows "CVEC_L2_NORM (vert ! i) = sqrt (1 + gr * gr)"
proof -
  from assms have "i = 0 \<or> i = 1 \<or> i = 2 \<or> i = 3 \<or> i = 4 \<or> i = 5 \<or> i = 6 \<or> i = 7 \<or>
      i = 8 \<or> i = 9 \<or> i = 10 \<or> i = 11"
    by arith
  then show ?thesis
    by (elim disjE)
       (simp_all add: vert_nth CVEC_L2_NORM_def CVEC_L2_NORM_SQ_def CVEC_DOT_def
          add.commute)
qed

lemma mu_pos: "0 < sqrt (1 + gr * gr)"
  by (simp add: gr_def)

lemma unit_vert_scale:
  "i < 12 \<Longrightarrow> unit_vert i = CVEC_SCALE (vert ! i) (1 / sqrt (1 + gr * gr))"
  by (simp add: unit_vert_def Let_def vert_norm)

lemma triple_swap: "triple x b a = - triple x a b"
  by (simp add: triple_def CVEC_DOT_def CVEC_CROSS_def algebra_simps)

lemma normal_dot:
  "CVEC_DOT (CVEC_CROSS (CVEC_MINUS v2 v1) (CVEC_MINUS v1 v0)) v0 = - triple v0 v1 v2"
  by (simp add: triple_def CVEC_DOT_def CVEC_CROSS_def CVEC_MINUS_def algebra_simps)

lemma make_tri_swapped:
  assumes i: "i0 < 12" "i1 < 12" "i2 < 12"
    and T: "0 < triple (vert ! i0) (vert ! i1) (vert ! i2)"
  shows "make_tri (i0, i1, i2) =
           \<lparr>tri_v0 = CVEC_SCALE (vert ! i1) (1 / sqrt (1 + gr * gr)),
            tri_v1 = CVEC_SCALE (vert ! i0) (1 / sqrt (1 + gr * gr)),
            tri_v2 = CVEC_SCALE (vert ! i2) (1 / sqrt (1 + gr * gr)),
            tri_idx = (i0, i1, i2)\<rparr>"
proof -
  let ?s = "1 / sqrt (1 + gr * gr)"
  have s: "0 < ?s" using mu_pos by simp
  have "CVEC_DOT (CVEC_CROSS (CVEC_MINUS (unit_vert i2) (unit_vert i1))
                   (CVEC_MINUS (unit_vert i1) (unit_vert i0))) (unit_vert i0) =
          - (?s * ?s * ?s * triple (vert ! i0) (vert ! i1) (vert ! i2))"
    unfolding normal_dot unit_vert_scale [OF i(1)] unit_vert_scale [OF i(2)]
      unit_vert_scale [OF i(3)] triple_scale3 ..
  moreover have "0 < ?s * ?s * ?s * triple (vert ! i0) (vert ! i1) (vert ! i2)"
    using s T by (intro mult_pos_pos)
  ultimately have "CVEC_DOT (CVEC_CROSS (CVEC_MINUS (unit_vert i2) (unit_vert i1))
                   (CVEC_MINUS (unit_vert i1) (unit_vert i0))) (unit_vert i0) < 0"
    by linarith
  then show ?thesis
    unfolding make_tri_def Let_def prod.case
    by (simp only: if_True unit_vert_scale [OF i(1)] unit_vert_scale [OF i(2)]
          unit_vert_scale [OF i(3)])
qed

lemma faces_triple_pos:
  assumes "(i0, i1, i2) \<in> set faces"
  shows "i0 < 12 \<and> i1 < 12 \<and> i2 < 12 \<and> 0 < triple (vert ! i0) (vert ! i1) (vert ! i2)"
  using assms unfolding faces_def
  by (auto simp: triple_def vert_nth CVEC_DOT_def CVEC_CROSS_def gr_def)

lemma cart2bary_face:
  fixes x :: Cvec and i0 i1 i2 :: nat
  defines "a \<equiv> triple x (vert ! i1) (vert ! i2)"
    and "b \<equiv> triple x (vert ! i2) (vert ! i0)"
    and "c \<equiv> triple x (vert ! i0) (vert ! i1)"
  assumes f: "(i0, i1, i2) \<in> set faces" and r: "raw_accept (i0, i1, i2) x"
  shows "cart2bary x (make_tri (i0, i1, i2)) =
           Some (\<lparr>cv_x = b / (a + b + c), cv_y = a / (a + b + c), cv_z = c / (a + b + c)\<rparr>,
                 triple (vert ! i0) (vert ! i1) (vert ! i2) * (1 / sqrt (1 + gr * gr)) /
                   (a + b + c))"
proof -
  let ?A = "vert ! i0" and ?B = "vert ! i1" and ?C = "vert ! i2"
  let ?s = "1 / sqrt (1 + gr * gr)"
  define T where "T = triple ?A ?B ?C"
  from faces_triple_pos [OF f]
  have i: "i0 < 12" "i1 < 12" "i2 < 12" and T: "0 < T" by (simp_all add: T_def)
  from r have abc: "bary_eps * (1 + gr * gr) \<le> a + b + c"
    by (simp add: raw_accept_def Let_def a_def b_def c_def triple_def)
  have s: "0 < ?s" using mu_pos by simp
  have ss: "?s * ?s = 1 / (1 + gr * gr)"
    using mu_pos by (simp add: field_simps)
  have e: "0 < bary_eps" by (simp add: bary_eps_def FLT_EPSILON_def)
  have g: "0 < 1 + gr * gr" by (simp add: gr_def)
  have sum: "0 < a + b + c"
    using abc mult_pos_pos [OF e g] by linarith
  define S where "S = - (a + b + c)"
  have S: "S = triple x ?A ?C + triple x ?C ?B + triple x ?B ?A"
    unfolding S_def a_def b_def c_def triple_swap [of x ?C ?B] triple_swap [of x ?A ?C]
      triple_swap [of x ?B ?A] by simp
  have big: "\<not> \<bar>S\<bar> * (?s * ?s) < bary_eps"
  proof -
    have "\<bar>S\<bar> = a + b + c" using sum by (simp add: S_def)
    moreover have "bary_eps \<le> (a + b + c) * (1 / (1 + gr * gr))"
      using abc g by (simp add: field_simps)
    ultimately show ?thesis unfolding ss by simp
  qed
  have tr: "triple x ?C ?B = - a" "triple x ?B ?A = - c" "triple ?B ?A ?C = - T"
    unfolding a_def c_def T_def
    by (simp_all add: triple_def CVEC_DOT_def CVEC_CROSS_def algebra_simps)
  have cb: "cart2bary x (make_tri (i0, i1, i2)) =
      Some (\<lparr>cv_x = 1 - (- a) / S - (- c) / S, cv_y = (- a) / S, cv_z = (- c) / S\<rparr>,
            (- T) * ?s / S)"
    unfolding make_tri_swapped [OF i T [unfolded T_def]]
      cart2bary_scaled [OF s S] tr [symmetric]
    using big by simp
  have q: "(- a) / S = a / (a + b + c)" "(- c) / S = c / (a + b + c)"
    "(- T) * ?s / S = T * ?s / (a + b + c)"
    unfolding S_def mult_minus_left by (rule minus_divide_divide)+
  have bx: "1 - a / (a + b + c) - c / (a + b + c) = b / (a + b + c)"
  proof -
    define d where "d = a + b + c"
    have d0: "d \<noteq> 0" using sum by (simp add: d_def)
    have "1 - a / d - c / d = d / d - a / d - c / d" using d0 by simp
    also have "\<dots> = (d - a - c) / d" by (simp only: diff_divide_distrib)
    also have "d - a - c = b" by (simp add: d_def)
    finally show ?thesis unfolding d_def .
  qed
  have "cart2bary x (make_tri (i0, i1, i2)) =
      Some (\<lparr>cv_x = b / (a + b + c), cv_y = a / (a + b + c), cv_z = c / (a + b + c)\<rparr>,
            T * ?s / (a + b + c))"
    unfolding cb q bx ..
  then show ?thesis unfolding T_def .
qed

lemma raw_accept_tri_accepts:
  assumes f: "f \<in> set faces" and r: "raw_accept f x"
  shows "tri_accepts (make_tri f) x"
proof -
  obtain i0 i1 i2 where fi: "f = (i0, i1, i2)" by (cases f)
  let ?s = "1 / sqrt (1 + gr * gr)"
  define a where "a = triple x (vert ! i1) (vert ! i2)"
  define b where "b = triple x (vert ! i2) (vert ! i0)"
  define c where "c = triple x (vert ! i0) (vert ! i1)"
  define T where "T = triple (vert ! i0) (vert ! i1) (vert ! i2)"
  from faces_triple_pos [OF f [unfolded fi]] have T: "0 < T" by (simp add: T_def)
  from r have abc: "0 \<le> a" "0 \<le> b" "0 \<le> c" "bary_eps * (1 + gr * gr) \<le> a + b + c"
    by (simp_all add: raw_accept_def fi Let_def a_def b_def c_def triple_def)
  have s: "0 < ?s" using mu_pos by simp
  have e: "0 < bary_eps" by (simp add: bary_eps_def FLT_EPSILON_def)
  have g: "0 < 1 + gr * gr" by (simp add: gr_def)
  have sum: "0 < a + b + c"
    using abc(4) mult_pos_pos [OF e g] by linarith
  have nn: "0 \<le> a / (a + b + c)" "0 \<le> b / (a + b + c)" "0 \<le> c / (a + b + c)"
    "0 \<le> T * ?s / (a + b + c)"
    using abc(1-3) sum T s by simp_all
  show ?thesis
    unfolding tri_accepts_def fi
      cart2bary_face [OF f [unfolded fi] r [unfolded fi], folded a_def b_def c_def T_def]
    using nn e by simp
qed

lemma init_geometry_mesh: "mesh (snd (init_geometry True sift3d)) = icos_mesh"
  by (simp add: init_geometry_def)

lemma icos_scan_finds:
  assumes "\<exists>tri\<in>set tris. tri_accepts tri x"
  shows "\<exists>bary i. icos_scan tris x j = Found bary i \<and> j \<le> i \<and> i < j + length tris \<and>
           tri_accepts (tris ! (i - j)) x \<and> (\<forall>m<i - j. \<not> tri_accepts (tris ! m) x)"
  using assms
proof (induction tris arbitrary: j)
  case Nil
  then show ?case by simp
next
  case (Cons tri tris)
  show ?case
  proof (cases "tri_accepts tri x")
    case True
    then have "\<exists>bary. icos_scan (tri # tris) x j = Found bary j"
      by (auto simp: tri_accepts_def split: option.splits)
    with True show ?thesis by auto
  next
    case False
    with Cons.prems have "\<exists>t\<in>set tris. tri_accepts t x" by auto
    from Cons.IH [OF this, of "j + 1"]
    obtain bary i where r: "icos_scan tris x (j + 1) = Found bary i" "j + 1 \<le> i"
      "i < j + 1 + length tris" "tri_accepts (tris ! (i - (j + 1))) x"
      "\<forall>m<i - (j + 1). \<not> tri_accepts (tris ! m) x" by blast
    have e: "icos_scan (tri # tris) x j = icos_scan tris x (j + 1)"
      using False by (auto simp: tri_accepts_def split: option.splits)
    from r(2) obtain d where d: "i - j = Suc d" "i - (j + 1) = d"
      by (cases "i - j") auto
    have "\<not> tri_accepts ((tri # tris) ! m) x" if "m < i - j" for m
      using that False r(5) unfolding d by (cases m) auto
    moreover have "tri_accepts ((tri # tris) ! (i - j)) x"
      using r(4) unfolding d by simp
    ultimately show ?thesis using r(1-3) e by auto
  qed
qed

text \<open>
  Claim C8. On the mesh built by \<^verbatim>\<open>init_geometry\<close>, \<^verbatim>\<open>icos_hist_bin\<close> fails exactly when
  \<open>\<parallel>x\<parallel>\<^sup>2 < bary_eps\<close>. For every other \<open>x\<close> the scan of the twenty faces in declared order
  returns at a face \<open>i < 20\<close> that accepts \<open>x\<close> (its determinant is at least \<^verbatim>\<open>bary_eps\<close> in
  absolute value, its barycentric coordinates are at least \<open>-bary_eps\<close> and \<open>k \<ge> 0\<close>),
  no earlier face accepts \<open>x\<close>, and the code after the loop is never reached.
\<close>

theorem icos_hist_bin_total:
  assumes "mesh sift3d = icos_mesh"
  shows "(icos_hist_bin sift3d x = TooSmall \<longleftrightarrow> CVEC_L2_NORM_SQ x < bary_eps) \<and>
         (bary_eps \<le> CVEC_L2_NORM_SQ x \<longrightarrow>
            (\<exists>bary i. icos_hist_bin sift3d x = Found bary i \<and> i < 20 \<and>
               tri_accepts (mesh sift3d ! i) x \<and>
               (\<forall>j<i. \<not> tri_accepts (mesh sift3d ! j) x))) \<and>
         icos_hist_bin sift3d x \<noteq> FellThrough"
proof -
  have len: "length icos_mesh = 20" by (simp add: icos_mesh_def faces_def)
  have found: "\<exists>bary i. icos_scan icos_mesh x 0 = Found bary i \<and> i < 20 \<and>
      tri_accepts (icos_mesh ! i) x \<and> (\<forall>j<i. \<not> tri_accepts (icos_mesh ! j) x)"
    if "bary_eps \<le> CVEC_L2_NORM_SQ x"
  proof -
    from faces_cover [OF that] obtain f where f: "f \<in> set faces" "raw_accept f x" by blast
    then have "tri_accepts (make_tri f) x" by (rule raw_accept_tri_accepts)
    with f(1) have "\<exists>tri\<in>set icos_mesh. tri_accepts tri x"
      by (auto simp: icos_mesh_def)
    from icos_scan_finds [OF this, of 0] show ?thesis
      unfolding len by auto
  qed
  show ?thesis
    using found by (auto simp: icos_hist_bin_def assms)
qed

theorem icos_hist_bin_total_witness:
  "mesh (fresh_SIFT3D None) = icos_mesh \<and>
   bary_eps \<le> CVEC_L2_NORM_SQ \<lparr>cv_x = 0, cv_y = 0, cv_z = 1\<rparr> \<and>
   (\<exists>bary i. icos_hist_bin (fresh_SIFT3D None) \<lparr>cv_x = 0, cv_y = 0, cv_z = 1\<rparr> = Found bary i \<and>
      i < 20)"
proof -
  have m: "mesh (fresh_SIFT3D None) = icos_mesh" by (simp add: fresh_SIFT3D_def)
  have n: "bary_eps \<le> CVEC_L2_NORM_SQ \<lparr>cv_x = 0, cv_y = 0, cv_z = 1\<rparr>"
    by (simp add: CVEC_L2_NORM_SQ_def CVEC_DOT_def bary_eps_def FLT_EPSILON_def)
  from icos_hist_bin_total [OF m, of "\<lparr>cv_x = 0, cv_y = 0, cv_z = 1\<rparr>"] n m
  show ?thesis by blast
qed


subsection \<open>Claim C7: the norm of a descriptor\<close>

lemma desc_sumsq_sum:
  "desc_sumsq h = (\<Sum>i<DESC_NUM_TOTAL_HIST. \<Sum>a<HIST_NUMEL. (h i a)\<^sup>2)"
  unfolding desc_sumsq_def fold_fold_add
  by (simp add: interv_sum_list_conv_sum_set_nat power2_eq_square lessThan_atLeast0)

lemma desc_l2_norm_sumsq: "desc_l2_norm h = sqrt (desc_sumsq h)"
  by (simp add: desc_l2_norm_def desc_sumsq_sum)

lemma desc_l2_norm_nonneg: "0 \<le> desc_l2_norm h"
  unfolding desc_l2_norm_def by (intro real_sqrt_ge_zero sum_nonneg) simp

lemma desc_l2_norm_cong:
  assumes "\<And>i a. i < DESC_NUM_TOTAL_HIST \<Longrightarrow> a < HIST_NUMEL \<Longrightarrow> h i a = g i a"
  shows "desc_l2_norm h = desc_l2_norm g"
  unfolding desc_l2_norm_def using assms by simp

lemma desc_l2_norm_scale:
  assumes "0 \<le> c"
  shows "desc_l2_norm (\<lambda>i a. h i a * c) = desc_l2_norm h * c"
proof -
  have "(\<Sum>i<DESC_NUM_TOTAL_HIST. \<Sum>a<HIST_NUMEL. (h i a * c)\<^sup>2) =
          (\<Sum>i<DESC_NUM_TOTAL_HIST. \<Sum>a<HIST_NUMEL. (h i a)\<^sup>2) * c\<^sup>2"
    by (simp add: power_mult_distrib sum_distrib_right)
  then show ?thesis
    unfolding desc_l2_norm_def using assms by (simp add: real_sqrt_mult)
qed

lemma entry_le_desc_l2_norm:
  assumes i: "i < DESC_NUM_TOTAL_HIST" and a: "a < HIST_NUMEL"
  shows "\<bar>h i a\<bar> \<le> desc_l2_norm h"
proof -
  have "(h i a)\<^sup>2 \<le> (\<Sum>a<HIST_NUMEL. (h i a)\<^sup>2)"
    using a by (intro member_le_sum) simp_all
  also have "\<dots> \<le> (\<Sum>i<DESC_NUM_TOTAL_HIST. \<Sum>a<HIST_NUMEL. (h i a)\<^sup>2)"
    using i by (intro member_le_sum [of i _ "\<lambda>i. \<Sum>a<HIST_NUMEL. (h i a)\<^sup>2"] sum_nonneg) simp_all
  finally have "sqrt ((h i a)\<^sup>2) \<le> desc_l2_norm h"
    unfolding desc_l2_norm_def by (rule real_sqrt_le_mono)
  then show ?thesis by simp
qed

lemma desc_l2_norm_normalize:
  "desc_l2_norm (normalize_desc h) = desc_l2_norm h / (desc_l2_norm h + DBL_EPSILON)"
proof -
  let ?c = "1 / (desc_l2_norm h + DBL_EPSILON)"
  have c: "0 \<le> ?c" using desc_l2_norm_nonneg [of h] by (simp add: DBL_EPSILON_def)
  have "desc_l2_norm (normalize_desc h) = desc_l2_norm (\<lambda>i a. h i a * ?c)"
    by (rule desc_l2_norm_cong) (simp add: normalize_desc_def Let_def desc_l2_norm_sumsq)
  also have "\<dots> = desc_l2_norm h * ?c" by (rule desc_l2_norm_scale [OF c])
  finally show ?thesis by simp
qed

lemma trunc_thresh_eq: "trunc_thresh = 1 / 30"
  by (simp add: trunc_thresh_def DESC_NUMEL_def DESC_NUM_TOTAL_HIST_def HIST_NUMEL_def)

lemma desc_l2_norm_truncate:
  "SIFT3D_MIN (desc_l2_norm h) trunc_thresh \<le> desc_l2_norm (truncate_desc h)"
proof (cases "\<exists>i<DESC_NUM_TOTAL_HIST. \<exists>a<HIST_NUMEL. \<not> h i a < trunc_thresh")
  case True
  then obtain i a where ia: "i < DESC_NUM_TOTAL_HIST" "a < HIST_NUMEL" "\<not> h i a < trunc_thresh"
    by blast
  then have "truncate_desc h i a = trunc_thresh"
    by (simp add: truncate_desc_def SIFT3D_MIN_def)
  with entry_le_desc_l2_norm [OF ia(1,2), of "truncate_desc h"]
  have "trunc_thresh \<le> desc_l2_norm (truncate_desc h)" by simp
  then show ?thesis by (simp add: SIFT3D_MIN_def)
next
  case False
  have "desc_l2_norm (truncate_desc h) = desc_l2_norm h"
    by (rule desc_l2_norm_cong) (use False in \<open>auto simp: truncate_desc_def SIFT3D_MIN_def\<close>)
  then show ?thesis by (simp add: SIFT3D_MIN_def)
qed

lemma normalize_truncate_normalize:
  assumes "DBL_EPSILON \<le> desc_l2_norm h"
  shows "1 - 1 / 10 ^ 5 \<le> desc_l2_norm (normalize_desc (truncate_desc (normalize_desc h)))"
    and "desc_l2_norm (normalize_desc (truncate_desc (normalize_desc h))) \<le> 1"
proof -
  define n0 where "n0 = desc_l2_norm h"
  define n1 where "n1 = desc_l2_norm (normalize_desc h)"
  define n2 where "n2 = desc_l2_norm (truncate_desc (normalize_desc h))"
  define n3 where "n3 = desc_l2_norm (normalize_desc (truncate_desc (normalize_desc h)))"
  have d: "0 < DBL_EPSILON" "DBL_EPSILON \<le> 1 / 10 ^ 7" by (simp_all add: DBL_EPSILON_def)
  have n1: "n1 = n0 / (n0 + DBL_EPSILON)"
    unfolding n1_def n0_def by (rule desc_l2_norm_normalize)
  have "n0 + DBL_EPSILON \<le> 2 * n0" using assms by (simp add: n0_def)
  then have "(n0 + DBL_EPSILON) * (1 / 2) \<le> n0" by simp
  then have "1 / 2 \<le> n1"
    unfolding n1 using assms d(1) by (simp add: n0_def pos_le_divide_eq)
  moreover have "SIFT3D_MIN n1 trunc_thresh \<le> n2"
    unfolding n1_def n2_def by (rule desc_l2_norm_truncate)
  ultimately have n2: "1 / 30 \<le> n2"
    by (simp add: SIFT3D_MIN_def trunc_thresh_eq split: if_splits)
  have n3: "n3 = n2 / (n2 + DBL_EPSILON)"
    unfolding n3_def n2_def by (rule desc_l2_norm_normalize)
  have pos: "0 < n2 + DBL_EPSILON" using n2 d(1) by linarith
  have "(1 - 1 / 10 ^ 5) * (n2 + DBL_EPSILON) \<le> n2"
    using n2 d(2) by (simp add: algebra_simps)
  then have "1 - 1 / 10 ^ 5 \<le> n3"
    unfolding n3 using pos by (simp add: pos_le_divide_eq)
  then show "1 - 1 / 10 ^ 5 \<le> desc_l2_norm (normalize_desc (truncate_desc (normalize_desc h)))"
    by (simp add: n3_def)
  have "n2 \<le> 1 * (n2 + DBL_EPSILON)" using d(1) by simp
  then have "n3 \<le> 1"
    unfolding n3 using pos by (simp add: pos_divide_le_eq)
  then show "desc_l2_norm (normalize_desc (truncate_desc (normalize_desc h))) \<le> 1"
    by (simp add: n3_def)
qed

lemma hists_extract_descrip:
  "hists (extract_descrip sift3d img key) =
     normalize_desc (truncate_desc (normalize_desc (descrip_accum sift3d img key)))"
  by (simp add: extract_descrip_def Let_def)

lemma center_fields:
  "key_sd_rel center_Keypoint = 1" "key_xd center_Keypoint = 3 / 2"
  "key_yd center_Keypoint = 3 / 2" "key_zd center_Keypoint = 3 / 2"
  by (simp_all add: center_Keypoint_def)

lemma center_sphere:
  assumes "im_nx img = 3" "im_ny img = 3" "im_nz img = 3"
  shows "IM_LOOP_SPHERE img \<lparr>cv_x = 3 / 2, cv_y = 3 / 2, cv_z = 3 / 2\<rparr>
           (desc_rad_fctr * desc_sig_fctr) =
         [((1, 1, 1), \<lparr>cv_x = 0, cv_y = 0, cv_z = 0\<rparr>, 0)]"
proof -
  have u: "[1..1] = [1::int]" by (simp add: upto.simps)
  show ?thesis
    by (simp add: IM_LOOP_SPHERE_def assms desc_rad_fctr_def desc_sig_fctr_def
          c_trunc_def SIFT3D_MAX_def SIFT3D_MIN_def IM_LOOP_LIMITED_def u CVEC_L2_NORM_SQ_def
          CVEC_DOT_def Let_def)
qed

lemma center_step:
  "descrip_step sift3d img center_Keypoint ((1, 1, 1), \<lparr>cv_x = 0, cv_y = 0, cv_z = 0\<rparr>, 0) h =
     SIFT3D_desc_acc_interp sift3d \<lparr>cv_x = 2, cv_y = 2, cv_z = 2\<rparr> (IM_GET_GRAD img 1 1 1) h"
proof -
  define w where "w = desc_rad_fctr * (1 * desc_sig_fctr) / sqrt 2"
  have w: "w \<noteq> 0" by (simp add: w_def desc_rad_fctr_def desc_sig_fctr_def)
  have v: "(0 + w / 2) * (4 / w) = 2" using w by simp
  have m: "MUL_MAT_RM_CVEC (\<lambda>i j. if i = j then 1 else 0) v = v" for v :: Cvec
    by (simp add: MUL_MAT_RM_CVEC_def)
  have z: "MUL_MAT_RM_CVEC (\<lambda>i j. if i = j then 1 else 0) \<lparr>cv_x = 0, cv_y = 0, cv_z = 0\<rparr> =
      \<lparr>cv_x = 0, cv_y = 0, cv_z = 0\<rparr>" by (rule m)
  have sc: "CVEC_SCALE v 1 = v" for v by (simp add: CVEC_SCALE_def)
  show ?thesis
    unfolding descrip_step_def center_Keypoint_def Let_def prod.case Keypoint.simps
      NHIST_PER_DIM_def w_def [symmetric] z
    by (simp add: v w m sc)
qed

lemma icos_hist_bin_zero:
  "icos_hist_bin sift3d \<lparr>cv_x = 0, cv_y = 0, cv_z = 0\<rparr> = TooSmall"
  by (simp add: icos_hist_bin_def CVEC_L2_NORM_SQ_def CVEC_DOT_def bary_eps_def FLT_EPSILON_def)

lemma icos_hist_bin_up:
  "icos_hist_bin (fresh_SIFT3D None) \<lparr>cv_x = 0, cv_y = 0, cv_z = 1\<rparr> =
     Found \<lparr>cv_x = 1 / 2, cv_y = 1 / 2, cv_z = 0\<rparr> 0"
proof -
  let ?x = "\<lparr>cv_x = 0, cv_y = 0, cv_z = 1\<rparr>"
  have f: "(0, Suc 0, 8) \<in> set faces" by (simp add: faces_def)
  have r: "raw_accept (0, Suc 0, 8) ?x"
    by (simp add: raw_simps)
  have t: "triple ?x (vert ! Suc 0) (vert ! 8) = gr" "triple ?x (vert ! 8) (vert ! 0) = gr"
    "triple ?x (vert ! 0) (vert ! Suc 0) = 0"
    by (simp_all add: triple_def vert_nth CVEC_DOT_def CVEC_CROSS_def)
  have T: "0 < triple (vert ! 0) (vert ! Suc 0) (vert ! 8)"
    using faces_triple_pos [OF f] by simp
  have g: "gr \<noteq> 0" by (simp add: gr_def)
  have k: "0 \<le> triple (vert ! 0) (vert ! Suc 0) (vert ! 8) * (1 / sqrt (1 + gr * gr)) /
             (gr + gr + 0)"
    using T mu_pos by (simp add: gr_def)
  have c: "cart2bary ?x (make_tri (0, Suc 0, 8)) =
      Some (\<lparr>cv_x = 1 / 2, cv_y = 1 / 2, cv_z = 0\<rparr>,
            triple (vert ! 0) (vert ! Suc 0) (vert ! 8) * (1 / sqrt (1 + gr * gr)) /
              (gr + gr + 0))"
    unfolding cart2bary_face [OF f r] t using g by simp
  have m: "mesh (fresh_SIFT3D None) = make_tri (0, Suc 0, 8) # tl icos_mesh"
    by (simp add: fresh_SIFT3D_def icos_mesh_def faces_def)
  have n: "\<not> CVEC_L2_NORM_SQ ?x < bary_eps"
    by (simp add: CVEC_L2_NORM_SQ_def CVEC_DOT_def bary_eps_def FLT_EPSILON_def)
  have e: "0 < bary_eps" by (simp add: bary_eps_def FLT_EPSILON_def)
  show ?thesis
    unfolding icos_hist_bin_def m icos_scan.simps c
    using n k e by simp
qed

lemma slope_accum_entry:
  "descrip_accum (fresh_SIFT3D None) slope_Image center_Keypoint 42 0 = 1 / 2"
proof -
  have g: "IM_GET_GRAD slope_Image 1 1 1 = \<lparr>cv_x = 0, cv_y = 0, cv_z = 1\<rparr>"
    by (simp add: IM_GET_GRAD_def slope_Image_def blank_Image_def)
  have s: "IM_LOOP_SPHERE slope_Image \<lparr>cv_x = 3 / 2, cv_y = 3 / 2, cv_z = 3 / 2\<rparr>
             (desc_rad_fctr * desc_sig_fctr) =
           [((1, 1, 1), \<lparr>cv_x = 0, cv_y = 0, cv_z = 0\<rparr>, 0)]"
    by (rule center_sphere) (simp_all add: slope_Image_def blank_Image_def)
  have i: "tri_idx (mesh (fresh_SIFT3D None) ! 0) = (0, Suc 0, 8)"
    by (simp add: fresh_SIFT3D_def icos_mesh_def faces_def make_tri_def Let_def)
  have a: "SIFT3D_desc_acc_interp (fresh_SIFT3D None) \<lparr>cv_x = 2, cv_y = 2, cv_z = 2\<rparr>
             \<lparr>cv_x = 0, cv_y = 0, cv_z = 1\<rparr> (\<lambda>i a. 0) 42 0 = 1 / 2"
    unfolding SIFT3D_desc_acc_interp_def icos_hist_bin_up Let_def icos_result.simps
    by (simp add: acc_cell_def i hist_add_def c_trunc_def NHIST_PER_DIM_def CVEC_L2_NORM_def
          CVEC_L2_NORM_SQ_def CVEC_DOT_def Let_def)
  show ?thesis
    unfolding descrip_accum_def Let_def refine_Hist_def
    by (simp add: center_fields s center_step g a)
qed

lemma blank_accum:
  "descrip_accum (fresh_SIFT3D None) (blank_Image 3 3 3 1) center_Keypoint = (\<lambda>i a. 0)"
proof -
  have g: "IM_GET_GRAD (blank_Image 3 3 3 1) 1 1 1 = \<lparr>cv_x = 0, cv_y = 0, cv_z = 0\<rparr>"
    by (simp add: IM_GET_GRAD_def blank_Image_def)
  have s: "IM_LOOP_SPHERE (blank_Image 3 3 3 1) \<lparr>cv_x = 3 / 2, cv_y = 3 / 2, cv_z = 3 / 2\<rparr>
             (desc_rad_fctr * desc_sig_fctr) =
           [((1, 1, 1), \<lparr>cv_x = 0, cv_y = 0, cv_z = 0\<rparr>, 0)]"
    by (rule center_sphere) (simp_all add: blank_Image_def)
  have a: "SIFT3D_desc_acc_interp (fresh_SIFT3D None) \<lparr>cv_x = 2, cv_y = 2, cv_z = 2\<rparr>
             \<lparr>cv_x = 0, cv_y = 0, cv_z = 0\<rparr> h = h" for h
    by (simp add: SIFT3D_desc_acc_interp_def icos_hist_bin_zero)
  show ?thesis
    unfolding descrip_accum_def Let_def refine_Hist_def
    by (simp add: center_fields s center_step g a)
qed

lemma desc_l2_norm_zero: "desc_l2_norm (\<lambda>i a. 0) = 0"
  by (simp add: desc_l2_norm_def)

text \<open>
  Claim C7, amended. When the accumulated histograms have a combined L2 norm of at
  least \<^verbatim>\<open>DBL_EPSILON\<close>, the descriptor that \<^verbatim>\<open>extract_descrip\<close> produces has a combined L2
  norm in \<open>[1 - 10\<^sup>-\<^sup>5, 1 + 10\<^sup>-\<^sup>5]\<close> (in fact at most 1).
\<close>

theorem extract_descrip_norm:
  assumes "DBL_EPSILON \<le> desc_l2_norm (descrip_accum sift3d img key)"
  shows "1 - 1 / 10 ^ 5 \<le> desc_l2_norm (hists (extract_descrip sift3d img key)) \<and>
         desc_l2_norm (hists (extract_descrip sift3d img key)) \<le> 1 + 1 / 10 ^ 5"
proof -
  note b = normalize_truncate_normalize [OF assms]
  have "desc_l2_norm (hists (extract_descrip sift3d img key)) \<le> 1"
    unfolding hists_extract_descrip by (rule b(2))
  then have "desc_l2_norm (hists (extract_descrip sift3d img key)) \<le> 1 + 1 / 10 ^ 5"
    by simp
  moreover have "1 - 1 / 10 ^ 5 \<le> desc_l2_norm (hists (extract_descrip sift3d img key))"
    unfolding hists_extract_descrip by (rule b(1))
  ultimately show ?thesis by simp
qed

theorem extract_descrip_norm_witness:
  "DBL_EPSILON \<le> desc_l2_norm (descrip_accum (fresh_SIFT3D None) slope_Image center_Keypoint) \<and>
   1 - 1 / 10 ^ 5 \<le>
     desc_l2_norm (hists (extract_descrip (fresh_SIFT3D None) slope_Image center_Keypoint)) \<and>
   desc_l2_norm (hists (extract_descrip (fresh_SIFT3D None) slope_Image center_Keypoint)) \<le>
     1 + 1 / 10 ^ 5"
proof -
  have "\<bar>descrip_accum (fresh_SIFT3D None) slope_Image center_Keypoint 42 0\<bar> \<le>
          desc_l2_norm (descrip_accum (fresh_SIFT3D None) slope_Image center_Keypoint)"
    by (rule entry_le_desc_l2_norm) (simp_all add: DESC_NUM_TOTAL_HIST_def HIST_NUMEL_def)
  then have h: "DBL_EPSILON \<le>
      desc_l2_norm (descrip_accum (fresh_SIFT3D None) slope_Image center_Keypoint)"
    by (simp add: slope_accum_entry DBL_EPSILON_def)
  from extract_descrip_norm [OF h] h show ?thesis by simp
qed

text \<open>
  Claim C7, as the specification states it, on a uniform image: every gradient is
  zero, \<^verbatim>\<open>icos_hist_bin\<close> fails on it, nothing is accumulated, and the descriptor stays
  zero through both normalizations.
\<close>

theorem extract_descrip_norm_counterexample:
  "desc_l2_norm (hists (extract_descrip (fresh_SIFT3D None) (blank_Image 3 3 3 1) center_Keypoint))
     = 0"
proof -
  have n: "normalize_desc (\<lambda>i a. 0) = (\<lambda>i a. 0)"
    by (simp add: normalize_desc_def fun_eq_iff)
  have t: "truncate_desc (\<lambda>i a. 0) = (\<lambda>i a. 0)"
    by (simp add: truncate_desc_def fun_eq_iff SIFT3D_MIN_def trunc_thresh_eq)
  show ?thesis
    by (simp add: hists_extract_descrip blank_accum n t desc_l2_norm_zero)
qed


end
